theory Spec2Isabelle
  imports Complex_Main "HOL-Library.Multiset"
begin

section \<open>Data model\<close>

text \<open>
  The embedding follows the Python sources of \<^verbatim>\<open>ai_cost_guard\<close>.

  \<^item> A finite Python \<^verbatim>\<open>float\<close> is the real number it denotes, and \<open>pyfloat\<close> adds the
    two infinities and NaN that float arithmetic can produce (the two zeros are one
    value). The float operations of \<^verbatim>\<open>calculate_cost\<close>, \<^verbatim>\<open>_compute_exact_percentile\<close> and
    \<^verbatim>\<open>detect_anomalies\<close> round their exact result to the nearest double, ties to even
    (\<open>round_double\<close>, \<open>fl_round\<close>). Comparisons of finite floats are exact. The floats
    that enter as inputs (costs, limits) are finite.
  \<^item> Two float computations are kept with exact arithmetic, and are marked where they
    occur: the three percentiles inside \<open>compute_baseline\<close>, and the monthly estimate
    \<^verbatim>\<open>sum(...) / 30 * 30\<close> of the simulation harness (the float \<^verbatim>\<open>sum\<close> differs between
    Python versions). What is proved of these two functions is about the sample, the
    errors, the state and the event that is used; the percentile values that occur in
    the examples (1, 3, 5 and 100) and the monthly estimate of the example (3) are the
    same in float arithmetic.
  \<^item> A \<^verbatim>\<open>Decimal\<close> is the number it denotes, as a real. Every \<^verbatim>\<open>Decimal\<close> operation rounds
    its exact result to the 28 significant digits of the default context
    (\<open>decimal_round\<close>) and signals as the default context does.
  \<^item> A naive \<^verbatim>\<open>datetime\<close> is the number of microseconds since a fixed epoch, and
    \<^verbatim>\<open>datetime.now()\<close> is a parameter \<open>now\<close> of every function that reads the clock.
  \<^item> An exception is a value of type \<open>error\<close>, returned as \<open>Inl\<close>.
  \<^item> A field that the sources test against \<^verbatim>\<open>None\<close> is an \<open>option\<close>.
\<close>

type_synonym datetime = int

datatype pyfloat = Fl real | PInf | NInf | NaN

datatype EnforcementAction = ALLOW | WARN | DOWNGRADE | THROTTLE | BLOCK

text \<open>The values \<^verbatim>\<open>auto()\<close> gives the members, in declaration order.\<close>

fun action_value :: "EnforcementAction \<Rightarrow> nat" where
  "action_value ALLOW = 1"
| "action_value WARN = 2"
| "action_value DOWNGRADE = 3"
| "action_value THROTTLE = 4"
| "action_value BLOCK = 5"

datatype AnomalySeverity = WARNING | CRITICAL

datatype BaselineState = COLD | WARM

text \<open>
  The messages are f-strings. Each is kept as its template (the constructor) with the
  values it interpolates, in the order of the template; the rendering of numbers
  (\<^verbatim>\<open>:.2f\<close>, \<^verbatim>\<open>:,\<close>) is not modelled. \<open>FreeText\<close> is any other message a caller puts
  into an \<^verbatim>\<open>AnomalyEvent\<close>.
\<close>

datatype anomaly_message =
    CostSpikeMsg real real pyfloat
  | HighTokenUsageMsg int int pyfloat
  | RetryAmplificationMsg pyfloat real int pyfloat real
  | FreeText string

datatype guardrail_message =
    EmptyMsg
  | RequestCostMsg real real string string
  | BudgetLimitMsg real real string
  | CriticalAnomalyMsg string string anomaly_message
  | WarningAnomalyMsg string string anomaly_message
  | SimulatedMsg EnforcementAction

text \<open>
  \<^verbatim>\<open>sqlite3.OperationalError\<close> is raised by the store; the harness only asks whether its
  text contains "no such table", which the constructor records.
\<close>

datatype db_error = NoSuchTable | OtherOperationalError

datatype error =
    ValueError string
  | TypeError
  | AttributeError
  | IndexError
  | GuardrailViolation guardrail_message EnforcementAction
  | OperationalError db_error
  | OverflowError
  | DecimalInvalidOperation
  | DecimalOverflow

record LLMUsageEvent =
  timestamp :: datetime
  feature :: string
  model :: string
  prompt_tokens :: int
  completion_tokens :: int
  total_tokens :: "int option"
  estimated_cost :: "real option"
  retry_count :: "int option"
  request_id :: "string option"

subsection \<open>Python primitives\<close>

text \<open>\<^verbatim>\<open>int(x)\<close> on a float truncates towards zero.\<close>

definition py_int :: "real \<Rightarrow> int" where
  "py_int x = (if 0 \<le> x then \<lfloor>x\<rfloor> else \<lceil>x\<rceil>)"

text \<open>
  Subscription \<^verbatim>\<open>xs[i]\<close> of a list: \<open>i\<close> from \<open>0\<close> to \<open>len - 1\<close> reads from the front,
  \<open>i\<close> from \<open>-len\<close> to \<open>-1\<close> reads from the back, and every other \<open>i\<close> is an
  \<^verbatim>\<open>IndexError\<close>.
\<close>

definition py_index :: "'a list \<Rightarrow> int \<Rightarrow> error + 'a" where
  "py_index xs i =
     (if 0 \<le> i \<and> i < int (length xs) then Inr (xs ! nat i)
      else if i < 0 \<and> - int (length xs) \<le> i then Inr (xs ! nat (int (length xs) + i))
      else Inl IndexError)"

text \<open>\<^verbatim>\<open>str(n)\<close> for an index \<open>n \<ge> 0\<close>.\<close>

definition digit_char :: "nat \<Rightarrow> char" where
  "digit_char d = ''0123456789'' ! d"

fun str_of_nat :: "nat \<Rightarrow> string" where
  "str_of_nat n = (if n < 10 then [digit_char n] else str_of_nat (n div 10) @ [digit_char (n mod 10)])"

declare str_of_nat.simps [simp del]

text \<open>Sequencing of two steps of which the first may raise.\<close>

definition bind_result :: "error + 'a \<Rightarrow> ('a \<Rightarrow> error + 'b) \<Rightarrow> error + 'b" where
  "bind_result r f = (case r of Inl e \<Rightarrow> Inl e | Inr v \<Rightarrow> f v)"

subsection \<open>Rounding of floats and decimals\<close>

text \<open>
  Rounding to the nearest integer, ties to the even one: the rounding of IEEE 754
  arithmetic and of the default \<^verbatim>\<open>decimal\<close> context (\<^verbatim>\<open>ROUND_HALF_EVEN\<close>).
\<close>

definition round_half_even :: "real \<Rightarrow> int" where
  "round_half_even x =
     (let f = \<lfloor>x\<rfloor>; d = x - of_int f
      in if d < 1 / 2 then f else if d > 1 / 2 then f + 1 else if even f then f else f + 1)"

text \<open>
  The exponent \<open>e\<close> of a positive number \<open>x\<close> in base \<open>b\<close>, with \<open>b^e \<le> x < b^(e+1)\<close>, found
  by counting up from 0 when \<open>x \<ge> 1\<close> and down from 0 otherwise; the search downwards stops
  at \<open>emin\<close>, below which the exponent is not needed.
\<close>

function exponent_up :: "int \<Rightarrow> real \<Rightarrow> int \<Rightarrow> int" where
  "exponent_up b x e =
     (if 2 \<le> b \<and> 0 \<le> e \<and> of_int b powi (e + 1) \<le> x then exponent_up b x (e + 1) else e)"
  by pat_completeness auto

termination exponent_up
proof (relation "measure (\<lambda>(b, x, e). nat (\<lceil>x\<rceil> - e))")
  show "wf (measure (\<lambda>(b, x, e). nat (\<lceil>x\<rceil> - e)))" by simp
next
  fix b :: int and x :: real and e :: int
  assume a: "2 \<le> b \<and> 0 \<le> e \<and> of_int b powi (e + 1) \<le> x"
  have "real (nat (e + 1)) < 2 ^ nat (e + 1)" by (rule of_nat_less_two_power)
  also have "(2::real) ^ nat (e + 1) \<le> of_int b ^ nat (e + 1)"
    using a by (intro power_mono) simp_all
  finally have "real_of_int (e + 1) < of_int b powi (e + 1)"
    using a by (simp add: power_int_def)
  then have "real_of_int (e + 1) < x" using a by linarith
  then have "e + 1 < \<lceil>x\<rceil>" by (simp add: less_ceiling_iff)
  then show "((b, x, e + 1), (b, x, e)) \<in> measure (\<lambda>(b, x, e). nat (\<lceil>x\<rceil> - e))" by simp
qed

function exponent_down :: "int \<Rightarrow> int \<Rightarrow> real \<Rightarrow> int \<Rightarrow> int" where
  "exponent_down b emin x e =
     (if emin < e \<and> x < of_int b powi e then exponent_down b emin x (e - 1) else e)"
  by pat_completeness auto

termination exponent_down
  by (relation "measure (\<lambda>(b, emin, x, e). nat (e - emin))") simp_all

declare exponent_up.simps [simp del] exponent_down.simps [simp del]

definition floor_exponent :: "int \<Rightarrow> int \<Rightarrow> real \<Rightarrow> int" where
  "floor_exponent b emin x = (if 1 \<le> x then exponent_up b x 0 else exponent_down b emin x 0)"

text \<open>
  Rounding of \<open>x\<close> to \<open>p\<close> significant digits in base \<open>b\<close>: to a multiple of \<open>b^q\<close>, where
  \<open>q\<close> is the exponent of the last of the \<open>p\<close> digits of \<open>x\<close>, and not below \<open>qmin\<close>, the
  exponent of the smallest subnormal number.
\<close>

definition round_sig :: "int \<Rightarrow> int \<Rightarrow> int \<Rightarrow> real \<Rightarrow> real" where
  "round_sig b p qmin x =
     (if x = 0 then 0
      else
        (let e = floor_exponent b qmin \<bar>x\<bar>;
             q = max (e - (p - 1)) qmin
         in sgn x * of_int (round_half_even (\<bar>x\<bar> / of_int b powi q)) * of_int b powi q))"

text \<open>
  A double has 53 binary digits and the smallest subnormal double is \<open>2^-1074\<close>. An
  operation whose rounded result reaches \<open>2^1024\<close> overflows to an infinity.
\<close>

definition round_double :: "real \<Rightarrow> real" where
  "round_double x = round_sig 2 53 (- 1074) x"

definition double_limit :: real where
  "double_limit = 2 ^ 1024"

definition fl_round :: "real \<Rightarrow> pyfloat" where
  "fl_round x =
     (let r = round_double x
      in if double_limit \<le> r then PInf else if r \<le> - double_limit then NInf else Fl r)"

fun fl_neg :: "pyfloat \<Rightarrow> pyfloat" where
  "fl_neg (Fl x) = Fl (- x)"
| "fl_neg PInf = NInf"
| "fl_neg NInf = PInf"
| "fl_neg NaN = NaN"

fun fl_add :: "pyfloat \<Rightarrow> pyfloat \<Rightarrow> pyfloat" where
  "fl_add (Fl x) (Fl y) = fl_round (x + y)"
| "fl_add NaN b = NaN"
| "fl_add a NaN = NaN"
| "fl_add PInf NInf = NaN"
| "fl_add NInf PInf = NaN"
| "fl_add PInf b = PInf"
| "fl_add NInf b = NInf"
| "fl_add a PInf = PInf"
| "fl_add a NInf = NInf"

definition fl_sub :: "pyfloat \<Rightarrow> pyfloat \<Rightarrow> pyfloat" where
  "fl_sub a b = fl_add a (fl_neg b)"

text \<open>The sign of an infinite product; a zero times an infinity is NaN.\<close>

definition signed_inf :: "real \<Rightarrow> pyfloat" where
  "signed_inf s = (if s = 0 then NaN else if 0 < s then PInf else NInf)"

fun fl_mul :: "pyfloat \<Rightarrow> pyfloat \<Rightarrow> pyfloat" where
  "fl_mul (Fl x) (Fl y) = fl_round (x * y)"
| "fl_mul NaN b = NaN"
| "fl_mul a NaN = NaN"
| "fl_mul (Fl x) PInf = signed_inf x"
| "fl_mul (Fl x) NInf = signed_inf (- x)"
| "fl_mul PInf (Fl y) = signed_inf y"
| "fl_mul NInf (Fl y) = signed_inf (- y)"
| "fl_mul PInf PInf = PInf"
| "fl_mul PInf NInf = NInf"
| "fl_mul NInf PInf = NInf"
| "fl_mul NInf NInf = PInf"

text \<open>\<^verbatim>\<open>a > b\<close> on floats: false as soon as one side is NaN.\<close>

fun fl_greater :: "pyfloat \<Rightarrow> pyfloat \<Rightarrow> bool" where
  "fl_greater (Fl x) (Fl y) = (x > y)"
| "fl_greater NaN b = False"
| "fl_greater a NaN = False"
| "fl_greater PInf b = (b \<noteq> PInf)"
| "fl_greater NInf b = False"
| "fl_greater (Fl x) PInf = False"
| "fl_greater (Fl x) NInf = True"

text \<open>
  The conversion of an \<^verbatim>\<open>int\<close> operand of a float operation: the nearest double, and
  \<^verbatim>\<open>OverflowError\<close> when the int is too large for a double. \<^verbatim>\<open>int(x)\<close> on a float
  truncates, and raises on an infinity and on NaN.
\<close>

definition float_of_int :: "int \<Rightarrow> error + pyfloat" where
  "float_of_int i =
     (case fl_round (of_int i) of Fl r \<Rightarrow> Inr (Fl r) | _ \<Rightarrow> Inl OverflowError)"

fun int_of_float :: "pyfloat \<Rightarrow> error + int" where
  "int_of_float (Fl x) = Inr (py_int x)"
| "int_of_float NaN = Inl (ValueError ''cannot convert float NaN to integer'')"
| "int_of_float a = Inl OverflowError"

text \<open>
  The default \<^verbatim>\<open>decimal\<close> context: 28 significant digits, exponents up to \<open>999999\<close> (a
  result of \<open>10^1000000\<close> or more signals \<^verbatim>\<open>Overflow\<close>, which is trapped), subnormal
  results down to \<open>10^-1000026\<close>.
\<close>

definition decimal_round :: "real \<Rightarrow> real" where
  "decimal_round x = round_sig 10 28 (- 1000026) x"

definition decimal_limit :: real where
  "decimal_limit = 10 powi 1000000"

definition decimal_op :: "real \<Rightarrow> error + real" where
  "decimal_op x =
     (let r = decimal_round x
      in if decimal_limit \<le> \<bar>r\<bar> then Inl DecimalOverflow else Inr r)"

section \<open>Pricing (core/pricing.py, core/token\_counter.py)\<close>

record TokenUsage =
  usage_prompt_tokens :: int
  usage_completion_tokens :: int

record ModelPricing =
  prompt_cost_per_1k :: real
  completion_cost_per_1k :: real

text \<open>\<^verbatim>\<open>PricingTable.prices\<close> is a dict; the table is fixed.\<close>

definition PRICING_TABLE :: "(string \<times> ModelPricing) list" where
  "PRICING_TABLE =
     [(''gpt-4'', \<lparr>prompt_cost_per_1k = 30, completion_cost_per_1k = 60\<rparr>),
      (''gpt-3.5-turbo'', \<lparr>prompt_cost_per_1k = 3 / 2, completion_cost_per_1k = 2\<rparr>),
      (''claude-3-opus'', \<lparr>prompt_cost_per_1k = 15, completion_cost_per_1k = 75\<rparr>)]"

definition get_pricing :: "(string \<times> ModelPricing) list \<Rightarrow> string \<Rightarrow> error + ModelPricing" where
  "get_pricing prices m =
     (case map_of prices m of
        None \<Rightarrow> Inl (ValueError (''Unsupported model: '' @ m))
      | Some p \<Rightarrow> Inr p)"

text \<open>
  \<^verbatim>\<open>quantize(Decimal("0.01"), rounding=ROUND_UP)\<close>: the \<^verbatim>\<open>decimal\<close> module's
  \<^verbatim>\<open>ROUND_UP\<close> rounds away from zero. A result that needs more than the 28 digits of
  the context, that is \<open>10^26\<close> or more with its two decimals, raises
  \<^verbatim>\<open>InvalidOperation\<close>.
\<close>

definition quantize_ROUND_UP :: "real \<Rightarrow> error + real" where
  "quantize_ROUND_UP x =
     (let r = (if 0 \<le> x then of_int \<lceil>x * 100\<rceil> / 100 else of_int \<lfloor>x * 100\<rfloor> / 100)
      in if 10 ^ 26 \<le> \<bar>r\<bar> then Inl DecimalInvalidOperation else Inr r)"

text \<open>
  \<^verbatim>\<open>Decimal(usage.prompt_tokens)\<close> is exact; the division, the multiplication and the
  addition each round to the context. The value returned is \<^verbatim>\<open>float(rounded_cost)\<close>, the
  double nearest to the decimal (which is below \<open>10^26\<close>, so the conversion is finite).
\<close>

definition calculate_cost :: "string \<Rightarrow> TokenUsage \<Rightarrow> error + real" where
  "calculate_cost m usage =
     (case get_pricing PRICING_TABLE m of
        Inl e \<Rightarrow> Inl e
      | Inr pricing \<Rightarrow>
          bind_result (decimal_op (of_int (usage_prompt_tokens usage) / 1000)) (\<lambda>prompt_thousands.
          bind_result (decimal_op (prompt_thousands * prompt_cost_per_1k pricing)) (\<lambda>prompt_cost.
          bind_result (decimal_op (of_int (usage_completion_tokens usage) / 1000)) (\<lambda>completion_thousands.
          bind_result (decimal_op (completion_thousands * completion_cost_per_1k pricing)) (\<lambda>completion_cost.
          bind_result (decimal_op (prompt_cost + completion_cost)) (\<lambda>total_cost.
          bind_result (quantize_ROUND_UP total_cost) (\<lambda>rounded_cost.
            Inr (round_double rounded_cost))))))))"

text \<open>The cost before rounding, in the words of the formula.\<close>

definition exact_cost :: "ModelPricing \<Rightarrow> TokenUsage \<Rightarrow> real" where
  "exact_cost p usage =
     of_int (usage_prompt_tokens usage) / 1000 * prompt_cost_per_1k p
     + of_int (usage_completion_tokens usage) / 1000 * completion_cost_per_1k p"

section \<open>Baseline engine (core/baseline.py)\<close>

record BaselineMetrics =
  median_cost :: real
  p90_cost :: real
  median_tokens :: int
  sample_count :: int

text \<open>The dataclass constructor with its \<^verbatim>\<open>__post_init__\<close> checks.\<close>

definition make_BaselineMetrics :: "real \<Rightarrow> real \<Rightarrow> int \<Rightarrow> int \<Rightarrow> error + BaselineMetrics" where
  "make_BaselineMetrics mc p90 mt sc =
     (if mc < 0 then Inl (ValueError ''median_cost cannot be negative'')
      else if p90 < 0 then Inl (ValueError ''p90_cost cannot be negative'')
      else if mt < 0 then Inl (ValueError ''median_tokens cannot be negative'')
      else if sc < 0 then Inl (ValueError ''sample_count cannot be negative'')
      else Inr \<lparr>median_cost = mc, p90_cost = p90, median_tokens = mt, sample_count = sc\<rparr>)"

text \<open>
  \<^verbatim>\<open>metrics\<close> is an option: the simulation harness and the tests build results with
  \<^verbatim>\<open>metrics=None\<close>.
\<close>

record BaselineResult =
  metrics :: "BaselineMetrics option"
  state :: BaselineState
  window_start :: datetime
  window_end :: datetime

definition make_BaselineResult ::
  "BaselineMetrics option \<Rightarrow> BaselineState \<Rightarrow> datetime \<Rightarrow> datetime \<Rightarrow> error + BaselineResult" where
  "make_BaselineResult m s ws we =
     (if ws > we then Inl (ValueError ''window_start must be before window_end'')
      else Inr \<lparr>metrics = m, state = s, window_start = ws, window_end = we\<rparr>)"

text \<open>
  \<^verbatim>\<open>_compute_exact_percentile\<close> on a list of floats, operation by operation:
  \<^verbatim>\<open>percentile / 100.0\<close> rounds, the product with \<^verbatim>\<open>n - 1\<close> rounds, \<^verbatim>\<open>int(position)\<close>
  truncates, and the subtraction, the product and the sum of the interpolation each round.
\<close>

definition compute_exact_percentile :: "real list \<Rightarrow> int \<Rightarrow> error + pyfloat" where
  "compute_exact_percentile values percentile =
     (if values = [] then Inl (ValueError ''Values list cannot be empty'')
      else if percentile < 0 \<or> percentile > 100
        then Inl (ValueError ''Percentile must be between 0 and 100'')
      else
        (let sorted_values = sort values;
             n = int (length sorted_values)
         in bind_result (float_of_int (n - 1)) (\<lambda>n_minus_1.
            (let position = fl_mul (fl_round (real_of_int percentile / 100)) n_minus_1
             in bind_result (int_of_float position) (\<lambda>lower_index.
                (let upper_index = min (lower_index + 1) (n - 1)
                 in bind_result (float_of_int lower_index) (\<lambda>lower_index_float.
                    (let fraction = fl_sub position lower_index_float
                     in bind_result (py_index sorted_values lower_index) (\<lambda>lower_value.
                        bind_result (py_index sorted_values upper_index) (\<lambda>upper_value.
                          Inr (fl_add (Fl lower_value)
                                 (fl_mul fraction
                                    (fl_sub (Fl upper_value) (Fl lower_value))))))))))))))"

text \<open>
  The same helper with the arithmetic of the real numbers, that is without any rounding.
  \<open>compute_baseline\<close> below takes its three percentiles with it.
\<close>

definition percentile_over_reals :: "real list \<Rightarrow> int \<Rightarrow> error + real" where
  "percentile_over_reals values percentile =
     (if values = [] then Inl (ValueError ''Values list cannot be empty'')
      else if percentile < 0 \<or> percentile > 100
        then Inl (ValueError ''Percentile must be between 0 and 100'')
      else
        (let sorted_values = sort values;
             n = int (length sorted_values);
             position = (real_of_int percentile / 100) * real_of_int (n - 1);
             lower_index = py_int position;
             upper_index = min (lower_index + 1) (n - 1);
             fraction = position - real_of_int lower_index
         in case py_index sorted_values lower_index of
              Inl e \<Rightarrow> Inl e
            | Inr lower_value \<Rightarrow>
                (case py_index sorted_values upper_index of
                   Inl e \<Rightarrow> Inl e
                 | Inr upper_value \<Rightarrow>
                     Inr (lower_value + fraction * (upper_value - lower_value)))))"


text \<open>
  \<^verbatim>\<open>sorted(events, key=lambda e: e.timestamp, reverse=True)\<close>: Python's sort is stable and
  with \<^verbatim>\<open>reverse=True\<close> still keeps events of equal timestamp in their input order
  (it sorts the reversed list and reverses the result).
\<close>

definition sort_newest_first :: "LLMUsageEvent list \<Rightarrow> LLMUsageEvent list" where
  "sort_newest_first events = rev (sort_key timestamp (rev events))"

text \<open>The loop \<^verbatim>\<open>for i, event in enumerate(events)\<close> that checks every cost.\<close>

fun validate_costs :: "LLMUsageEvent list \<Rightarrow> nat \<Rightarrow> error + unit" where
  "validate_costs [] i = Inr ()"
| "validate_costs (event # rest) i =
     (if estimated_cost event = None
      then Inl (ValueError (''Event at index '' @ str_of_nat i @ '' missing estimated_cost''))
      else validate_costs rest (i + 1))"

definition timedelta_days :: "int \<Rightarrow> int" where
  "timedelta_days d = d * 86400000000"

text \<open>
  The window loop, with \<^verbatim>\<open>filtered_events\<close> as accumulator: it breaks at the first event
  older than the cutoff, and after the append that brings the sample to 200.
\<close>

fun filter_window :: "datetime \<Rightarrow> LLMUsageEvent list \<Rightarrow> LLMUsageEvent list \<Rightarrow> LLMUsageEvent list" where
  "filter_window seven_days_ago [] filtered_events = filtered_events"
| "filter_window seven_days_ago (event # rest) filtered_events =
     (if timestamp event < seven_days_ago then filtered_events
      else
        (let filtered_events' = filtered_events @ [event]
         in if length filtered_events' \<ge> 200 then filtered_events'
            else filter_window seven_days_ago rest filtered_events'))"

text \<open>
  Arithmetic and \<^verbatim>\<open>sorted\<close> on a list that holds \<^verbatim>\<open>None\<close> raise \<^verbatim>\<open>TypeError\<close>;
  \<open>numeric_values\<close> gives the numbers of a list without \<^verbatim>\<open>None\<close>.
\<close>

fun numeric_values :: "'a option list \<Rightarrow> error + 'a list" where
  "numeric_values [] = Inr []"
| "numeric_values (None # xs) = Inl TypeError"
| "numeric_values (Some v # xs) =
     (case numeric_values xs of Inl e \<Rightarrow> Inl e | Inr vs \<Rightarrow> Inr (v # vs))"

definition compute_baseline :: "datetime \<Rightarrow> LLMUsageEvent list \<Rightarrow> error + BaselineResult" where
  "compute_baseline now events =
     (if events = [] then Inl (ValueError ''Events list cannot be empty'')
      else
        bind_result (validate_costs events 0) (\<lambda>_.
          (let sorted_events = sort_newest_first events;
               seven_days_ago = now - timedelta_days 7;
               filtered_events = filter_window seven_days_ago sorted_events []
           in if filtered_events = [] then Inl (ValueError ''No events found within 7-day window'')
              else
                (let st = (if length filtered_events \<ge> 20 then WARM else COLD)
                 in bind_result (numeric_values (map estimated_cost filtered_events)) (\<lambda>costs.
                    bind_result (percentile_over_reals costs 50) (\<lambda>median_cost.
                    bind_result (percentile_over_reals costs 90) (\<lambda>p90_cost.
                    bind_result (numeric_values (map total_tokens filtered_events)) (\<lambda>tokens.
                    bind_result (percentile_over_reals (map real_of_int tokens) 50) (\<lambda>median_tokens.
                      (let window_end = timestamp (hd filtered_events);
                           window_start = timestamp (last filtered_events)
                       in bind_result
                            (make_BaselineMetrics median_cost p90_cost (py_int median_tokens)
                               (int (length filtered_events)))
                            (\<lambda>metrics.
                               make_BaselineResult (Some metrics) st window_start window_end)))))))))))"

text \<open>
  The filtered sample in the words of the specification: newest first, up to the first
  event older than seven days, and at most 200 events.
\<close>

definition window_sample :: "datetime \<Rightarrow> LLMUsageEvent list \<Rightarrow> LLMUsageEvent list" where
  "window_sample now events =
     take 200 (takeWhile (\<lambda>e. \<not> timestamp e < now - timedelta_days 7) (sort_newest_first events))"

text \<open>
  Linear interpolation in a list at a 0-indexed real position, and the position
  \<open>(p/100) \<times> (n - 1)\<close> of the percentile, in the words of the specification.
\<close>

definition interpolate_at :: "real list \<Rightarrow> real \<Rightarrow> real" where
  "interpolate_at s pos =
     (let k = nat \<lfloor>pos\<rfloor>
      in s ! k + (pos - real k) * (s ! (min (k + 1) (length s - 1)) - s ! k))"

definition percentile_position :: "nat \<Rightarrow> int \<Rightarrow> real" where
  "percentile_position n p = (real_of_int p / 100) * (real n - 1)"

section \<open>Anomaly detector (core/anomaly.py)\<close>

text \<open>
  \<open>observed_value\<close> and \<open>threshold\<close> hold results of float arithmetic; an \<^verbatim>\<open>int\<close> put
  into one of these fields (rule B) is kept as the number it is.
\<close>

record AnomalyEvent =
  a_feature :: string
  a_model :: string
  a_rule :: string
  severity :: AnomalySeverity
  observed_value :: pyfloat
  baseline_value :: real
  threshold :: pyfloat
  a_message :: anomaly_message

text \<open>
  The literals \<^verbatim>\<open>1.7\<close> and \<^verbatim>\<open>1.3\<close> are the doubles nearest to these decimals;
  \<^verbatim>\<open>1.5\<close> is a double.
\<close>

definition literal_1_7 :: real where
  "literal_1_7 = round_double (17 / 10)"

definition literal_1_3 :: real where
  "literal_1_3 = round_double (13 / 10)"

text \<open>
  The fields of \<^verbatim>\<open>BaselineMetrics\<close> are numbers once the object exists (its constructor
  compares each with 0), so the guards \<^verbatim>\<open>p90_cost is not None\<close> and
  \<^verbatim>\<open>median_tokens is not None\<close> hold whenever they are reached. A \<^verbatim>\<open>WARM\<close> baseline
  without metrics raises \<^verbatim>\<open>AttributeError\<close> at \<^verbatim>\<open>baseline.metrics.p90_cost\<close>.

  Each threshold is a float product. In \<^verbatim>\<open>median_tokens * 1.7\<close> and in
  \<^verbatim>\<open>estimated_cost * retry_count\<close> the \<^verbatim>\<open>int\<close> operand is converted to a float first.
  The comparison \<^verbatim>\<open>total_tokens > threshold\<close> of an \<^verbatim>\<open>int\<close> with a float compares the
  two numbers exactly.
\<close>

definition detect_anomalies ::
  "string \<Rightarrow> string \<Rightarrow> BaselineResult \<Rightarrow> LLMUsageEvent \<Rightarrow> error + AnomalyEvent list" where
  "detect_anomalies feat mdl baseline current_event =
     (if state baseline = COLD then Inr []
      else case estimated_cost current_event of
        None \<Rightarrow> Inl (ValueError ''Current event missing estimated_cost'')
      | Some cost \<Rightarrow>
     (case total_tokens current_event of
        None \<Rightarrow> Inl (ValueError ''Current event missing total_tokens'')
      | Some tokens \<Rightarrow>
     (case retry_count current_event of
        None \<Rightarrow> Inl (ValueError ''Current event missing retry_count'')
      | Some retries \<Rightarrow>
     (case metrics baseline of
        None \<Rightarrow> Inl AttributeError
      | Some m \<Rightarrow>
          (let anomalies0 = [];
               threshold_a = fl_mul (Fl (p90_cost m)) (Fl (3 / 2));
               anomalies1 =
                 (if fl_greater (Fl cost) threshold_a
                  then anomalies0 @
                    [\<lparr>a_feature = feat, a_model = mdl, a_rule = ''A'', severity = CRITICAL,
                      observed_value = Fl cost, baseline_value = p90_cost m,
                      threshold = threshold_a,
                      a_message = CostSpikeMsg cost (p90_cost m) threshold_a\<rparr>]
                  else anomalies0)
           in bind_result (float_of_int (median_tokens m)) (\<lambda>median_tokens_float.
             (let threshold_b = fl_mul median_tokens_float (Fl literal_1_7);
                  anomalies2 =
                    (if fl_greater (Fl (real_of_int tokens)) threshold_b
                     then anomalies1 @
                       [\<lparr>a_feature = feat, a_model = mdl, a_rule = ''B'', severity = WARNING,
                         observed_value = Fl (real_of_int tokens),
                         baseline_value = real_of_int (median_tokens m),
                         threshold = threshold_b,
                         a_message = HighTokenUsageMsg tokens (median_tokens m) threshold_b\<rparr>]
                     else anomalies1)
              in if retries > 1
                 then
                   (let threshold_c = fl_mul (Fl (p90_cost m)) (Fl literal_1_3)
                    in bind_result (float_of_int retries) (\<lambda>retries_float.
                      (let total_cost = fl_mul (Fl cost) retries_float
                       in if fl_greater total_cost threshold_c
                          then Inr (anomalies2 @
                            [\<lparr>a_feature = feat, a_model = mdl, a_rule = ''C'', severity = WARNING,
                              observed_value = total_cost, baseline_value = p90_cost m,
                              threshold = threshold_c,
                              a_message =
                                RetryAmplificationMsg total_cost cost retries threshold_c
                                  (p90_cost m)\<rparr>])
                          else Inr anomalies2)))
                 else Inr anomalies2)))))))"

section \<open>Guardrail enforcer (core/guardrails.py)\<close>

text \<open>
  \<^verbatim>\<open>amount_remaining\<close> is a float that the simulation harness sets to \<^verbatim>\<open>float('inf')\<close>,
  so this one field is a real number or positive infinity.
\<close>

datatype amount = Finite real | PosInf

fun amount_le_zero :: "amount \<Rightarrow> bool" where
  "amount_le_zero (Finite x) = (x \<le> 0)"
| "amount_le_zero PosInf = False"

record BudgetState =
  amount_used :: real
  amount_remaining :: amount
  budget_period_days :: int

record GuardrailConfig =
  max_cost_per_request :: "real option"
  budget_limit :: "real option"
  on_budget_breach :: EnforcementAction
  on_critical_anomaly :: EnforcementAction
  on_warning_anomaly :: EnforcementAction

text \<open>The defaults of the dataclass.\<close>

definition default_GuardrailConfig :: GuardrailConfig where
  "default_GuardrailConfig =
     \<lparr>max_cost_per_request = None, budget_limit = None, on_budget_breach = BLOCK,
      on_critical_anomaly = BLOCK, on_warning_anomaly = WARN\<rparr>"

text \<open>
  The closure \<^verbatim>\<open>_update_action\<close> writes the two \<^verbatim>\<open>nonlocal\<close> variables
  \<^verbatim>\<open>action_taken\<close> and \<^verbatim>\<open>message\<close>; here they are a pair passed through.
\<close>

definition update_action ::
  "EnforcementAction \<times> guardrail_message \<Rightarrow> EnforcementAction \<Rightarrow> guardrail_message
   \<Rightarrow> EnforcementAction \<times> guardrail_message" where
  "update_action st new_action new_message =
     (if action_value new_action > action_value (fst st) then (new_action, new_message) else st)"

text \<open>
  Check 1. \<^verbatim>\<open>None > limit\<close> raises \<^verbatim>\<open>TypeError\<close>; the comparison is reached only when
  the limit is set.
\<close>

definition check_max_cost ::
  "string \<Rightarrow> string \<Rightarrow> GuardrailConfig \<Rightarrow> LLMUsageEvent
   \<Rightarrow> EnforcementAction \<times> guardrail_message \<Rightarrow> error + EnforcementAction \<times> guardrail_message" where
  "check_max_cost feat mdl config current_event st =
     (case max_cost_per_request config of
        None \<Rightarrow> Inr st
      | Some limit \<Rightarrow>
          (case estimated_cost current_event of
             None \<Rightarrow> Inl TypeError
           | Some cost \<Rightarrow>
               if cost > limit
               then Inr (update_action st BLOCK (RequestCostMsg cost limit feat mdl))
               else Inr st))"

text \<open>Check 2.\<close>

definition check_budget ::
  "string \<Rightarrow> GuardrailConfig \<Rightarrow> BudgetState
   \<Rightarrow> EnforcementAction \<times> guardrail_message \<Rightarrow> EnforcementAction \<times> guardrail_message" where
  "check_budget feat config budget_state st =
     (case budget_limit config of
        None \<Rightarrow> st
      | Some limit \<Rightarrow>
          if amount_le_zero (amount_remaining budget_state)
          then update_action st (on_budget_breach config)
                 (BudgetLimitMsg limit (amount_used budget_state) feat)
          else st)"

text \<open>Check 3, the loop over the anomalies.\<close>

fun check_anomalies ::
  "string \<Rightarrow> string \<Rightarrow> GuardrailConfig \<Rightarrow> AnomalyEvent list
   \<Rightarrow> EnforcementAction \<times> guardrail_message \<Rightarrow> EnforcementAction \<times> guardrail_message" where
  "check_anomalies feat mdl config [] st = st"
| "check_anomalies feat mdl config (anomaly # rest) st =
     check_anomalies feat mdl config rest
       (if severity anomaly = CRITICAL
        then update_action st (on_critical_anomaly config)
               (CriticalAnomalyMsg feat mdl (a_message anomaly))
        else if severity anomaly = WARNING
        then update_action st (on_warning_anomaly config)
               (WarningAnomalyMsg feat mdl (a_message anomaly))
        else st)"

text \<open>
  Lines 87 to 126 of \<^verbatim>\<open>enforce_guardrails\<close>: the three checks, giving the final
  \<^verbatim>\<open>(action_taken, message)\<close>.
\<close>

definition resolve_action ::
  "string \<Rightarrow> string \<Rightarrow> GuardrailConfig \<Rightarrow> BaselineResult \<Rightarrow> LLMUsageEvent
   \<Rightarrow> AnomalyEvent list \<Rightarrow> BudgetState \<Rightarrow> error + EnforcementAction \<times> guardrail_message" where
  "resolve_action feat mdl config baseline current_event anomalies budget_state =
     bind_result (check_max_cost feat mdl config current_event (ALLOW, EmptyMsg)) (\<lambda>st1.
       (let st2 = check_budget feat config budget_state st1;
            st3 = (if state baseline = WARM
                   then check_anomalies feat mdl config anomalies st2 else st2)
        in Inr st3))"

definition enforce_guardrails ::
  "string \<Rightarrow> string \<Rightarrow> GuardrailConfig \<Rightarrow> BaselineResult \<Rightarrow> LLMUsageEvent
   \<Rightarrow> AnomalyEvent list \<Rightarrow> BudgetState \<Rightarrow> error + EnforcementAction" where
  "enforce_guardrails feat mdl config baseline current_event anomalies budget_state =
     bind_result (resolve_action feat mdl config baseline current_event anomalies budget_state)
       (\<lambda>(action_taken, message).
          if action_taken = BLOCK \<or> action_taken = THROTTLE
          then Inl (GuardrailViolation message action_taken)
          else Inr action_taken)"

text \<open>
  The candidate actions in the words of the specification: the ceiling check gives
  \<open>BLOCK\<close>, the budget check the configured breach action, and under a \<open>WARM\<close> baseline
  every anomaly the action configured for its severity.
\<close>

definition ceiling_exceeded :: "GuardrailConfig \<Rightarrow> LLMUsageEvent \<Rightarrow> bool" where
  "ceiling_exceeded config current_event =
     (case (max_cost_per_request config, estimated_cost current_event) of
        (Some limit, Some cost) \<Rightarrow> cost > limit
      | _ \<Rightarrow> False)"

definition anomaly_action :: "GuardrailConfig \<Rightarrow> AnomalyEvent \<Rightarrow> EnforcementAction" where
  "anomaly_action config anomaly =
     (case severity anomaly of
        CRITICAL \<Rightarrow> on_critical_anomaly config
      | WARNING \<Rightarrow> on_warning_anomaly config)"

definition candidate_actions ::
  "GuardrailConfig \<Rightarrow> BaselineResult \<Rightarrow> LLMUsageEvent \<Rightarrow> AnomalyEvent list \<Rightarrow> BudgetState
   \<Rightarrow> EnforcementAction list" where
  "candidate_actions config baseline current_event anomalies budget_state =
     (if ceiling_exceeded config current_event then [BLOCK] else [])
     @ (if budget_limit config \<noteq> None \<and> amount_le_zero (amount_remaining budget_state)
        then [on_budget_breach config] else [])
     @ (if state baseline = WARM then map (anomaly_action config) anomalies else [])"

section \<open>Event store (storage/repository.py)\<close>

text \<open>
  The table \<^verbatim>\<open>llm_usage_event\<close> is the list of its rows in insertion order (the order of
  the \<^verbatim>\<open>AUTOINCREMENT\<close> key), or absent. Timestamps are stored as ISO text, whose
  order is the order of the datetimes. \<^verbatim>\<open>ORDER BY timestamp DESC\<close> is a sort, newest
  first; SQL does not fix the order of rows with equal timestamps, and the model keeps them
  in insertion order.
\<close>

datatype store = NoTable | Table "LLMUsageEvent list"

text \<open>\<^verbatim>\<open>if feature:\<close> holds for a string that is neither \<^verbatim>\<open>None\<close> nor empty.\<close>

fun truthy :: "string option \<Rightarrow> bool" where
  "truthy None = False"
| "truthy (Some s) = (s \<noteq> [])"

definition order_by_timestamp_desc :: "LLMUsageEvent list \<Rightarrow> LLMUsageEvent list" where
  "order_by_timestamp_desc rows = rev (sort_key timestamp (rev rows))"

text \<open>
  The query collects its \<^verbatim>\<open>WHERE\<close> conditions in a list and joins them with
  \<^verbatim>\<open>AND\<close>; a row is selected when it meets every condition of the list.
\<close>

definition get_recent_events ::
  "datetime \<Rightarrow> store \<Rightarrow> string option \<Rightarrow> string option \<Rightarrow> int option \<Rightarrow> nat
   \<Rightarrow> error + LLMUsageEvent list" where
  "get_recent_events now db feat mdl days limit =
     (case db of
        NoTable \<Rightarrow> Inl (OperationalError NoSuchTable)
      | Table rows \<Rightarrow>
          (let conditions =
                 (if truthy feat then [\<lambda>row. Some (feature row) = feat] else [])
                 @ (if truthy mdl then [\<lambda>row. Some (model row) = mdl] else [])
                 @ (case days of
                      None \<Rightarrow> []
                    | Some d \<Rightarrow> [\<lambda>row. timestamp row \<ge> now - timedelta_days d]);
               matching = filter (\<lambda>row. list_all (\<lambda>condition. condition row) conditions) rows
           in Inr (take limit (order_by_timestamp_desc matching))))"

section \<open>Simulation harness (core/simulation.py)\<close>

datatype SimulationVerdict = VerdictPASS | VerdictWARN | VerdictFAIL

record FeatureSimulationResult =
  r_feature :: string
  r_model :: string
  estimated_monthly_cost :: real
  anomalies :: "AnomalyEvent list"
  violations :: "(EnforcementAction \<times> guardrail_message) list"

record SimulationResult =
  per_feature_results :: "FeatureSimulationResult list"
  overall_verdict :: SimulationVerdict
  estimated_monthly_impact :: real

text \<open>
  \<^verbatim>\<open>events_by_feature.setdefault(key, []).append(event)\<close> on a dict, which keeps its keys
  in the order they were first inserted.
\<close>

fun setdefault_append :: "('k \<times> 'v list) list \<Rightarrow> 'k \<Rightarrow> 'v \<Rightarrow> ('k \<times> 'v list) list" where
  "setdefault_append [] k v = [(k, [v])]"
| "setdefault_append ((k', vs) # d) k v =
     (if k' = k then (k', vs @ [v]) # d else (k', vs) # setdefault_append d k v)"

fun group_events ::
  "LLMUsageEvent list \<Rightarrow> ((string \<times> string) \<times> LLMUsageEvent list) list
   \<Rightarrow> ((string \<times> string) \<times> LLMUsageEvent list) list" where
  "group_events [] events_by_feature = events_by_feature"
| "group_events (event # rest) events_by_feature =
     group_events rest (setdefault_append events_by_feature (feature event, model event) event)"

text \<open>
  \<^verbatim>\<open>int(len(costs) * 0.9)\<close> is \<open>9 * n div 10\<close>: the float \<open>0.9\<close> lies above \<open>9/10\<close> by less
  than \<open>10^-16\<close>, so the product truncates to that integer for every list length.
  With fewer than three events the result has no metrics; on an empty list the window
  bounds are \<^verbatim>\<open>None\<close> and their comparison raises \<^verbatim>\<open>TypeError\<close>.
\<close>

definition create_baseline_from_events :: "LLMUsageEvent list \<Rightarrow> error + BaselineResult" where
  "create_baseline_from_events events =
     (if length events < 3 then
        (if events = [] then Inl TypeError
         else make_BaselineResult None COLD
                (Min (set (map timestamp events))) (Max (set (map timestamp events))))
      else
        bind_result (numeric_values (map estimated_cost events)) (\<lambda>cs.
        bind_result (numeric_values (map total_tokens events)) (\<lambda>ts.
          (let costs = sort cs; tokens = sort ts
           in bind_result (py_index costs (int (length costs) div 2)) (\<lambda>mc.
              bind_result (py_index costs (9 * int (length costs) div 10)) (\<lambda>p90.
              bind_result (py_index tokens (int (length tokens) div 2)) (\<lambda>mt.
              bind_result (make_BaselineMetrics mc p90 mt (int (length events))) (\<lambda>m.
                make_BaselineResult (Some m) WARM
                  (Min (set (map timestamp events))) (Max (set (map timestamp events)))))))))))"

text \<open>The budget state \<^verbatim>\<open>_simulate_enforcement\<close> constructs for the dry run.\<close>

definition dry_run_budget :: BudgetState where
  "dry_run_budget = \<lparr>amount_used = 0, amount_remaining = PosInf, budget_period_days = 30\<rparr>"

text \<open>
  The \<^verbatim>\<open>except Exception as e\<close> branch reads \<^verbatim>\<open>e.action\<close>, which only a
  \<^verbatim>\<open>GuardrailViolation\<close> has: any other exception becomes an \<^verbatim>\<open>AttributeError\<close>.
\<close>

definition simulate_enforcement ::
  "string \<Rightarrow> string \<Rightarrow> GuardrailConfig \<Rightarrow> BaselineResult \<Rightarrow> LLMUsageEvent
   \<Rightarrow> AnomalyEvent list \<Rightarrow> error + (EnforcementAction \<times> guardrail_message) list" where
  "simulate_enforcement feat mdl config baseline current_event anoms =
     (let violations0 = [];
          budget_state = dry_run_budget
      in if state baseline = COLD then Inr violations0
         else
           (case enforce_guardrails feat mdl config baseline current_event anoms budget_state of
              Inr action \<Rightarrow>
                if action \<noteq> ALLOW then Inr (violations0 @ [(action, SimulatedMsg action)])
                else Inr violations0
            | Inl (GuardrailViolation msg action) \<Rightarrow> Inr (violations0 @ [(action, msg)])
            | Inl _ \<Rightarrow> Inl AttributeError))"

text \<open>
  The two nested loops of \<^verbatim>\<open>_determine_overall_verdict\<close> set the flags
  \<^verbatim>\<open>has_blocking\<close> and \<^verbatim>\<open>has_warnings\<close>; the flags are a pair passed through.
\<close>

fun verdict_flags ::
  "(EnforcementAction \<times> guardrail_message) list \<Rightarrow> bool \<times> bool \<Rightarrow> bool \<times> bool" where
  "verdict_flags [] flags = flags"
| "verdict_flags ((action, msg) # rest) (has_blocking, has_warnings) =
     verdict_flags rest
       (if action = BLOCK \<or> action = THROTTLE then (True, has_warnings)
        else if action = WARN then (has_blocking, True)
        else (has_blocking, has_warnings))"

fun results_flags :: "FeatureSimulationResult list \<Rightarrow> bool \<times> bool \<Rightarrow> bool \<times> bool" where
  "results_flags [] flags = flags"
| "results_flags (result # rest) flags = results_flags rest (verdict_flags (violations result) flags)"

definition determine_overall_verdict :: "FeatureSimulationResult list \<Rightarrow> SimulationVerdict" where
  "determine_overall_verdict results =
     (case results_flags results (False, False) of
        (has_blocking, has_warnings) \<Rightarrow>
          if has_blocking then VerdictFAIL
          else if has_warnings then VerdictWARN
          else VerdictPASS)"

text \<open>The representative event of a group, \<^verbatim>\<open>feature_events[-1]\<close>.\<close>

definition latest_event :: "LLMUsageEvent list \<Rightarrow> error + LLMUsageEvent" where
  "latest_event feature_events = py_index feature_events (- 1)"

text \<open>
  The body of the loop over the groups. The monthly estimate is taken with exact
  arithmetic.
\<close>

definition simulate_group ::
  "GuardrailConfig \<Rightarrow> (string \<times> string) \<times> LLMUsageEvent list \<Rightarrow> error + FeatureSimulationResult" where
  "simulate_group config grp =
     (case grp of ((feature_name, mdl), feature_events) \<Rightarrow>
        bind_result (latest_event feature_events) (\<lambda>latest.
        bind_result (create_baseline_from_events feature_events) (\<lambda>baseline.
        bind_result (if state baseline = WARM
                     then detect_anomalies feature_name mdl baseline latest
                     else Inr []) (\<lambda>anoms.
        bind_result (simulate_enforcement feature_name mdl config baseline latest anoms) (\<lambda>viols.
        bind_result (numeric_values (map estimated_cost feature_events)) (\<lambda>cs.
          (let daily_avg = sum_list cs / 30;
               estimated_monthly = daily_avg * 30
           in Inr \<lparr>r_feature = feature_name, r_model = mdl,
                   estimated_monthly_cost = estimated_monthly,
                   anomalies = anoms, violations = viols\<rparr>)))))))"

fun simulate_groups ::
  "GuardrailConfig \<Rightarrow> ((string \<times> string) \<times> LLMUsageEvent list) list
   \<Rightarrow> error + FeatureSimulationResult list" where
  "simulate_groups config [] = Inr []"
| "simulate_groups config (grp # rest) =
     bind_result (simulate_group config grp) (\<lambda>r.
     bind_result (simulate_groups config rest) (\<lambda>rs. Inr (r # rs)))"

definition empty_SimulationResult :: SimulationResult where
  "empty_SimulationResult =
     \<lparr>per_feature_results = [], overall_verdict = VerdictPASS, estimated_monthly_impact = 0\<rparr>"

definition simulate_cost_impact ::
  "datetime \<Rightarrow> string option \<Rightarrow> GuardrailConfig \<Rightarrow> store \<Rightarrow> error + SimulationResult" where
  "simulate_cost_impact now feat config repository =
     (case get_recent_events now repository feat None (Some 30) 1000 of
        Inl (OperationalError NoSuchTable) \<Rightarrow> Inr empty_SimulationResult
      | Inl e \<Rightarrow> Inl e
      | Inr events \<Rightarrow>
          if events = [] then Inr empty_SimulationResult
          else
            (let events_by_feature = group_events events []
             in bind_result (simulate_groups config events_by_feature) (\<lambda>results.
                  Inr \<lparr>per_feature_results = results,
                       overall_verdict = determine_overall_verdict results,
                       estimated_monthly_impact = sum_list (map estimated_monthly_cost results)\<rparr>)))"

text \<open>
  The events of one group among the rows of the table, in insertion order; the last of
  them is the most recently inserted.
\<close>

definition rows_of_group :: "LLMUsageEvent list \<Rightarrow> string \<times> string \<Rightarrow> LLMUsageEvent list" where
  "rows_of_group rows key = filter (\<lambda>row. (feature row, model row) = key) rows"


text \<open>
  A guardrail violation among the errors; and the rows the ledger can hold: the columns
  are \<^verbatim>\<open>NOT NULL\<close>, and costs and token counts are non-negative.
\<close>

fun is_violation :: "error \<Rightarrow> bool" where
  "is_violation (GuardrailViolation msg a) = True"
| "is_violation _ = False"

definition stored_row :: "LLMUsageEvent \<Rightarrow> bool" where
  "stored_row e =
     ((case estimated_cost e of None \<Rightarrow> False | Some c \<Rightarrow> 0 \<le> c)
      \<and> (case total_tokens e of None \<Rightarrow> False | Some t \<Rightarrow> 0 \<le> t)
      \<and> retry_count e \<noteq> None)"

fun valid_store :: "store \<Rightarrow> bool" where
  "valid_store NoTable = True"
| "valid_store (Table rows) = list_all stored_row rows"

section \<open>Example data\<close>

text \<open>51 costs, 29 of them 0 and 22 of them 1000.\<close>

definition two_level_costs :: "real list" where
  "two_level_costs = replicate 29 0 @ replicate 22 1000"

definition costs25 :: "real list" where
  "costs25 = [1,2,3,4,5,6,7,8,9,10,11,12,13,14,15,16,17,18,19,20,21,22,23,24,25]"

text \<open>A trusted baseline with \<open>p90_cost = 10\<close> and \<open>median_tokens = 1000\<close>, and a cold one.\<close>

definition warm_baseline :: BaselineResult where
  "warm_baseline =
     \<lparr>metrics = Some \<lparr>median_cost = 5, p90_cost = 10, median_tokens = 1000, sample_count = 25\<rparr>,
      state = WARM, window_start = 0, window_end = 1000\<rparr>"

text \<open>
  The doubles that Python writes \<^verbatim>\<open>0.1\<close> and \<^verbatim>\<open>0.15000000000000002\<close>, and a trusted
  baseline with the first as its \<open>p90_cost\<close>.
\<close>

definition double_0_1 :: real where
  "double_0_1 = 3602879701896397 / 2 ^ 55"

definition double_above_0_15 :: real where
  "double_above_0_15 = 5404319552844596 / 2 ^ 55"

definition dime_baseline :: BaselineResult where
  "dime_baseline =
     \<lparr>metrics = Some \<lparr>median_cost = double_0_1, p90_cost = double_0_1, median_tokens = 1000,
                       sample_count = 25\<rparr>,
      state = WARM, window_start = 0, window_end = 1000\<rparr>"

definition cold_baseline :: BaselineResult where
  "cold_baseline = \<lparr>metrics = None, state = COLD, window_start = 0, window_end = 1000\<rparr>"

definition usage_event :: "real \<Rightarrow> int \<Rightarrow> int \<Rightarrow> LLMUsageEvent" where
  "usage_event cost tokens retries =
     \<lparr>timestamp = 1000, feature = ''chat'', model = ''gpt-4'', prompt_tokens = tokens,
      completion_tokens = 0, total_tokens = Some tokens, estimated_cost = Some cost,
      retry_count = Some retries, request_id = None\<rparr>"

definition blank_event :: LLMUsageEvent where
  "blank_event =
     \<lparr>timestamp = 1000, feature = ''chat'', model = ''gpt-4'', prompt_tokens = 0,
      completion_tokens = 0, total_tokens = None, estimated_cost = None,
      retry_count = None, request_id = None\<rparr>"

text \<open>Anomalies, configurations and a budget state for the guardrail examples.\<close>

definition critical_anomaly :: AnomalyEvent where
  "critical_anomaly =
     \<lparr>a_feature = ''chat'', a_model = ''gpt-4'', a_rule = ''A'', severity = CRITICAL,
      observed_value = Fl 16, baseline_value = 10, threshold = Fl 15,
      a_message = CostSpikeMsg 16 10 (Fl 15)\<rparr>"

definition warning_anomaly :: AnomalyEvent where
  "warning_anomaly =
     \<lparr>a_feature = ''chat'', a_model = ''gpt-4'', a_rule = ''B'', severity = WARNING,
      observed_value = Fl 1800, baseline_value = 1000, threshold = Fl 1700,
      a_message = HighTokenUsageMsg 1800 1000 (Fl 1700)\<rparr>"

definition ceiling_config :: GuardrailConfig where
  "ceiling_config = default_GuardrailConfig\<lparr>max_cost_per_request := Some 1\<rparr>"

definition throttle_config :: GuardrailConfig where
  "throttle_config = default_GuardrailConfig\<lparr>on_critical_anomaly := THROTTLE\<rparr>"

definition downgrade_config :: GuardrailConfig where
  "downgrade_config = default_GuardrailConfig\<lparr>on_critical_anomaly := DOWNGRADE\<rparr>"

definition open_budget :: BudgetState where
  "open_budget = \<lparr>amount_used = 0, amount_remaining = Finite 100, budget_period_days = 30\<rparr>"


text \<open>Twenty events of one timestamp, enough for a \<open>WARM\<close> baseline.\<close>

definition twenty_events :: "LLMUsageEvent list" where
  "twenty_events = replicate 20 (usage_event 1 100 0)"

text \<open>
  201 events of one timestamp, 100 of cost 1 and 101 of cost 5, in two orders.
\<close>

definition cheap_event :: LLMUsageEvent where
  "cheap_event = usage_event 1 100 0"

definition dear_event :: LLMUsageEvent where
  "dear_event = usage_event 5 100 0"

definition cheap_first :: "LLMUsageEvent list" where
  "cheap_first = replicate 100 cheap_event @ replicate 101 dear_event"

definition dear_first :: "LLMUsageEvent list" where
  "dear_first = replicate 101 dear_event @ replicate 100 cheap_event"

text \<open>
  A ledger of three events of one feature and model, inserted in the order of their
  timestamps; the first costs 2, the later two cost 0.5. \<open>ledger_baseline_result\<close> is the
  baseline the harness builds from them.
\<close>

definition event_at :: "datetime \<Rightarrow> real \<Rightarrow> LLMUsageEvent" where
  "event_at t cost = (usage_event cost 100 0)\<lparr>timestamp := t\<rparr>"

definition ledger :: "LLMUsageEvent list" where
  "ledger = [event_at 1000 2, event_at 2000 (1 / 2), event_at 3000 (1 / 2)]"

definition ledger_baseline_result :: BaselineResult where
  "ledger_baseline_result =
     \<lparr>metrics = Some \<lparr>median_cost = 1 / 2, p90_cost = 2, median_tokens = 100, sample_count = 3\<rparr>,
      state = WARM, window_start = 1000, window_end = 3000\<rparr>"

section \<open>Rounding\<close>

lemma bind_result_Inr: "bind_result (Inr v) f = f v"
  by (simp add: bind_result_def)

lemma round_half_even_of_int: "round_half_even (of_int k) = k"
  by (simp add: round_half_even_def)

lemma round_half_even_error: "\<bar>real_of_int (round_half_even y) - y\<bar> \<le> 1 / 2"
proof -
  have "real_of_int \<lfloor>y\<rfloor> \<le> y" "y < real_of_int \<lfloor>y\<rfloor> + 1" by linarith+
  then show ?thesis by (auto simp add: round_half_even_def Let_def)
qed

lemma exponent_up_lower:
  "of_int b powi e \<le> x \<Longrightarrow> of_int b powi (exponent_up b x e) \<le> x"
proof (induction b x e rule: exponent_up.induct)
  case (1 b x e)
  show ?case
  proof (cases "2 \<le> b \<and> 0 \<le> e \<and> of_int b powi (e + 1) \<le> x")
    case True
    then have "of_int b powi (exponent_up b x (e + 1)) \<le> x" using 1 by simp
    then show ?thesis using True by (subst exponent_up.simps) simp
  next
    case False
    then show ?thesis using 1(2) by (subst exponent_up.simps) auto
  qed
qed

lemma exponent_down_lower:
  "exponent_down b emin x e \<le> emin \<or> of_int b powi (exponent_down b emin x e) \<le> x"
proof (induction b emin x e rule: exponent_down.induct)
  case (1 b emin x e)
  show ?case
  proof (cases "emin < e \<and> x < of_int b powi e")
    case True
    then show ?thesis using 1 by (subst (1 2) exponent_down.simps) simp
  next
    case False
    then show ?thesis by (subst (1 2) exponent_down.simps) auto
  qed
qed

lemma floor_exponent_lower:
  "floor_exponent b emin x \<le> emin \<or> of_int b powi (floor_exponent b emin x) \<le> x"
proof (cases "1 \<le> x")
  case True
  have "of_int b powi (exponent_up b x 0) \<le> x" using True by (intro exponent_up_lower) simp
  then show ?thesis using True by (simp add: floor_exponent_def)
next
  case False
  then show ?thesis using exponent_down_lower[of b emin x 0] by (simp add: floor_exponent_def)
qed

text \<open>A number with at most \<open>p\<close> digits in base \<open>b\<close> is not changed by the rounding.\<close>

lemma round_sig_representable:
  assumes b: "2 \<le> b" and p: "1 \<le> p" and q0: "qmin \<le> q0"
    and m: "\<bar>m\<bar> < b ^ nat p"
  shows "round_sig b p qmin (of_int m * of_int b powi q0) = of_int m * of_int b powi q0"
proof (cases "m = 0")
  case True
  then show ?thesis by (simp add: round_sig_def)
next
  case False
  define x where "x = real_of_int m * of_int b powi q0"
  define e where "e = floor_exponent b qmin \<bar>x\<bar>"
  define q where "q = max (e - (p - 1)) qmin"
  have b0: "real_of_int b \<noteq> 0" and b1: "1 < real_of_int b" and bp: "0 < real_of_int b"
    using b by simp_all
  have pw: "0 < real_of_int b powi k" for k using bp by (rule zero_less_power_int)
  have x0: "x \<noteq> 0" using False b0 by (simp add: x_def)
  have ax: "\<bar>x\<bar> = real_of_int \<bar>m\<bar> * of_int b powi q0"
    using pw[of q0] by (simp add: x_def abs_mult)
  have "real_of_int \<bar>m\<bar> < real_of_int (b ^ nat p)" using m by (simp only: of_int_less_iff)
  then have "real_of_int \<bar>m\<bar> < of_int b powi p" using p by (simp add: power_int_def)
  then have "\<bar>x\<bar> < of_int b powi p * of_int b powi q0"
    unfolding ax using pw[of q0] by (simp add: mult_strict_right_mono)
  then have ub: "\<bar>x\<bar> < of_int b powi (p + q0)" using b0 by (simp add: power_int_add)
  have qle: "q \<le> q0"
  proof (cases "e \<le> qmin")
    case True
    then show ?thesis using p q0 by (simp add: q_def)
  next
    case False
    then have "of_int b powi e \<le> \<bar>x\<bar>"
      using floor_exponent_lower[of b qmin "\<bar>x\<bar>"] by (simp add: e_def)
    then have lt: "real_of_int b powi e < of_int b powi (p + q0)" using ub by linarith
    have "e < p + q0"
    proof (rule ccontr)
      assume "\<not> e < p + q0"
      then have "p + q0 \<le> e" by simp
      then have "real_of_int b powi (p + q0) \<le> of_int b powi e"
        using b1 by (intro power_int_increasing) simp_all
      then show False using lt by linarith
    qed
    then show ?thesis using q0 by (simp add: q_def)
  qed
  have "of_int b powi q0 = real_of_int b powi (q0 - q) * of_int b powi q"
    using b0 by (simp flip: power_int_add)
  also have "real_of_int b powi (q0 - q) = of_int (b ^ nat (q0 - q))"
    using qle by (simp add: power_int_def)
  finally have sp: "of_int b powi q0 = of_int (b ^ nat (q0 - q)) * real_of_int b powi q" .
  have "\<bar>x\<bar> / of_int b powi q = of_int (\<bar>m\<bar> * b ^ nat (q0 - q))"
    unfolding ax sp using pw[of q] b by simp
  then have r: "round_half_even (\<bar>x\<bar> / of_int b powi q) = \<bar>m\<bar> * b ^ nat (q0 - q)"
    by (simp only: round_half_even_of_int)
  have "round_sig b p qmin x
        = sgn x * of_int (round_half_even (\<bar>x\<bar> / of_int b powi q)) * of_int b powi q"
    using x0 by (simp add: round_sig_def Let_def e_def q_def)
  also have "\<dots> = sgn x * (of_int (\<bar>m\<bar> * b ^ nat (q0 - q)) * of_int b powi q)"
    unfolding r by simp
  also have "of_int (\<bar>m\<bar> * b ^ nat (q0 - q)) * real_of_int b powi q = \<bar>x\<bar>"
    unfolding ax sp by simp
  also have "sgn x * \<bar>x\<bar> = x" by (simp add: sgn_mult_abs)
  finally show ?thesis by (simp add: x_def)
qed

text \<open>The rounding moves a number by at most half a unit of its last digit.\<close>

lemma round_sig_error:
  assumes b: "2 \<le> b"
  shows "\<bar>round_sig b p qmin x - x\<bar>
         \<le> of_int b powi (max (floor_exponent b qmin \<bar>x\<bar> - (p - 1)) qmin) / 2"
proof (cases "x = 0")
  case True
  have "0 \<le> real_of_int b powi k" for k using b by (intro zero_le_power_int) simp
  then show ?thesis using True by (simp add: round_sig_def)
next
  case False
  define q where "q = max (floor_exponent b qmin \<bar>x\<bar> - (p - 1)) qmin"
  define B where "B = real_of_int b powi q"
  define y where "y = \<bar>x\<bar> / B"
  have Bp: "0 < B" unfolding B_def using b by (intro zero_less_power_int) simp
  have r: "round_sig b p qmin x = sgn x * of_int (round_half_even y) * B"
    using False by (simp add: round_sig_def Let_def q_def B_def y_def)
  have x: "x = sgn x * y * B" using Bp by (simp add: y_def sgn_mult_abs)
  have "round_sig b p qmin x - x = sgn x * (of_int (round_half_even y) - y) * B"
    unfolding r by (subst (2) x) (simp add: algebra_simps)
  then have "\<bar>round_sig b p qmin x - x\<bar> = \<bar>of_int (round_half_even y) - y\<bar> * B"
    using False Bp by (simp add: abs_mult abs_sgn_eq)
  also have "\<dots> \<le> 1 / 2 * B"
    using round_half_even_error[of y] Bp by (intro mult_right_mono) simp_all
  finally show ?thesis by (simp add: B_def q_def)
qed

lemma round_double_of_int:
  assumes "\<bar>k\<bar> < 2 ^ 53"
  shows "round_double (of_int k) = of_int k"
  using round_sig_representable[of 2 53 "- 1074" 0 k] assms by (simp add: round_double_def)

text \<open>
  In the range of the normal doubles the rounding has a relative error of at most
  \<open>2^-53\<close>.
\<close>

lemma round_double_error:
  assumes n: "2 powi (- 1022) \<le> \<bar>x\<bar>"
  shows "\<bar>round_double x - x\<bar> \<le> \<bar>x\<bar> / 2 ^ 53"
proof -
  define e where "e = floor_exponent 2 (- 1074) \<bar>x\<bar>"
  define q where "q = max (e - 52) (- 1074)"
  have err: "\<bar>round_double x - x\<bar> \<le> 2 powi q / 2"
    using round_sig_error[of 2 53 "- 1074" x] by (simp add: round_double_def q_def e_def)
  have "(2::real) powi q \<le> \<bar>x\<bar> / 2 ^ 52"
  proof (cases "e - 52 \<le> - 1074")
    case True
    then have "q = - 1022 - 52" by (simp add: q_def)
    then have "(2::real) powi q = 2 powi (- 1022) / 2 ^ 52"
      by (simp only: power_int_diff) simp
    then show ?thesis using n by (simp add: divide_right_mono)
  next
    case False
    then have q: "q = e - 52" by (simp add: q_def)
    have "\<not> e \<le> - 1074" using False by simp
    then have "2 powi e \<le> \<bar>x\<bar>"
      using floor_exponent_lower[of 2 "- 1074" "\<bar>x\<bar>"] by (simp add: e_def)
    moreover have "(2::real) powi q = 2 powi e / 2 ^ 52"
      unfolding q by (simp add: power_int_diff)
    ultimately show ?thesis by (simp add: divide_right_mono)
  qed
  then have "(2::real) powi q / 2 \<le> \<bar>x\<bar> / 2 ^ 52 / 2" by (simp add: divide_right_mono)
  then show ?thesis using err by simp
qed

lemma normal_range: "1 / 10 ^ 100 \<le> x \<Longrightarrow> (2::real) powi (- 1022) \<le> \<bar>x\<bar>"
proof -
  assume a: "1 / 10 ^ 100 \<le> x"
  have "(2::real) powi (- 1022) \<le> 2 powi (- 400)" by (rule power_int_increasing) simp_all
  also have "\<dots> = 1 / 2 ^ 400" by (simp add: power_int_minus field_simps)
  also have "\<dots> \<le> 1 / 10 ^ 100" by simp
  finally show ?thesis using a by simp
qed

lemma fl_round_finite:
  "\<bar>round_double x\<bar> < double_limit \<Longrightarrow> fl_round x = Fl (round_double x)"
  by (auto simp add: fl_round_def Let_def)

lemma double_limit_lower: "2 ^ 64 \<le> double_limit"
  unfolding double_limit_def by (rule power_increasing) simp_all

lemma decimal_limit_lower: "10 ^ 28 \<le> decimal_limit"
proof -
  have e: "(10::real) ^ 28 = 10 powi 28" by simp
  show ?thesis unfolding decimal_limit_def e by (rule power_int_increasing) simp_all
qed

text \<open>A decimal of at most 28 digits, none of them above the units, is kept as it is.\<close>

lemma decimal_op_exact:
  assumes m: "\<bar>m\<bar> < 10 ^ 28" and q0: "- 1000026 \<le> q0" "q0 \<le> 0"
  shows "decimal_op (of_int m * 10 powi q0) = Inr (of_int m * 10 powi q0)"
proof -
  have r: "decimal_round (of_int m * 10 powi q0) = of_int m * 10 powi q0"
    using round_sig_representable[of 10 28 "- 1000026" q0 m] m q0(1)
    by (simp add: decimal_round_def)
  have "(10::real) powi q0 \<le> 10 powi 0" using q0(2) by (intro power_int_increasing) simp_all
  then have le1: "(10::real) powi q0 \<le> 1" by simp
  have p0: "0 \<le> (10::real) powi q0" by (rule zero_le_power_int) simp
  have "\<bar>real_of_int m * 10 powi q0\<bar> = \<bar>real_of_int m\<bar> * 10 powi q0"
    using p0 by (simp add: abs_mult)
  also have "\<dots> \<le> \<bar>real_of_int m\<bar> * 1" using le1 by (intro mult_left_mono) simp_all
  also have "\<bar>real_of_int m\<bar> * 1 = real_of_int \<bar>m\<bar>" by simp
  also have "real_of_int \<bar>m\<bar> < real_of_int (10 ^ 28)" using m by (simp only: of_int_less_iff)
  also have "real_of_int (10 ^ 28) \<le> decimal_limit" using decimal_limit_lower by simp
  finally have "\<not> decimal_limit \<le> \<bar>real_of_int m * 10 powi q0\<bar>" by simp
  then show ?thesis unfolding decimal_op_def Let_def r by (simp only: if_False)
qed

section \<open>The percentile helper with exact arithmetic\<close>

lemma py_index_in_range:
  "0 \<le> i \<Longrightarrow> i < int (length xs) \<Longrightarrow> py_index xs i = Inr (xs ! nat i)"
  by (simp add: py_index_def)

lemma position_bounds:
  assumes "0 < n" "0 \<le> p" "p \<le> 100"
  shows "0 \<le> percentile_position n p" "percentile_position n p \<le> real n - 1"
proof -
  have a: "0 \<le> real_of_int p / 100" using assms by simp
  have b: "real_of_int p / 100 \<le> 1" using assms by simp
  have c: "0 \<le> real n - 1" using assms by simp
  show "0 \<le> percentile_position n p" unfolding percentile_position_def using a c by simp
  have "real_of_int p / 100 * (real n - 1) \<le> 1 * (real n - 1)"
    using b c by (rule mult_right_mono)
  then show "percentile_position n p \<le> real n - 1" unfolding percentile_position_def by simp
qed

lemma floor_position_bounds:
  assumes "0 < n" "0 \<le> p" "p \<le> 100"
  shows "0 \<le> \<lfloor>percentile_position n p\<rfloor>" "\<lfloor>percentile_position n p\<rfloor> < int n"
proof -
  show "0 \<le> \<lfloor>percentile_position n p\<rfloor>" using position_bounds(1)[OF assms] by simp
  have "percentile_position n p < real n" using position_bounds(2)[OF assms] by simp
  then have "percentile_position n p < of_int (int n)" by simp
  then show "\<lfloor>percentile_position n p\<rfloor> < int n" by (simp only: floor_less_iff)
qed

lemma percentile_over_reals_eq:
  assumes "values \<noteq> []" "0 \<le> p" "p \<le> 100"
  shows "percentile_over_reals values p
         = Inr (interpolate_at (sort values) (percentile_position (length values) p))"
proof -
  let ?n = "length values"
  let ?pos = "percentile_position ?n p"
  have n: "0 < ?n" using assms by simp
  have pos0: "0 \<le> ?pos" using position_bounds(1)[OF n assms(2,3)] .
  have f0: "0 \<le> \<lfloor>?pos\<rfloor>" and f1: "\<lfloor>?pos\<rfloor> < int ?n"
    using floor_position_bounds[OF n assms(2,3)] by auto
  have poseq: "real_of_int p / 100 * real_of_int (int ?n - 1) = ?pos"
    using n by (simp add: percentile_position_def)
  have li: "py_int ?pos = \<lfloor>?pos\<rfloor>" using pos0 by (simp add: py_int_def)
  have lo: "py_index (sort values) \<lfloor>?pos\<rfloor> = Inr (sort values ! nat \<lfloor>?pos\<rfloor>)"
    using f0 f1 by (simp add: py_index_in_range)
  have u0: "0 \<le> min (\<lfloor>?pos\<rfloor> + 1) (int ?n - 1)" using f0 n by simp
  have u1: "min (\<lfloor>?pos\<rfloor> + 1) (int ?n - 1) < int ?n" by simp
  have unat: "nat (min (\<lfloor>?pos\<rfloor> + 1) (int ?n - 1)) = min (nat \<lfloor>?pos\<rfloor> + 1) (?n - 1)"
    using f0 n by (simp add: min_def) linarith
  have up: "py_index (sort values) (min (\<lfloor>?pos\<rfloor> + 1) (int ?n - 1))
            = Inr (sort values ! min (nat \<lfloor>?pos\<rfloor> + 1) (?n - 1))"
    using py_index_in_range[OF u0, of "sort values"] u1 unat by simp
  have fr: "real_of_int \<lfloor>?pos\<rfloor> = real (nat \<lfloor>?pos\<rfloor>)" using f0 by simp
  have c1: "(values = []) = False" using assms by simp
  have c2: "(p < 0 \<or> p > 100) = False" using assms by auto
  show ?thesis
    unfolding percentile_over_reals_def Let_def interpolate_at_def
    by (simp only: c1 c2 if_False length_sort poseq li lo up sum.case fr)
qed


lemma sort_nth_le:
  "i \<le> j \<Longrightarrow> j < length xs \<Longrightarrow> sort xs ! i \<le> sort (xs::real list) ! j"
  using sorted_nth_mono[of "sort xs" i j] by simp

lemma sort_nth_0_Min:
  assumes "xs \<noteq> []"
  shows "sort (xs::real list) ! 0 = Min (set xs)"
proof -
  have len: "0 < length (sort xs)" using assms by simp
  have mem: "sort xs ! 0 \<in> set (sort xs)" using len by (rule nth_mem)
  have "Min (set xs) = sort xs ! 0"
  proof (rule Min_eqI)
    show "finite (set xs)" by simp
    show "sort xs ! 0 \<in> set xs" using mem by simp
    fix y assume "y \<in> set xs"
    then have "\<exists>j<length xs. sort xs ! j = y"
      using in_set_conv_nth[of y "sort xs"] by simp
    then obtain j where "j < length (sort xs)" "sort xs ! j = y" by auto
    then show "sort xs ! 0 \<le> y" using sort_nth_le[of 0 j xs] by auto
  qed
  then show ?thesis by simp
qed

lemma sort_nth_last_Max:
  assumes "xs \<noteq> []"
  shows "sort (xs::real list) ! (length xs - 1) = Max (set xs)"
proof -
  have len: "length xs - 1 < length (sort xs)" using assms by simp
  have mem: "sort xs ! (length xs - 1) \<in> set (sort xs)" using len by (rule nth_mem)
  have "Max (set xs) = sort xs ! (length xs - 1)"
  proof (rule Max_eqI)
    show "finite (set xs)" by simp
    show "sort xs ! (length xs - 1) \<in> set xs" using mem by simp
    fix y assume "y \<in> set xs"
    then have "\<exists>j<length xs. sort xs ! j = y"
      using in_set_conv_nth[of y "sort xs"] by simp
    then obtain j where "j < length (sort xs)" "sort xs ! j = y" by auto
    then show "y \<le> sort xs ! (length xs - 1)" using sort_nth_le[of j "length xs - 1" xs] by auto
  qed
  then show ?thesis by simp
qed

lemma interpolate_between:
  fixes a b f :: real
  assumes "a \<le> b" "0 \<le> f" "f \<le> 1"
  shows "a \<le> a + f * (b - a)" "a + f * (b - a) \<le> b"
proof -
  have d: "0 \<le> b - a" using assms by simp
  show "a \<le> a + f * (b - a)" using d assms(2) by simp
  have "f * (b - a) \<le> 1 * (b - a)" using assms(3) d by (rule mult_right_mono)
  then show "a + f * (b - a) \<le> b" by simp
qed

text \<open>
  With exact arithmetic the helper raises \<^verbatim>\<open>ValueError\<close> on an empty list and on a
  percentile outside \<open>[0, 100]\<close>, and otherwise returns the linear interpolation of the
  ascending values at the 0-indexed position \<open>(p/100) \<times> (n - 1)\<close>: both indices it
  reads are in range, the result lies between the two bracketing values, an integer
  position returns that element, the percentile 0 is the minimum and the percentile 100
  the maximum.
\<close>

lemma percentile_over_reals_spec:
  "(values = [] \<longrightarrow>
      percentile_over_reals values p = Inl (ValueError ''Values list cannot be empty'')) \<and>
   (values \<noteq> [] \<and> (p < 0 \<or> 100 < p) \<longrightarrow>
      percentile_over_reals values p = Inl (ValueError ''Percentile must be between 0 and 100'')) \<and>
   (values \<noteq> [] \<and> 0 \<le> p \<and> p \<le> 100 \<longrightarrow>
      (let s = sort values;
           pos = percentile_position (length values) p;
           k = nat \<lfloor>pos\<rfloor>;
           k' = min (k + 1) (length values - 1)
       in \<exists>v. percentile_over_reals values p = Inr v
            \<and> v = s ! k + (pos - real k) * (s ! k' - s ! k)
            \<and> k < length values \<and> k' < length values
            \<and> s ! k \<le> v \<and> v \<le> s ! k'
            \<and> (pos = real k \<longrightarrow> v = s ! k)
            \<and> (p = 0 \<longrightarrow> v = Min (set values))
            \<and> (p = 100 \<longrightarrow> v = Max (set values))))"
proof (intro conjI impI)
  assume "values = []"
  then show "percentile_over_reals values p = Inl (ValueError ''Values list cannot be empty'')"
    by (simp add: percentile_over_reals_def)
next
  assume "values \<noteq> [] \<and> (p < 0 \<or> 100 < p)"
  then show "percentile_over_reals values p
             = Inl (ValueError ''Percentile must be between 0 and 100'')"
    by (auto simp add: percentile_over_reals_def)
next
  assume a: "values \<noteq> [] \<and> 0 \<le> p \<and> p \<le> 100"
  define s where "s = sort values"
  define pos where "pos = percentile_position (length values) p"
  define k where "k = nat \<lfloor>pos\<rfloor>"
  define k' where "k' = min (k + 1) (length values - 1)"
  define v where "v = s ! k + (pos - real k) * (s ! k' - s ! k)"
  have n: "0 < length values" using a by simp
  have p0: "0 \<le> p" and p1: "p \<le> 100" using a by auto
  have res: "percentile_over_reals values p = Inr v"
    using percentile_over_reals_eq[of "values" p] a
    by (simp add: interpolate_at_def Let_def v_def s_def pos_def k_def k'_def)
  have f0: "0 \<le> \<lfloor>pos\<rfloor>" and f1: "\<lfloor>pos\<rfloor> < int (length values)"
    using floor_position_bounds[OF n p0 p1] by (auto simp: pos_def)
  have kn: "k < length values" using f0 f1 unfolding k_def by linarith
  have k'n: "k' < length values" using n unfolding k'_def by linarith
  have kk': "k \<le> k'" using kn by (simp add: k'_def)
  have rk: "real k = real_of_int \<lfloor>pos\<rfloor>" using f0 by (simp add: k_def)
  have fr0: "0 \<le> pos - real k" unfolding rk by linarith
  have fr1: "pos - real k \<le> 1" unfolding rk by linarith
  have mono: "s ! k \<le> s ! k'" unfolding s_def using kk' k'n by (rule sort_nth_le)
  have lo: "s ! k \<le> v" unfolding v_def using mono fr0 fr1 by (rule interpolate_between(1))
  have hi: "v \<le> s ! k'" unfolding v_def using mono fr0 fr1 by (rule interpolate_between(2))
  have ex: "pos = real k \<longrightarrow> v = s ! k" by (simp add: v_def)
  have pmin: "p = 0 \<longrightarrow> v = Min (set values)"
  proof
    assume "p = 0"
    then have "pos = 0" by (simp add: pos_def percentile_position_def)
    then have "k = 0" "pos - real k = 0" by (simp_all add: k_def)
    then have "v = s ! 0" by (simp add: v_def)
    then show "v = Min (set values)" using sort_nth_0_Min a by (simp add: s_def)
  qed
  have pmax: "p = 100 \<longrightarrow> v = Max (set values)"
  proof
    assume "p = 100"
    have r: "real (length values - 1) = real (length values) - 1"
      using a by (cases "values") simp_all
    have pe: "pos = real (length values - 1)"
      unfolding pos_def percentile_position_def r using \<open>p = 100\<close> by simp
    then have ke: "k = length values - 1" by (simp add: k_def)
    have "pos - real k = 0" using pe ke by simp
    then have "v = s ! (length values - 1)" using ke by (simp add: v_def)
    then show "v = Max (set values)" using sort_nth_last_Max a by (simp add: s_def)
  qed
  show "let s = sort values;
           pos = percentile_position (length values) p;
           k = nat \<lfloor>pos\<rfloor>;
           k' = min (k + 1) (length values - 1)
       in \<exists>v. percentile_over_reals values p = Inr v
            \<and> v = s ! k + (pos - real k) * (s ! k' - s ! k)
            \<and> k < length values \<and> k' < length values
            \<and> s ! k \<le> v \<and> v \<le> s ! k'
            \<and> (pos = real k \<longrightarrow> v = s ! k)
            \<and> (p = 0 \<longrightarrow> v = Min (set values))
            \<and> (p = 100 \<longrightarrow> v = Max (set values))"
    unfolding Let_def
    using res kn k'n lo hi ex pmin pmax
    unfolding v_def s_def pos_def k_def k'_def by blast
qed


text \<open>
  The 25 costs \<open>1, \<dots>, 25\<close>: the median is 13 and the 90th percentile is 22.6.
\<close>

lemma percentile_over_reals_examples:
  "costs25 \<noteq> [] \<and> (0::int) \<le> 50 \<and> (50::int) \<le> 100 \<and> (90::int) \<le> 100
   \<and> percentile_over_reals costs25 50 = Inr 13
   \<and> percentile_over_reals costs25 90 = Inr (113 / 5)
   \<and> percentile_over_reals costs25 0 = Inr 1
   \<and> percentile_over_reals costs25 100 = Inr 25
   \<and> percentile_over_reals [] 50 = Inl (ValueError ''Values list cannot be empty'')
   \<and> percentile_over_reals costs25 101 = Inl (ValueError ''Percentile must be between 0 and 100'')"
  using percentile_over_reals_spec[of costs25 50] percentile_over_reals_spec[of costs25 90]
    percentile_over_reals_spec[of costs25 0] percentile_over_reals_spec[of costs25 100]
    percentile_over_reals_spec[of "[]" 50] percentile_over_reals_spec[of costs25 101]
  by (simp add: costs25_def percentile_position_def Let_def)


section \<open>The percentile helper\<close>

lemma fl_round_small: "\<bar>round_double x\<bar> < 2 ^ 64 \<Longrightarrow> fl_round x = Fl (round_double x)"
  using double_limit_lower by (intro fl_round_finite) linarith

lemma round_double_values:
  "round_double (58 / 100) = 5224175567749775 / 2 ^ 53"
  "round_double (5224175567749775 / 2 ^ 53 * 50) = 8162774324609023 / 2 ^ 48"
  "round_double (8162774324609023 / 2 ^ 48 - 28) = 281474976710655 / 2 ^ 48"
  "round_double (281474976710655 / 2 ^ 48 * 1000) = 8796093022207969 / 2 ^ 43"
  by (simp_all add: round_double_def round_sig_def floor_exponent_def exponent_down.simps
      exponent_up.simps round_half_even_def Let_def)

lemma float_of_int_small: "\<bar>k\<bar> < 2 ^ 53 \<Longrightarrow> float_of_int k = Inr (Fl (of_int k))"
proof -
  assume k: "\<bar>k\<bar> < 2 ^ 53"
  then have r: "round_double (of_int k) = of_int k" by (rule round_double_of_int)
  have "real_of_int \<bar>k\<bar> < real_of_int (2 ^ 53)" using k by (simp only: of_int_less_iff)
  then have "\<bar>round_double (real_of_int k)\<bar> < 2 ^ 64" unfolding r by simp
  then have "fl_round (of_int k) = Fl (of_int k)" using fl_round_small[of "of_int k"] r by simp
  then show ?thesis by (simp add: float_of_int_def)
qed

lemma two_level_sorted: "sort two_level_costs = two_level_costs"
  by (rule sorted_sort_id) (simp add: two_level_costs_def sorted_append)

lemma fl_round_value: "round_double x = r \<Longrightarrow> \<bar>r\<bar> < 2 ^ 64 \<Longrightarrow> fl_round x = Fl r"
  using fl_round_small[of x] by simp

lemma two_level_percentile:
  "compute_exact_percentile two_level_costs 58 = Inr (Fl (8796093022207969 / 2 ^ 43))"
proof -
  have n: "int (length two_level_costs) = 51" by (simp add: two_level_costs_def)
  have f50: "float_of_int (51 - 1) = Inr (Fl 50)" using float_of_int_small[of 50] by simp
  have f28: "float_of_int 28 = Inr (Fl 28)" using float_of_int_small[of 28] by simp
  have q: "fl_round (real_of_int 58 / 100) = Fl (5224175567749775 / 2 ^ 53)"
    unfolding of_int_numeral by (rule fl_round_value[OF round_double_values(1)]) simp
  have pos: "fl_mul (Fl (5224175567749775 / 2 ^ 53)) (Fl 50) = Fl (8162774324609023 / 2 ^ 48)"
    unfolding fl_mul.simps by (rule fl_round_value[OF round_double_values(2)]) simp
  have li: "int_of_float (Fl (8162774324609023 / 2 ^ 48)) = Inr 28" by (simp add: py_int_def)
  have fr: "fl_sub (Fl (8162774324609023 / 2 ^ 48)) (Fl 28) = Fl (281474976710655 / 2 ^ 48)"
    unfolding fl_sub_def fl_neg.simps fl_add.simps
    using fl_round_value[OF round_double_values(3)] by simp
  have up_i: "min (28 + 1) (51 - 1) = (29::int)" by simp
  have lo: "py_index two_level_costs 28 = Inr 0"
    by (simp add: py_index_def two_level_costs_def nth_append)
  have up: "py_index two_level_costs 29 = Inr 1000"
    by (simp add: py_index_def two_level_costs_def nth_append)
  have d: "fl_sub (Fl 1000) (Fl 0) = Fl 1000"
    using fl_round_small[of 1000] round_double_of_int[of 1000] by (simp add: fl_sub_def)
  have pr: "fl_mul (Fl (281474976710655 / 2 ^ 48)) (Fl 1000) = Fl (8796093022207969 / 2 ^ 43)"
    unfolding fl_mul.simps by (rule fl_round_value[OF round_double_values(4)]) simp
  have "round_double (of_int 8796093022207969 * of_int 2 powi (- 43))
        = of_int 8796093022207969 * of_int 2 powi (- 43)"
    unfolding round_double_def by (rule round_sig_representable) simp_all
  then have rr: "round_double (8796093022207969 / 2 ^ 43) = 8796093022207969 / 2 ^ 43"
    by (simp add: power_int_minus field_simps)
  have su: "fl_add (Fl 0) (Fl (8796093022207969 / 2 ^ 43)) = Fl (8796093022207969 / 2 ^ 43)"
    using fl_round_value[OF rr] by simp
  have ne: "(two_level_costs = []) = False" by (simp add: two_level_costs_def)
  have pc: "((58::int) < 0 \<or> (58::int) > 100) = False" by simp
  show ?thesis
    unfolding compute_exact_percentile_def Let_def two_level_sorted n
    by (simp only: ne pc if_False f50 f28 q pos li fr up_i lo up d pr su bind_result_Inr)
qed


lemma round_double_values25:
  "round_double (50 / 100) = 1 / 2"
  "round_double (1 / 2 * 24) = 12"
  "round_double (90 / 100) = 8106479329266893 / 2 ^ 53"
  "round_double (8106479329266893 / 2 ^ 53 * 24) = 3039929748475085 / 2 ^ 47"
  "round_double (3039929748475085 / 2 ^ 47 - 21) = 84442493013197 / 2 ^ 47"
  "round_double (84442493013197 / 2 ^ 47 * 1) = 84442493013197 / 2 ^ 47"
  "round_double (22 + 84442493013197 / 2 ^ 47) = 3180667236830413 / 2 ^ 47"
  "round_double (226 / 10) = 3180667236830413 / 2 ^ 47"
  by (simp_all add: round_double_def round_sig_def floor_exponent_def exponent_down.simps
      exponent_up.simps round_half_even_def Let_def)

lemma costs25_sorted: "sort costs25 = costs25"
  by (rule sorted_sort_id) (simp add: costs25_def)

lemma costs25_median: "compute_exact_percentile costs25 50 = Inr (Fl 13)"
proof -
  have n: "int (length costs25) = 25" by (simp add: costs25_def)
  have f24: "float_of_int (25 - 1) = Inr (Fl 24)" using float_of_int_small[of 24] by simp
  have f12: "float_of_int 12 = Inr (Fl 12)" using float_of_int_small[of 12] by simp
  have q: "fl_round (real_of_int 50 / 100) = Fl (1 / 2)"
    unfolding of_int_numeral by (rule fl_round_value[OF round_double_values25(1)]) simp
  have pos: "fl_mul (Fl (1 / 2)) (Fl 24) = Fl 12"
    unfolding fl_mul.simps by (rule fl_round_value[OF round_double_values25(2)]) simp
  have li: "int_of_float (Fl 12) = Inr 12" by (simp add: py_int_def)
  have fr: "fl_sub (Fl 12) (Fl 12) = Fl 0"
    using fl_round_small[of 0] round_double_of_int[of 0] by (simp add: fl_sub_def)
  have up_i: "min (12 + 1) (25 - 1) = (13::int)" by simp
  have lo: "py_index costs25 12 = Inr 13" by (simp add: py_index_def costs25_def)
  have up: "py_index costs25 13 = Inr 14" by (simp add: py_index_def costs25_def)
  have d: "fl_sub (Fl 14) (Fl 13) = Fl 1"
    using fl_round_small[of 1] round_double_of_int[of 1] by (simp add: fl_sub_def)
  have pr: "fl_mul (Fl 0) (Fl 1) = Fl 0"
    using fl_round_small[of 0] round_double_of_int[of 0] by simp
  have su: "fl_add (Fl 13) (Fl 0) = Fl 13"
    using fl_round_small[of 13] round_double_of_int[of 13] by simp
  have ne: "(costs25 = []) = False" by (simp add: costs25_def)
  have pc: "((50::int) < 0 \<or> (50::int) > 100) = False" by simp
  show ?thesis
    unfolding compute_exact_percentile_def Let_def costs25_sorted n
    by (simp only: ne pc if_False f24 f12 q pos li fr up_i lo up d pr su bind_result_Inr)
qed

lemma costs25_p90: "compute_exact_percentile costs25 90 = Inr (Fl (3180667236830413 / 2 ^ 47))"
proof -
  have n: "int (length costs25) = 25" by (simp add: costs25_def)
  have f24: "float_of_int (25 - 1) = Inr (Fl 24)" using float_of_int_small[of 24] by simp
  have f21: "float_of_int 21 = Inr (Fl 21)" using float_of_int_small[of 21] by simp
  have q: "fl_round (real_of_int 90 / 100) = Fl (8106479329266893 / 2 ^ 53)"
    unfolding of_int_numeral by (rule fl_round_value[OF round_double_values25(3)]) simp
  have pos: "fl_mul (Fl (8106479329266893 / 2 ^ 53)) (Fl 24) = Fl (3039929748475085 / 2 ^ 47)"
    unfolding fl_mul.simps by (rule fl_round_value[OF round_double_values25(4)]) simp
  have li: "int_of_float (Fl (3039929748475085 / 2 ^ 47)) = Inr 21" by (simp add: py_int_def)
  have fr: "fl_sub (Fl (3039929748475085 / 2 ^ 47)) (Fl 21) = Fl (84442493013197 / 2 ^ 47)"
    unfolding fl_sub_def fl_neg.simps fl_add.simps
    using fl_round_value[OF round_double_values25(5)] by simp
  have up_i: "min (21 + 1) (25 - 1) = (22::int)" by simp
  have lo: "py_index costs25 21 = Inr 22" by (simp add: py_index_def costs25_def)
  have up: "py_index costs25 22 = Inr 23" by (simp add: py_index_def costs25_def)
  have d: "fl_sub (Fl 23) (Fl 22) = Fl 1"
    using fl_round_small[of 1] round_double_of_int[of 1] by (simp add: fl_sub_def)
  have pr: "fl_mul (Fl (84442493013197 / 2 ^ 47)) (Fl 1) = Fl (84442493013197 / 2 ^ 47)"
    unfolding fl_mul.simps by (rule fl_round_value[OF round_double_values25(6)]) simp
  have su: "fl_add (Fl 22) (Fl (84442493013197 / 2 ^ 47)) = Fl (3180667236830413 / 2 ^ 47)"
    unfolding fl_add.simps by (rule fl_round_value[OF round_double_values25(7)]) simp
  have ne: "(costs25 = []) = False" by (simp add: costs25_def)
  have pc: "((90::int) < 0 \<or> (90::int) > 100) = False" by simp
  show ?thesis
    unfolding compute_exact_percentile_def Let_def costs25_sorted n
    by (simp only: ne pc if_False f24 f21 q pos li fr up_i lo up d pr su bind_result_Inr)
qed

lemma two_level_exact: "percentile_over_reals two_level_costs 58 = Inr 1000"
proof -
  have ne: "two_level_costs \<noteq> []" by (simp add: two_level_costs_def)
  show ?thesis
    unfolding percentile_over_reals_eq[OF ne, of 58, simplified] two_level_sorted
    by (simp add: two_level_costs_def interpolate_at_def percentile_position_def nth_append)
qed

text \<open>
  Claim C3 fails in the float arithmetic of the code. Take 51 costs, 29 of them 0 and
  22 of them 1000 (all doubles), and the percentile 58. The position \<open>(58/100) \<times> 50\<close> is
  29, an integer, the ascending values hold 1000 at index 29, and with exact arithmetic
  the helper returns 1000. In the code \<^verbatim>\<open>58 / 100.0\<close> is the double below 0.58, the
  position is the double \<open>29 - 2^-48\<close>, the index read is 28 with the fraction
  \<open>1 - 2^-48\<close>, and the value returned is \<open>1000 - 31/2^43\<close>, which is not the element at
  the position. On the 25 costs \<open>1, \<dots>, 25\<close> the code returns 13 and the double nearest
  to 22.6.
\<close>

theorem percentile_integer_position_inexact:
  "map round_double two_level_costs = two_level_costs
   \<and> percentile_position (length two_level_costs) 58 = 29
   \<and> sort two_level_costs ! 29 = 1000
   \<and> percentile_over_reals two_level_costs 58 = Inr 1000
   \<and> compute_exact_percentile two_level_costs 58 = Inr (Fl (8796093022207969 / 2 ^ 43))
   \<and> (8796093022207969 / 2 ^ 43 :: real) < 1000
   \<and> compute_exact_percentile costs25 50 = Inr (Fl 13)
   \<and> compute_exact_percentile costs25 90 = Inr (Fl (round_double (226 / 10)))"
proof -
  have z: "round_double 0 = 0" by (simp add: round_double_def round_sig_def)
  have t: "round_double 1000 = 1000" using round_double_of_int[of 1000] by simp
  have d: "map round_double two_level_costs = two_level_costs"
    by (simp add: two_level_costs_def z t)
  have p: "percentile_position (length two_level_costs) 58 = 29"
    by (simp add: percentile_position_def two_level_costs_def)
  have e: "sort two_level_costs ! 29 = 1000"
    unfolding two_level_sorted by (simp add: two_level_costs_def nth_append)
  have l: "(8796093022207969 / 2 ^ 43 :: real) < 1000" by simp
  have n: "compute_exact_percentile costs25 90 = Inr (Fl (round_double (226 / 10)))"
    unfolding round_double_values25(8) by (rule costs25_p90)
  show ?thesis by (intro conjI d p e two_level_exact two_level_percentile l costs25_median n)
qed


section \<open>Pricing\<close>

text \<open>The prices of the table are whole cents, none above 75.00.\<close>

lemma PRICING_TABLE_cents:
  assumes "map_of PRICING_TABLE m = Some p"
  shows "\<exists>c1 c2. prompt_cost_per_1k p = real_of_int c1 / 100
           \<and> completion_cost_per_1k p = real_of_int c2 / 100
           \<and> 0 \<le> c1 \<and> c1 \<le> 7500 \<and> 0 \<le> c2 \<and> c2 \<le> 7500"
proof -
  have "p = \<lparr>prompt_cost_per_1k = 30, completion_cost_per_1k = 60\<rparr>
      \<or> p = \<lparr>prompt_cost_per_1k = 3 / 2, completion_cost_per_1k = 2\<rparr>
      \<or> p = \<lparr>prompt_cost_per_1k = 15, completion_cost_per_1k = 75\<rparr>"
    using assms by (auto simp add: PRICING_TABLE_def split: if_splits)
  then consider (a) "p = \<lparr>prompt_cost_per_1k = 30, completion_cost_per_1k = 60\<rparr>"
    | (b) "p = \<lparr>prompt_cost_per_1k = 3 / 2, completion_cost_per_1k = 2\<rparr>"
    | (c) "p = \<lparr>prompt_cost_per_1k = 15, completion_cost_per_1k = 75\<rparr>" by blast
  then show ?thesis
  proof cases
    case a
    show ?thesis unfolding a by (rule exI[of _ 3000], rule exI[of _ 6000]) simp
  next
    case b
    show ?thesis unfolding b by (rule exI[of _ 150], rule exI[of _ 200]) simp
  next
    case c
    show ?thesis unfolding c by (rule exI[of _ 1500], rule exI[of _ 7500]) simp
  qed
qed

lemma tokens_times_cents:
  fixes a c :: int
  assumes "0 \<le> a" "a < 10 ^ 20" "0 \<le> c" "c \<le> 7500"
  shows "0 \<le> a * c" "a * c < 10 ^ 24"
proof -
  show "0 \<le> a * c" using assms by simp
  have "a * c \<le> a * 7500" using assms by (intro mult_left_mono) simp_all
  also have "\<dots> < 10 ^ 24" using assms(2) by simp
  finally show "a * c < 10 ^ 24" .
qed

lemma ceiling_cents_bounds:
  fixes x :: real
  shows "x \<le> of_int \<lceil>x * 100\<rceil> / 100" "of_int \<lceil>x * 100\<rceil> / 100 < x + 1 / 100"
proof -
  have a: "x * 100 \<le> of_int \<lceil>x * 100\<rceil>" by (rule le_of_int_ceiling)
  have b: "of_int \<lceil>x * 100\<rceil> < x * 100 + 1" using ceiling_correct[of "x * 100"] by simp
  show "x \<le> of_int \<lceil>x * 100\<rceil> / 100" using a by simp
  show "of_int \<lceil>x * 100\<rceil> / 100 < x + 1 / 100" using b by simp
qed

text \<open>
  With token counts from 0 to below \<open>10^20\<close> no operation of the context rounds and
  \<^verbatim>\<open>quantize\<close> does not raise: the decimal that is converted to a float is the exact
  cost rounded up to the cent.
\<close>

lemma calculate_cost_value:
  assumes p: "map_of PRICING_TABLE m = Some p"
    and a: "0 \<le> usage_prompt_tokens usage" "usage_prompt_tokens usage < 10 ^ 20"
    and b: "0 \<le> usage_completion_tokens usage" "usage_completion_tokens usage < 10 ^ 20"
  shows "calculate_cost m usage = Inr (round_double (of_int \<lceil>exact_cost p usage * 100\<rceil> / 100))"
    and "0 \<le> exact_cost p usage"
proof -
  define pt where "pt = usage_prompt_tokens usage"
  define ct where "ct = usage_completion_tokens usage"
  from PRICING_TABLE_cents[OF p] obtain c1 c2 where
    c1: "prompt_cost_per_1k p = real_of_int c1 / 100" and
    c2: "completion_cost_per_1k p = real_of_int c2 / 100" and
    r1: "0 \<le> c1" "c1 \<le> 7500" and r2: "0 \<le> c2" "c2 \<le> 7500" by blast
  have pt: "0 \<le> pt" "pt < 10 ^ 20" and ct: "0 \<le> ct" "ct < 10 ^ 20"
    using a b by (simp_all add: pt_def ct_def)
  note m1 = tokens_times_cents[OF pt r1]
  note m2 = tokens_times_cents[OF ct r2]
  have e3: "(10::real) powi (- 3) = 1 / 1000" and e5: "(10::real) powi (- 5) = 1 / 100000"
    by (simp_all add: power_int_minus field_simps)
  have s1: "decimal_op (real_of_int pt / 1000) = Inr (real_of_int pt / 1000)"
    using decimal_op_exact[of pt "- 3"] pt by (simp add: e3)
  have s2: "decimal_op (real_of_int pt / 1000 * (real_of_int c1 / 100))
            = Inr (real_of_int (pt * c1) / 100000)"
    using decimal_op_exact[of "pt * c1" "- 5"] m1 by (simp add: e5)
  have s3: "decimal_op (real_of_int ct / 1000) = Inr (real_of_int ct / 1000)"
    using decimal_op_exact[of ct "- 3"] ct by (simp add: e3)
  have s4: "decimal_op (real_of_int ct / 1000 * (real_of_int c2 / 100))
            = Inr (real_of_int (ct * c2) / 100000)"
    using decimal_op_exact[of "ct * c2" "- 5"] m2 by (simp add: e5)
  have s5: "decimal_op (real_of_int (pt * c1) / 100000 + real_of_int (ct * c2) / 100000)
            = Inr (real_of_int (pt * c1 + ct * c2) / 100000)"
    using decimal_op_exact[of "pt * c1 + ct * c2" "- 5"] m1 m2 by (simp add: e5 add_divide_distrib)
  define total where "total = real_of_int (pt * c1 + ct * c2) / 100000"
  have ex: "exact_cost p usage = total"
    by (simp add: exact_cost_def c1 c2 total_def pt_def ct_def add_divide_distrib)
  have "0 \<le> pt * c1 + ct * c2" using m1(1) m2(1) by simp
  then have "0 \<le> real_of_int (pt * c1 + ct * c2)" by (simp only: of_int_0_le_iff)
  then have t0: "0 \<le> total" unfolding total_def by (rule divide_nonneg_nonneg) simp
  have "real_of_int (pt * c1 + ct * c2) < real_of_int (2 * 10 ^ 24)"
    using m1(2) m2(2) by (simp only: of_int_less_iff)
  then have t1: "total < 2 * 10 ^ 19" by (simp add: total_def)
  have "real_of_int \<lceil>total * 100\<rceil> / 100 < total + 1 / 100" by (rule ceiling_cents_bounds(2))
  then have q1: "real_of_int \<lceil>total * 100\<rceil> / 100 < 10 ^ 26" using t1 by simp
  have q0: "0 \<le> real_of_int \<lceil>total * 100\<rceil> / 100"
    using ceiling_cents_bounds(1)[of total] t0 by linarith
  have "\<bar>real_of_int \<lceil>total * 100\<rceil> / 100\<bar> < 10 ^ 26" using q0 q1 by (simp only: abs_of_nonneg)
  then have qz: "quantize_ROUND_UP total = Inr (real_of_int \<lceil>total * 100\<rceil> / 100)"
    using t0 by (simp add: quantize_ROUND_UP_def Let_def)
  have gp: "get_pricing PRICING_TABLE m = Inr p" using p by (simp add: get_pricing_def)
  show "calculate_cost m usage = Inr (round_double (of_int \<lceil>exact_cost p usage * 100\<rceil> / 100))"
    unfolding calculate_cost_def gp ex
    by (simp only: sum.case c1 c2 pt_def[symmetric] ct_def[symmetric] s1 s2 s3 s4 s5
        bind_result_Inr total_def[symmetric] qz)
  show "0 \<le> exact_cost p usage" unfolding ex by (rule t0)
qed

lemma round_double_cents:
  "round_double (3 / 10) = 5404319552844595 / 2 ^ 54"
  "round_double (101 / 100) = 4548635623644201 / 2 ^ 52"
  by (simp_all add: round_double_def round_sig_def floor_exponent_def exponent_down.simps
      exponent_up.simps round_half_even_def Let_def)

text \<open>
  Claim C10, as amended. A model that is not in the pricing table raises \<^verbatim>\<open>ValueError\<close>
  with the model's name. For a model of the table and token counts from 0 to below
  \<open>10^20\<close>, the cost is computed without any rounding of the decimal context, rounded up
  to the next cent (at least the exact cost, and less than one cent above it), and
  returned as the double nearest to that decimal, which differs from it by at most the
  fraction \<open>2^-53\<close> of its value.
\<close>

theorem calculate_cost_spec:
  "(map_of PRICING_TABLE m = None \<longrightarrow>
      calculate_cost m usage = Inl (ValueError (''Unsupported model: '' @ m)))
   \<and> (\<forall>p. map_of PRICING_TABLE m = Some p
          \<and> 0 \<le> usage_prompt_tokens usage \<and> usage_prompt_tokens usage < 10 ^ 20
          \<and> 0 \<le> usage_completion_tokens usage \<and> usage_completion_tokens usage < 10 ^ 20 \<longrightarrow>
        (let cents_up = real_of_int \<lceil>exact_cost p usage * 100\<rceil> / 100
         in calculate_cost m usage = Inr (round_double cents_up)
            \<and> exact_cost p usage \<le> cents_up
            \<and> cents_up < exact_cost p usage + 1 / 100
            \<and> \<bar>round_double cents_up - cents_up\<bar> \<le> cents_up / 2 ^ 53))"
proof (intro conjI allI impI)
  assume "map_of PRICING_TABLE m = None"
  then show "calculate_cost m usage = Inl (ValueError (''Unsupported model: '' @ m))"
    by (simp add: calculate_cost_def get_pricing_def)
next
  fix p
  assume h: "map_of PRICING_TABLE m = Some p
          \<and> 0 \<le> usage_prompt_tokens usage \<and> usage_prompt_tokens usage < 10 ^ 20
          \<and> 0 \<le> usage_completion_tokens usage \<and> usage_completion_tokens usage < 10 ^ 20"
  define cents_up where "cents_up = real_of_int \<lceil>exact_cost p usage * 100\<rceil> / 100"
  have v: "calculate_cost m usage = Inr (round_double cents_up)"
    and x0: "0 \<le> exact_cost p usage"
    unfolding cents_up_def using calculate_cost_value[of m p usage] h by simp_all
  have lo: "exact_cost p usage \<le> cents_up" unfolding cents_up_def by (rule ceiling_cents_bounds(1))
  have hi: "cents_up < exact_cost p usage + 1 / 100"
    unfolding cents_up_def by (rule ceiling_cents_bounds(2))
  have err: "\<bar>round_double cents_up - cents_up\<bar> \<le> cents_up / 2 ^ 53"
  proof (cases "\<lceil>exact_cost p usage * 100\<rceil> \<le> 0")
    case True
    then have "cents_up \<le> 0" by (simp add: cents_up_def)
    then have "cents_up = 0" using lo x0 by simp
    then show ?thesis by (simp add: round_double_def round_sig_def)
  next
    case False
    then have "1 \<le> \<lceil>exact_cost p usage * 100\<rceil>" by simp
    then have "(1::real) \<le> real_of_int \<lceil>exact_cost p usage * 100\<rceil>" by (simp only: of_int_1_le_iff)
    then have c: "1 / 100 \<le> cents_up" by (simp add: cents_up_def)
    then have "1 / 10 ^ 100 \<le> cents_up" by simp
    then have "2 powi (- 1022) \<le> \<bar>cents_up\<bar>" by (rule normal_range)
    then have "\<bar>round_double cents_up - cents_up\<bar> \<le> \<bar>cents_up\<bar> / 2 ^ 53"
      by (rule round_double_error)
    then show ?thesis using c by simp
  qed
  show "let cents_up = real_of_int \<lceil>exact_cost p usage * 100\<rceil> / 100
         in calculate_cost m usage = Inr (round_double cents_up)
            \<and> exact_cost p usage \<le> cents_up
            \<and> cents_up < exact_cost p usage + 1 / 100
            \<and> \<bar>round_double cents_up - cents_up\<bar> \<le> cents_up / 2 ^ 53"
    unfolding Let_def cents_up_def[symmetric] by (intro conjI v lo hi err)
qed

text \<open>
  667 prompt tokens of \<^verbatim>\<open>gpt-3.5-turbo\<close> cost 1.0005 and are charged 1.01, returned as the
  double \<open>4548635623644201 / 2^52\<close>; the model \<^verbatim>\<open>gpt-5\<close> is not in the table.
\<close>

theorem calculate_cost_spec_witness:
  "map_of PRICING_TABLE ''gpt-3.5-turbo''
     = Some \<lparr>prompt_cost_per_1k = 3 / 2, completion_cost_per_1k = 2\<rparr>
   \<and> map_of PRICING_TABLE ''gpt-5'' = None
   \<and> calculate_cost ''gpt-3.5-turbo'' \<lparr>usage_prompt_tokens = 667, usage_completion_tokens = 0\<rparr>
       = Inr (4548635623644201 / 2 ^ 52)
   \<and> calculate_cost ''gpt-5'' \<lparr>usage_prompt_tokens = 1, usage_completion_tokens = 1\<rparr>
       = Inl (ValueError ''Unsupported model: gpt-5'')"
proof -
  have t1: "map_of PRICING_TABLE ''gpt-3.5-turbo''
     = Some \<lparr>prompt_cost_per_1k = 3 / 2, completion_cost_per_1k = 2\<rparr>"
    by (simp add: PRICING_TABLE_def)
  have t2: "map_of PRICING_TABLE ''gpt-5'' = None" by (simp add: PRICING_TABLE_def)
  have x: "real_of_int \<lceil>exact_cost \<lparr>prompt_cost_per_1k = 3 / 2, completion_cost_per_1k = 2\<rparr>
             \<lparr>usage_prompt_tokens = 667, usage_completion_tokens = 0\<rparr> * 100\<rceil> / 100 = 101 / 100"
    by (simp add: exact_cost_def)
  have c1: "calculate_cost ''gpt-3.5-turbo'' \<lparr>usage_prompt_tokens = 667, usage_completion_tokens = 0\<rparr>
       = Inr (4548635623644201 / 2 ^ 52)"
    using calculate_cost_spec[of "''gpt-3.5-turbo''"
          "\<lparr>usage_prompt_tokens = 667, usage_completion_tokens = 0\<rparr>", THEN conjunct2, rule_format,
          of "\<lparr>prompt_cost_per_1k = 3 / 2, completion_cost_per_1k = 2\<rparr>"] t1
    unfolding Let_def x round_double_cents(2) by simp
  have c2: "calculate_cost ''gpt-5'' \<lparr>usage_prompt_tokens = 1, usage_completion_tokens = 1\<rparr>
       = Inl (ValueError ''Unsupported model: gpt-5'')"
    using calculate_cost_spec[of "''gpt-5''"
          "\<lparr>usage_prompt_tokens = 1, usage_completion_tokens = 1\<rparr>", THEN conjunct1] t2
    by simp
  show ?thesis by (intro conjI t1 t2 c1 c2)
qed

text \<open>
  Claim C10 as stated fails for 10 prompt tokens of \<^verbatim>\<open>gpt-4\<close>: the exact cost is 0.30,
  already a whole number of cents, and the float returned is the double nearest to 0.30,
  \<open>5404319552844595 / 2^54\<close>, which is below the exact cost.
\<close>

theorem calculate_cost_float_counterexample:
  "map_of PRICING_TABLE ''gpt-4''
     = Some \<lparr>prompt_cost_per_1k = 30, completion_cost_per_1k = 60\<rparr>
   \<and> exact_cost \<lparr>prompt_cost_per_1k = 30, completion_cost_per_1k = 60\<rparr>
        \<lparr>usage_prompt_tokens = 10, usage_completion_tokens = 0\<rparr> = 3 / 10
   \<and> calculate_cost ''gpt-4'' \<lparr>usage_prompt_tokens = 10, usage_completion_tokens = 0\<rparr>
       = Inr (5404319552844595 / 2 ^ 54)
   \<and> \<not> (exact_cost \<lparr>prompt_cost_per_1k = 30, completion_cost_per_1k = 60\<rparr>
            \<lparr>usage_prompt_tokens = 10, usage_completion_tokens = 0\<rparr>
          \<le> 5404319552844595 / 2 ^ 54)"
proof -
  have t: "map_of PRICING_TABLE ''gpt-4''
     = Some \<lparr>prompt_cost_per_1k = 30, completion_cost_per_1k = 60\<rparr>"
    by (simp add: PRICING_TABLE_def)
  have x: "exact_cost \<lparr>prompt_cost_per_1k = 30, completion_cost_per_1k = 60\<rparr>
        \<lparr>usage_prompt_tokens = 10, usage_completion_tokens = 0\<rparr> = 3 / 10"
    by (simp add: exact_cost_def)
  have "calculate_cost ''gpt-4'' \<lparr>usage_prompt_tokens = 10, usage_completion_tokens = 0\<rparr>
       = Inr (round_double (real_of_int \<lceil>(3 / 10 :: real) * 100\<rceil> / 100))"
    using calculate_cost_value(1)[OF t, of "\<lparr>usage_prompt_tokens = 10, usage_completion_tokens = 0\<rparr>"]
    unfolding x by simp
  then have c: "calculate_cost ''gpt-4'' \<lparr>usage_prompt_tokens = 10, usage_completion_tokens = 0\<rparr>
       = Inr (5404319552844595 / 2 ^ 54)"
    using round_double_cents(1) by simp
  have n: "\<not> (exact_cost \<lparr>prompt_cost_per_1k = 30, completion_cost_per_1k = 60\<rparr>
            \<lparr>usage_prompt_tokens = 10, usage_completion_tokens = 0\<rparr>
          \<le> 5404319552844595 / 2 ^ 54)"
    unfolding x by simp
  show ?thesis by (intro conjI t x c n)
qed


section \<open>Anomaly detector\<close>

text \<open>
  Claim C6. Under a \<open>COLD\<close> baseline \<open>detect_anomalies\<close> returns the empty list for every
  current event; no field of the event is looked at, so an event without cost, tokens or
  retry count is accepted too.
\<close>

theorem detect_anomalies_cold:
  "state baseline = COLD \<Longrightarrow> detect_anomalies feat mdl baseline current_event = Inr []"
  by (simp add: detect_anomalies_def)

text \<open>An extreme event and an event with all three fields missing, under a cold baseline.\<close>

theorem detect_anomalies_cold_witness:
  "state cold_baseline = COLD
   \<and> detect_anomalies ''chat'' ''gpt-4'' cold_baseline (usage_event 1000000 9000000 50) = Inr []
   \<and> detect_anomalies ''chat'' ''gpt-4'' cold_baseline blank_event = Inr []"
  using detect_anomalies_cold[of cold_baseline "''chat''" "''gpt-4''" "usage_event 1000000 9000000 50"]
    detect_anomalies_cold[of cold_baseline "''chat''" "''gpt-4''" blank_event]
  by (simp add: cold_baseline_def)

text \<open>The two literals, and how far the rounded products are from the exact ones.\<close>

lemma literal_values:
  "literal_1_7 = 7656119366529843 / 2 ^ 52"
  "literal_1_3 = 5854679515581645 / 2 ^ 52"
  unfolding literal_1_7_def literal_1_3_def
  by (simp_all add: round_double_def round_sig_def floor_exponent_def exponent_down.simps
      exponent_up.simps round_half_even_def Let_def)

lemma double_limit_large: "10 ^ 102 \<le> double_limit"
proof -
  have "(10::real) ^ 102 \<le> 2 ^ 400" by simp
  also have "(2::real) ^ 400 \<le> 2 ^ 1024" by (rule power_increasing) simp_all
  finally show ?thesis by (simp only: double_limit_def)
qed

lemma fl_round_zero: "fl_round 0 = Fl 0"
  using fl_round_small[of 0] by (simp add: round_double_def round_sig_def)

lemma fl_round_bounded:
  assumes "1 / 10 ^ 100 \<le> x" "x \<le> 10 ^ 101"
  shows "\<exists>t. fl_round x = Fl t \<and> \<bar>t - x\<bar> \<le> x / 2 ^ 53"
proof -
  have x0: "0 < x"
  proof -
    have "(0::real) < 1 / 10 ^ 100" by simp
    then show ?thesis using assms(1) by linarith
  qed
  have "2 powi (- 1022) \<le> \<bar>x\<bar>" using assms(1) by (rule normal_range)
  then have "\<bar>round_double x - x\<bar> \<le> \<bar>x\<bar> / 2 ^ 53" by (rule round_double_error)
  then have e: "\<bar>round_double x - x\<bar> \<le> x / 2 ^ 53" using x0 by simp
  have "x / 2 ^ 53 \<le> x" using x0 by (simp add: field_simps)
  then have "\<bar>round_double x\<bar> \<le> 2 * x" using e x0 by linarith
  also have "\<dots> < 10 ^ 102" using assms(2) by simp
  also have "\<dots> \<le> double_limit" by (rule double_limit_large)
  finally have "fl_round x = Fl (round_double x)" by (rule fl_round_finite)
  then show ?thesis using e by blast
qed

lemma threshold_a_error:
  assumes "(p90 = 0 \<or> 1 / 10 ^ 100 \<le> p90) \<and> p90 \<le> 10 ^ 100"
  shows "\<exists>t. fl_round (p90 * (3 / 2)) = Fl t \<and> \<bar>t - 3 / 2 * p90\<bar> \<le> 3 / 2 * p90 / 2 ^ 53"
proof (cases "p90 = 0")
  case True
  then show ?thesis by (simp add: fl_round_zero)
next
  case False
  then have r: "1 / 10 ^ 100 \<le> p90" "p90 \<le> 10 ^ 100" using assms by auto
  have "\<exists>t. fl_round (p90 * (3 / 2)) = Fl t \<and> \<bar>t - p90 * (3 / 2)\<bar> \<le> p90 * (3 / 2) / 2 ^ 53"
    using r by (intro fl_round_bounded) simp_all
  then show ?thesis by (simp add: mult.commute)
qed

lemma threshold_c_error:
  assumes "(p90 = 0 \<or> 1 / 10 ^ 100 \<le> p90) \<and> p90 \<le> 10 ^ 100"
  shows "\<exists>t. fl_round (p90 * literal_1_3) = Fl t \<and> \<bar>t - 13 / 10 * p90\<bar> \<le> 13 / 10 * p90 / 2 ^ 52"
proof (cases "p90 = 0")
  case True
  then show ?thesis by (simp add: fl_round_zero)
next
  case False
  then have r: "1 / 10 ^ 100 \<le> p90" "p90 \<le> 10 ^ 100" using assms by auto
  define x where "x = p90 * (5854679515581645 / 2 ^ 52)"
  have p0: "0 < p90"
  proof -
    have "(0::real) < 1 / 10 ^ 100" by simp
    then show ?thesis using r(1) by linarith
  qed
  have lo: "p90 \<le> x" and hi: "x \<le> 2 * p90" using p0 by (simp_all add: x_def)
  have x1: "1 / 10 ^ 100 \<le> x" using r(1) lo by linarith
  have x2: "x \<le> 10 ^ 101" using r(2) hi by simp
  from fl_round_bounded[OF x1 x2] obtain t where
    t: "fl_round x = Fl t" and e: "\<bar>t - x\<bar> \<le> x / 2 ^ 53" by blast
  have u: "t \<le> x + x / 2 ^ 53" "x - x / 2 ^ 53 \<le> t" using e by linarith+
  have d1: "t - 13 / 10 * p90 \<le> 13 / 10 * p90 / 2 ^ 52"
    using u(1) p0 unfolding x_def by (simp add: field_simps)
  have d2: "13 / 10 * p90 - t \<le> 13 / 10 * p90 / 2 ^ 52"
    using u(2) p0 unfolding x_def by (simp add: field_simps)
  have d: "\<bar>t - 13 / 10 * p90\<bar> \<le> 13 / 10 * p90 / 2 ^ 52"
    using d1 d2 by linarith
  show ?thesis unfolding literal_values using t d by (simp add: x_def)
qed

lemma threshold_b_error:
  assumes "0 \<le> k" "k < 2 ^ 53"
  shows "\<exists>t. fl_round (real_of_int k * literal_1_7) = Fl t
           \<and> \<bar>t - 17 / 10 * real_of_int k\<bar> \<le> 17 / 10 * real_of_int k / 2 ^ 52"
proof (cases "k = 0")
  case True
  then show ?thesis by (simp add: fl_round_zero)
next
  case False
  define y where "y = real_of_int k"
  define x where "x = y * (7656119366529843 / 2 ^ 52)"
  have "1 \<le> k" using False assms(1) by simp
  then have y1: "1 \<le> y" unfolding y_def by (simp only: of_int_1_le_iff)
  have "real_of_int k < real_of_int (2 ^ 53)" using assms(2) by (simp only: of_int_less_iff)
  then have y2: "y < 2 ^ 53" by (simp add: y_def)
  have lo: "y \<le> x" and hi: "x \<le> 2 * y" using y1 by (simp_all add: x_def)
  have x1: "1 / 10 ^ 100 \<le> x"
  proof -
    have "1 / 10 ^ 100 \<le> (1::real)" by simp
    then show ?thesis using y1 lo by linarith
  qed
  have x2: "x \<le> 10 ^ 101" using y2 hi by simp
  from fl_round_bounded[OF x1 x2] obtain t where
    t: "fl_round x = Fl t" and e: "\<bar>t - x\<bar> \<le> x / 2 ^ 53" by blast
  have u: "t \<le> x + x / 2 ^ 53" "x - x / 2 ^ 53 \<le> t" using e by linarith+
  have d1: "t - 17 / 10 * y \<le> 17 / 10 * y / 2 ^ 52"
    using u(1) y1 unfolding x_def by (simp add: field_simps)
  have d2: "17 / 10 * y - t \<le> 17 / 10 * y / 2 ^ 52"
    using u(2) y1 unfolding x_def by (simp add: field_simps)
  have d: "\<bar>t - 17 / 10 * y\<bar> \<le> 17 / 10 * y / 2 ^ 52"
    using d1 d2 by linarith
  show ?thesis unfolding literal_values y_def[symmetric] using t d by (simp add: x_def)
qed

text \<open>
  Under a \<open>WARM\<close> baseline and with ints that convert to floats unchanged, the result is
  the list of the rules that fire, in the order A, B, C.
\<close>

lemma detect_anomalies_warm:
  assumes "state baseline = WARM" and "metrics baseline = Some m"
    and "estimated_cost current_event = Some cost"
    and "total_tokens current_event = Some tokens"
    and "retry_count current_event = Some retries"
    and "\<bar>median_tokens m\<bar> < 2 ^ 53" and "\<bar>retries\<bar> < 2 ^ 53"
  shows "detect_anomalies feat mdl baseline current_event =
    Inr ((if fl_greater (Fl cost) (fl_round (p90_cost m * (3 / 2)))
          then [\<lparr>a_feature = feat, a_model = mdl, a_rule = ''A'', severity = CRITICAL,
                 observed_value = Fl cost, baseline_value = p90_cost m,
                 threshold = fl_round (p90_cost m * (3 / 2)),
                 a_message = CostSpikeMsg cost (p90_cost m) (fl_round (p90_cost m * (3 / 2)))\<rparr>]
          else [])
       @ (if fl_greater (Fl (real_of_int tokens))
               (fl_round (real_of_int (median_tokens m) * literal_1_7))
          then [\<lparr>a_feature = feat, a_model = mdl, a_rule = ''B'', severity = WARNING,
                 observed_value = Fl (real_of_int tokens),
                 baseline_value = real_of_int (median_tokens m),
                 threshold = fl_round (real_of_int (median_tokens m) * literal_1_7),
                 a_message = HighTokenUsageMsg tokens (median_tokens m)
                   (fl_round (real_of_int (median_tokens m) * literal_1_7))\<rparr>]
          else [])
       @ (if retries > 1
             \<and> fl_greater (fl_round (cost * real_of_int retries))
                 (fl_round (p90_cost m * literal_1_3))
          then [\<lparr>a_feature = feat, a_model = mdl, a_rule = ''C'', severity = WARNING,
                 observed_value = fl_round (cost * real_of_int retries),
                 baseline_value = p90_cost m,
                 threshold = fl_round (p90_cost m * literal_1_3),
                 a_message = RetryAmplificationMsg (fl_round (cost * real_of_int retries)) cost
                   retries (fl_round (p90_cost m * literal_1_3)) (p90_cost m)\<rparr>]
          else []))"
proof -
  have w: "(state baseline = COLD) = False" using assms(1) by simp
  have f1: "float_of_int (median_tokens m) = Inr (Fl (real_of_int (median_tokens m)))"
    using assms(6) by (rule float_of_int_small)
  have f2: "float_of_int retries = Inr (Fl (real_of_int retries))"
    using assms(7) by (rule float_of_int_small)
  show ?thesis
    by (simp add: detect_anomalies_def Let_def w assms(2,3,4,5) f1 f2 bind_result_Inr)
qed

text \<open>
  Claim C5, as amended. Under a \<open>WARM\<close> baseline with metrics, for an event with cost,
  tokens and retry count, and with \<open>median_tokens\<close> and the retry count below \<open>2^53\<close> in
  absolute value (so that their conversion to a float is exact), \<open>detect_anomalies\<close>
  returns a list in which rule A occurs iff the cost is greater than the float product
  \<^verbatim>\<open>p90_cost * 1.5\<close>, rule B iff the token count is greater than the float product
  \<^verbatim>\<open>median_tokens * 1.7\<close>, and rule C iff \<open>retries > 1\<close> and the float product
  \<^verbatim>\<open>estimated_cost * retry_count\<close> is greater than the float product \<^verbatim>\<open>p90_cost * 1.3\<close>,
  all strict. Each float product is the exact product rounded to the nearest double (and
  \<^verbatim>\<open>1.7\<close>, \<^verbatim>\<open>1.3\<close> are the doubles nearest to these decimals). Rule A is \<open>CRITICAL\<close>,
  rules B and C are \<open>WARNING\<close>, every event records its threshold, and rule C records the
  float product \<^verbatim>\<open>estimated_cost * retry_count\<close> as its observed value. For a
  \<open>p90_cost\<close> that is 0 or between \<open>10^-100\<close> and \<open>10^100\<close> the threshold of rule A
  differs from \<open>1.5 \<times> p90_cost\<close> by at most the fraction \<open>2^-53\<close> of it and the threshold
  of rule C from \<open>1.3 \<times> p90_cost\<close> by at most the fraction \<open>2^-52\<close>; for a non-negative
  \<open>median_tokens\<close> the threshold of rule B differs from \<open>1.7 \<times> median_tokens\<close> by at most
  the fraction \<open>2^-52\<close>.
\<close>

theorem detect_anomalies_rules:
  assumes "state baseline = WARM" and "metrics baseline = Some m"
    and "estimated_cost current_event = Some cost"
    and "total_tokens current_event = Some tokens"
    and "retry_count current_event = Some retries"
    and "\<bar>median_tokens m\<bar> < 2 ^ 53" and "\<bar>retries\<bar> < 2 ^ 53"
  shows
    "(let threshold_a = fl_round (p90_cost m * (3 / 2));
          threshold_b = fl_round (real_of_int (median_tokens m) * round_double (17 / 10));
          threshold_c = fl_round (p90_cost m * round_double (13 / 10));
          total_cost = fl_round (cost * real_of_int retries)
      in (\<exists>found. detect_anomalies feat mdl baseline current_event = Inr found
           \<and> ((\<exists>a \<in> set found. a_rule a = ''A'') \<longleftrightarrow> fl_greater (Fl cost) threshold_a)
           \<and> ((\<exists>a \<in> set found. a_rule a = ''B'')
                \<longleftrightarrow> fl_greater (Fl (real_of_int tokens)) threshold_b)
           \<and> ((\<exists>a \<in> set found. a_rule a = ''C'')
                \<longleftrightarrow> retries > 1 \<and> fl_greater total_cost threshold_c)
           \<and> (\<forall>a \<in> set found. a_rule a = ''A'' \<longrightarrow>
                 severity a = CRITICAL \<and> observed_value a = Fl cost
                 \<and> baseline_value a = p90_cost m \<and> threshold a = threshold_a)
           \<and> (\<forall>a \<in> set found. a_rule a = ''B'' \<longrightarrow>
                 severity a = WARNING \<and> observed_value a = Fl (real_of_int tokens)
                 \<and> baseline_value a = real_of_int (median_tokens m)
                 \<and> threshold a = threshold_b)
           \<and> (\<forall>a \<in> set found. a_rule a = ''C'' \<longrightarrow>
                 severity a = WARNING \<and> observed_value a = total_cost
                 \<and> baseline_value a = p90_cost m \<and> threshold a = threshold_c)
           \<and> (\<forall>a \<in> set found. a_rule a = ''A'' \<or> a_rule a = ''B'' \<or> a_rule a = ''C''))
         \<and> ((p90_cost m = 0 \<or> 1 / 10 ^ 100 \<le> p90_cost m) \<and> p90_cost m \<le> 10 ^ 100 \<longrightarrow>
               (\<exists>t. threshold_a = Fl t
                  \<and> \<bar>t - 3 / 2 * p90_cost m\<bar> \<le> 3 / 2 * p90_cost m / 2 ^ 53)
             \<and> (\<exists>t. threshold_c = Fl t
                  \<and> \<bar>t - 13 / 10 * p90_cost m\<bar> \<le> 13 / 10 * p90_cost m / 2 ^ 52))
         \<and> (0 \<le> median_tokens m \<longrightarrow>
               (\<exists>t. threshold_b = Fl t
                  \<and> \<bar>t - 17 / 10 * real_of_int (median_tokens m)\<bar>
                      \<le> 17 / 10 * real_of_int (median_tokens m) / 2 ^ 52)))"
proof -
  note w = detect_anomalies_warm[OF assms, of feat mdl]
  have ea: "(p90_cost m = 0 \<or> 1 / 10 ^ 100 \<le> p90_cost m) \<and> p90_cost m \<le> 10 ^ 100 \<longrightarrow>
      (\<exists>t. fl_round (p90_cost m * (3 / 2)) = Fl t
         \<and> \<bar>t - 3 / 2 * p90_cost m\<bar> \<le> 3 / 2 * p90_cost m / 2 ^ 53)
    \<and> (\<exists>t. fl_round (p90_cost m * literal_1_3) = Fl t
         \<and> \<bar>t - 13 / 10 * p90_cost m\<bar> \<le> 13 / 10 * p90_cost m / 2 ^ 52)"
    using threshold_a_error[of "p90_cost m"] threshold_c_error[of "p90_cost m"] by blast
  have eb: "0 \<le> median_tokens m \<longrightarrow>
      (\<exists>t. fl_round (real_of_int (median_tokens m) * literal_1_7) = Fl t
         \<and> \<bar>t - 17 / 10 * real_of_int (median_tokens m)\<bar>
             \<le> 17 / 10 * real_of_int (median_tokens m) / 2 ^ 52)"
    using threshold_b_error[of "median_tokens m"] assms(6) by auto
  show ?thesis
    unfolding Let_def literal_1_7_def[symmetric] literal_1_3_def[symmetric]
    apply (intro conjI)
    subgoal unfolding w by auto
    subgoal by (rule ea)
    subgoal by (rule eb)
    done
qed

lemma warm_thresholds:
  "fl_round (10 * (3 / 2)) = Fl 15"
  "fl_round (1000 * literal_1_7) = Fl 1700"
  "fl_round (10 * literal_1_3) = Fl 13"
  "fl_round 15 = Fl 15"
  "fl_round 16 = Fl 16"
proof -
  have r: "round_double (10 * (3 / 2)) = 15" "round_double (1000 * literal_1_7) = 1700"
    "round_double (10 * literal_1_3) = 13" "round_double 15 = 15" "round_double 16 = 16"
    unfolding literal_values
    by (simp_all add: round_double_def round_sig_def floor_exponent_def exponent_down.simps
        exponent_up.simps round_half_even_def Let_def)
  show "fl_round (10 * (3 / 2)) = Fl 15" by (rule fl_round_value[OF r(1)]) simp
  show "fl_round (1000 * literal_1_7) = Fl 1700" by (rule fl_round_value[OF r(2)]) simp
  show "fl_round (10 * literal_1_3) = Fl 13" by (rule fl_round_value[OF r(3)]) simp
  show "fl_round 15 = Fl 15" by (rule fl_round_value[OF r(4)]) simp
  show "fl_round 16 = Fl 16" by (rule fl_round_value[OF r(5)]) simp
qed

lemma warm_baseline_facts:
  "state warm_baseline = WARM"
  "metrics warm_baseline
     = Some \<lparr>median_cost = 5, p90_cost = 10, median_tokens = 1000, sample_count = 25\<rparr>"
  by (simp_all add: warm_baseline_def)

lemma usage_event_fields:
  "estimated_cost (usage_event c t r) = Some c"
  "total_tokens (usage_event c t r) = Some t"
  "retry_count (usage_event c t r) = Some r"
  by (simp_all add: usage_event_def)

lemma warm_examples:
  "detect_anomalies ''chat'' ''gpt-4'' warm_baseline (usage_event 8 1800 2)
       = Inr [\<lparr>a_feature = ''chat'', a_model = ''gpt-4'', a_rule = ''B'', severity = WARNING,
               observed_value = Fl 1800, baseline_value = 1000, threshold = Fl 1700,
               a_message = HighTokenUsageMsg 1800 1000 (Fl 1700)\<rparr>,
              \<lparr>a_feature = ''chat'', a_model = ''gpt-4'', a_rule = ''C'', severity = WARNING,
               observed_value = Fl 16, baseline_value = 10, threshold = Fl 13,
               a_message = RetryAmplificationMsg (Fl 16) 8 2 (Fl 13) 10\<rparr>]"
  "detect_anomalies ''chat'' ''gpt-4'' warm_baseline (usage_event 15 1700 1) = Inr []"
  "detect_anomalies ''chat'' ''gpt-4'' warm_baseline (usage_event 16 1700 1)
       = Inr [\<lparr>a_feature = ''chat'', a_model = ''gpt-4'', a_rule = ''A'', severity = CRITICAL,
               observed_value = Fl 16, baseline_value = 10, threshold = Fl 15,
               a_message = CostSpikeMsg 16 10 (Fl 15)\<rparr>]"
proof -
  have b: "\<bar>median_tokens \<lparr>median_cost = 5, p90_cost = 10, median_tokens = 1000, sample_count = 25\<rparr>\<bar>
           < 2 ^ 53" by simp
  have r: "\<bar>2::int\<bar> < 2 ^ 53" "\<bar>1::int\<bar> < 2 ^ 53" by simp_all
  note w = detect_anomalies_warm[OF warm_baseline_facts usage_event_fields b]
  show "detect_anomalies ''chat'' ''gpt-4'' warm_baseline (usage_event 8 1800 2)
       = Inr [\<lparr>a_feature = ''chat'', a_model = ''gpt-4'', a_rule = ''B'', severity = WARNING,
               observed_value = Fl 1800, baseline_value = 1000, threshold = Fl 1700,
               a_message = HighTokenUsageMsg 1800 1000 (Fl 1700)\<rparr>,
              \<lparr>a_feature = ''chat'', a_model = ''gpt-4'', a_rule = ''C'', severity = WARNING,
               observed_value = Fl 16, baseline_value = 10, threshold = Fl 13,
               a_message = RetryAmplificationMsg (Fl 16) 8 2 (Fl 13) 10\<rparr>]"
    unfolding w[OF r(1)] by (simp add: warm_thresholds)
  show "detect_anomalies ''chat'' ''gpt-4'' warm_baseline (usage_event 15 1700 1) = Inr []"
    unfolding w[OF r(2)] by (simp add: warm_thresholds)
  show "detect_anomalies ''chat'' ''gpt-4'' warm_baseline (usage_event 16 1700 1)
       = Inr [\<lparr>a_feature = ''chat'', a_model = ''gpt-4'', a_rule = ''A'', severity = CRITICAL,
               observed_value = Fl 16, baseline_value = 10, threshold = Fl 15,
               a_message = CostSpikeMsg 16 10 (Fl 15)\<rparr>]"
    unfolding w[OF r(2)] by (simp add: warm_thresholds)
qed

lemma dime_values:
  "round_double (1 / 10) = double_0_1"
  "round_double double_0_1 = double_0_1"
  "round_double double_above_0_15 = double_above_0_15"
  "round_double (double_0_1 * (3 / 2)) = double_above_0_15"
  "round_double (1000 * literal_1_7) = 1700"
  unfolding double_0_1_def double_above_0_15_def literal_values
  by (simp_all add: round_double_def round_sig_def floor_exponent_def exponent_down.simps
      exponent_up.simps round_half_even_def Let_def)


lemma dime_baseline_facts:
  "state dime_baseline = WARM"
  "metrics dime_baseline
     = Some \<lparr>median_cost = double_0_1, p90_cost = double_0_1, median_tokens = 1000,
             sample_count = 25\<rparr>"
  by (simp_all add: dime_baseline_def)

lemma dime_no_anomaly:
  "detect_anomalies ''chat'' ''gpt-4'' dime_baseline (usage_event double_above_0_15 100 0) = Inr []"
proof -
  have b: "\<bar>median_tokens \<lparr>median_cost = double_0_1, p90_cost = double_0_1,
             median_tokens = 1000, sample_count = 25\<rparr>\<bar> < 2 ^ 53" by simp
  have r: "\<bar>0::int\<bar> < 2 ^ 53" by simp
  have ta: "fl_round (double_0_1 * (3 / 2)) = Fl double_above_0_15"
    by (rule fl_round_value[OF dime_values(4)]) (simp add: double_above_0_15_def)
  have tb: "fl_round (1000 * literal_1_7) = Fl 1700"
    by (rule fl_round_value[OF dime_values(5)]) simp
  have ta': "fl_round (double_0_1 * 3 / 2) = Fl double_above_0_15" using ta by simp
  show ?thesis
    unfolding detect_anomalies_warm[OF dime_baseline_facts usage_event_fields b r]
    by (simp add: ta' tb)
qed

text \<open>
  With \<open>p90_cost = 10\<close> and \<open>median_tokens = 1000\<close> the float thresholds are 15, 1700 and
  13: cost 8 with 2 retries and 1800 tokens fires rules B and C (observed 16 against the
  threshold 13) and not rule A; cost 15 and 1700 tokens, equal to the thresholds, fire
  nothing; cost 16 fires rule A.
\<close>

theorem detect_anomalies_rules_witness:
  "state warm_baseline = WARM
   \<and> metrics warm_baseline
       = Some \<lparr>median_cost = 5, p90_cost = 10, median_tokens = 1000, sample_count = 25\<rparr>
   \<and> estimated_cost (usage_event 8 1800 2) = Some 8
   \<and> total_tokens (usage_event 8 1800 2) = Some 1800
   \<and> retry_count (usage_event 8 1800 2) = Some 2
   \<and> \<bar>1000 :: int\<bar> < 2 ^ 53 \<and> \<bar>2 :: int\<bar> < 2 ^ 53
   \<and> (\<exists>found. detect_anomalies ''chat'' ''gpt-4'' warm_baseline (usage_event 8 1800 2) = Inr found
        \<and> found \<noteq> [])
   \<and> detect_anomalies ''chat'' ''gpt-4'' warm_baseline (usage_event 8 1800 2)
       = Inr [\<lparr>a_feature = ''chat'', a_model = ''gpt-4'', a_rule = ''B'', severity = WARNING,
               observed_value = Fl 1800, baseline_value = 1000, threshold = Fl 1700,
               a_message = HighTokenUsageMsg 1800 1000 (Fl 1700)\<rparr>,
              \<lparr>a_feature = ''chat'', a_model = ''gpt-4'', a_rule = ''C'', severity = WARNING,
               observed_value = Fl 16, baseline_value = 10, threshold = Fl 13,
               a_message = RetryAmplificationMsg (Fl 16) 8 2 (Fl 13) 10\<rparr>]
   \<and> detect_anomalies ''chat'' ''gpt-4'' warm_baseline (usage_event 15 1700 1) = Inr []
   \<and> detect_anomalies ''chat'' ''gpt-4'' warm_baseline (usage_event 16 1700 1)
       = Inr [\<lparr>a_feature = ''chat'', a_model = ''gpt-4'', a_rule = ''A'', severity = CRITICAL,
               observed_value = Fl 16, baseline_value = 10, threshold = Fl 15,
               a_message = CostSpikeMsg 16 10 (Fl 15)\<rparr>]"
proof -
  have b: "\<bar>median_tokens \<lparr>median_cost = 5, p90_cost = 10, median_tokens = 1000, sample_count = 25\<rparr>\<bar>
           < 2 ^ 53" by simp
  have b1: "\<bar>1000 :: int\<bar> < 2 ^ 53" and b2: "\<bar>2 :: int\<bar> < 2 ^ 53" by simp_all
  note t = detect_anomalies_rules[OF warm_baseline_facts usage_event_fields[of 8 1800 2] b b2,
      where feat = "''chat''" and mdl = "''gpt-4''", unfolded Let_def, THEN conjunct1]
  from t obtain found where
    f: "detect_anomalies ''chat'' ''gpt-4'' warm_baseline (usage_event 8 1800 2) = Inr found"
    and rc: "(\<exists>a \<in> set found. a_rule a = ''C'')
             \<longleftrightarrow> (2::int) > 1
                 \<and> fl_greater (fl_round (8 * real_of_int 2))
                      (fl_round (p90_cost \<lparr>median_cost = 5, p90_cost = 10, median_tokens = 1000,
                                   sample_count = 25\<rparr> * round_double (13 / 10)))"
    by (elim exE conjE)
  have "fl_greater (fl_round (8 * real_of_int 2)) (fl_round (10 * literal_1_3))"
    by (simp add: warm_thresholds)
  then have "\<exists>a \<in> set found. a_rule a = ''C''" using rc by (simp add: literal_1_3_def)
  then have ne: "found \<noteq> []" by auto
  have c: "\<exists>found. detect_anomalies ''chat'' ''gpt-4'' warm_baseline (usage_event 8 1800 2) = Inr found
        \<and> found \<noteq> []"
    using f ne by (intro exI[of _ found] conjI)
  show ?thesis
    by (intro conjI warm_baseline_facts usage_event_fields b1 b2 c warm_examples)
qed

text \<open>
  Claim C5 as stated fails where the float product is rounded up. With \<open>p90_cost\<close> the
  double \<^verbatim>\<open>0.1\<close> the product \<^verbatim>\<open>p90_cost * 1.5\<close> lies halfway between two doubles and is
  rounded to the upper one, \<^verbatim>\<open>0.15000000000000002\<close>. An event with exactly that cost is
  above \<open>1.5 \<times> p90_cost\<close>, and rule A does not fire.
\<close>

theorem detect_anomalies_rounding_counterexample:
  "state dime_baseline = WARM
   \<and> metrics dime_baseline
       = Some \<lparr>median_cost = double_0_1, p90_cost = double_0_1, median_tokens = 1000,
               sample_count = 25\<rparr>
   \<and> round_double (1 / 10) = double_0_1
   \<and> round_double double_above_0_15 = double_above_0_15
   \<and> double_above_0_15 > 3 / 2 * double_0_1
   \<and> detect_anomalies ''chat'' ''gpt-4'' dime_baseline (usage_event double_above_0_15 100 0) = Inr []"
proof -
  have g: "double_above_0_15 > 3 / 2 * double_0_1"
    by (simp add: double_above_0_15_def double_0_1_def)
  show ?thesis
    by (intro conjI dime_baseline_facts dime_values(1) dime_values(3) g dime_no_anomaly)
qed


section \<open>Guardrail enforcer\<close>

lemma action_value_inj: "action_value a = action_value b \<Longrightarrow> a = b"
  by (cases a; cases b) simp_all

lemma action_value_le_BLOCK: "action_value a \<le> action_value BLOCK"
  by (cases a) simp_all

lemma update_action_fst:
  "fst (update_action st a msg)
   = (if action_value a > action_value (fst st) then a else fst st)"
  by (simp add: update_action_def)

lemma update_action_BLOCK_fixed: "fst st = BLOCK \<Longrightarrow> update_action st a msg = st"
  using action_value_le_BLOCK[of a] by (simp add: update_action_def)

lemma anomaly_step:
  "(if severity anomaly = CRITICAL
    then update_action st (on_critical_anomaly config) (CriticalAnomalyMsg feat mdl (a_message anomaly))
    else if severity anomaly = WARNING
    then update_action st (on_warning_anomaly config) (WarningAnomalyMsg feat mdl (a_message anomaly))
    else st)
   = update_action st (anomaly_action config anomaly)
       (case severity anomaly of
          CRITICAL \<Rightarrow> CriticalAnomalyMsg feat mdl (a_message anomaly)
        | WARNING \<Rightarrow> WarningAnomalyMsg feat mdl (a_message anomaly))"
  by (cases "severity anomaly") (simp_all add: anomaly_action_def)

lemma check_anomalies_BLOCK_fixed:
  "fst st = BLOCK \<Longrightarrow> check_anomalies feat mdl config anoms st = st"
  by (induction anoms arbitrary: st) (simp_all add: anomaly_step update_action_BLOCK_fixed)

lemma check_anomalies_mem:
  "fst (check_anomalies feat mdl config anoms st)
   \<in> insert (fst st) (set (map (anomaly_action config) anoms))"
proof (induction anoms arbitrary: st)
  case Nil
  show ?case by simp
next
  case (Cons anomaly rest)
  let ?st' = "update_action st (anomaly_action config anomaly)
       (case severity anomaly of
          CRITICAL \<Rightarrow> CriticalAnomalyMsg feat mdl (a_message anomaly)
        | WARNING \<Rightarrow> WarningAnomalyMsg feat mdl (a_message anomaly))"
  have "fst (check_anomalies feat mdl config rest ?st')
        \<in> insert (fst ?st') (set (map (anomaly_action config) rest))"
    by (rule Cons.IH)
  moreover have "fst ?st' = fst st \<or> fst ?st' = anomaly_action config anomaly"
    by (simp add: update_action_fst)
  ultimately show ?case
    by (simp only: check_anomalies.simps anomaly_step) auto
qed

lemma check_anomalies_ge:
  "action_value (fst st) \<le> action_value (fst (check_anomalies feat mdl config anoms st))
   \<and> (\<forall>a \<in> set anoms.
         action_value (anomaly_action config a)
         \<le> action_value (fst (check_anomalies feat mdl config anoms st)))"
proof (induction anoms arbitrary: st)
  case Nil
  show ?case by simp
next
  case (Cons anomaly rest)
  let ?st' = "update_action st (anomaly_action config anomaly)
       (case severity anomaly of
          CRITICAL \<Rightarrow> CriticalAnomalyMsg feat mdl (a_message anomaly)
        | WARNING \<Rightarrow> WarningAnomalyMsg feat mdl (a_message anomaly))"
  have ih: "action_value (fst ?st') \<le> action_value (fst (check_anomalies feat mdl config rest ?st'))
     \<and> (\<forall>a \<in> set rest.
         action_value (anomaly_action config a)
         \<le> action_value (fst (check_anomalies feat mdl config rest ?st')))"
    by (rule Cons.IH)
  have s1: "action_value (fst st) \<le> action_value (fst ?st')"
    by (simp add: update_action_fst)
  have s2: "action_value (anomaly_action config anomaly) \<le> action_value (fst ?st')"
    by (simp add: update_action_fst)
  have eq: "check_anomalies feat mdl config (anomaly # rest) st
            = check_anomalies feat mdl config rest ?st'"
    by (simp only: check_anomalies.simps anomaly_step)
  show ?case unfolding eq using ih s1 s2 by auto
qed

lemma check_budget_fst:
  "fst (check_budget feat config budget_state st)
   = (if budget_limit config \<noteq> None \<and> amount_le_zero (amount_remaining budget_state)
         \<and> action_value (on_budget_breach config) > action_value (fst st)
      then on_budget_breach config else fst st)"
  by (auto simp add: check_budget_def update_action_fst split: option.splits)

lemma check_budget_BLOCK_fixed: "fst st = BLOCK \<Longrightarrow> check_budget feat config budget_state st = st"
  by (simp add: check_budget_def update_action_BLOCK_fixed split: option.splits)

lemma check_max_cost_result:
  "check_max_cost feat mdl config current_event (ALLOW, EmptyMsg)
   = (if max_cost_per_request config \<noteq> None \<and> estimated_cost current_event = None
      then Inl TypeError
      else if ceiling_exceeded config current_event
      then Inr (BLOCK, RequestCostMsg (the (estimated_cost current_event))
                  (the (max_cost_per_request config)) feat mdl)
      else Inr (ALLOW, EmptyMsg))"
  by (auto simp add: check_max_cost_def ceiling_exceeded_def update_action_def split: option.splits)

lemma resolve_action_error:
  "resolve_action feat mdl config baseline current_event anoms budget_state = Inl e
   \<Longrightarrow> e = TypeError \<and> max_cost_per_request config \<noteq> None \<and> estimated_cost current_event = None"
  by (auto simp add: resolve_action_def bind_result_def check_max_cost_result Let_def
      split: if_splits)

lemma resolve_action_total:
  assumes "max_cost_per_request config = None \<or> estimated_cost current_event \<noteq> None"
  shows "\<exists>a msg. resolve_action feat mdl config baseline current_event anoms budget_state = Inr (a, msg)"
proof (cases "resolve_action feat mdl config baseline current_event anoms budget_state")
  case (Inl e)
  then show ?thesis using resolve_action_error[OF Inl] assms by auto
next
  case (Inr st)
  then show ?thesis by (cases st) auto
qed

lemma resolve_action_maximum:
  assumes "resolve_action feat mdl config baseline current_event anoms budget_state = Inr (a, msg)"
  shows "a \<in> set (ALLOW # candidate_actions config baseline current_event anoms budget_state)"
    and "\<forall>c \<in> set (candidate_actions config baseline current_event anoms budget_state).
           action_value c \<le> action_value a"
proof -
  define st1 where "st1 = (if ceiling_exceeded config current_event
      then (BLOCK, RequestCostMsg (the (estimated_cost current_event))
                  (the (max_cost_per_request config)) feat mdl)
      else (ALLOW, EmptyMsg))"
  define st2 where "st2 = check_budget feat config budget_state st1"
  define st3 where "st3 = (if state baseline = WARM
                   then check_anomalies feat mdl config anoms st2 else st2)"
  have c1: "check_max_cost feat mdl config current_event (ALLOW, EmptyMsg) = Inr st1"
    using assms
    by (auto simp add: resolve_action_def bind_result_def check_max_cost_result st1_def
        split: if_splits)
  have r: "(a, msg) = st3"
    using assms unfolding resolve_action_def c1
    by (auto simp add: bind_result_def Let_def st2_def st3_def split: if_splits)
  have a: "a = fst st3" using r by (metis fst_conv)
  have f1: "fst st1 = (if ceiling_exceeded config current_event then BLOCK else ALLOW)"
    by (simp add: st1_def)
  have f2: "fst st2 = (if budget_limit config \<noteq> None \<and> amount_le_zero (amount_remaining budget_state)
         \<and> action_value (on_budget_breach config) > action_value (fst st1)
      then on_budget_breach config else fst st1)"
    unfolding st2_def by (rule check_budget_fst)
  have m3: "state baseline = WARM \<Longrightarrow>
     fst st3 \<in> insert (fst st2) (set (map (anomaly_action config) anoms))"
    unfolding st3_def using check_anomalies_mem[of feat mdl config anoms st2] by simp
  have g3: "state baseline = WARM \<Longrightarrow>
     action_value (fst st2) \<le> action_value (fst st3)
     \<and> (\<forall>x \<in> set anoms. action_value (anomaly_action config x) \<le> action_value (fst st3))"
    unfolding st3_def using check_anomalies_ge[of st2 feat mdl config anoms] by simp
  have n3: "state baseline \<noteq> WARM \<Longrightarrow> st3 = st2" by (simp add: st3_def)
  show "a \<in> set (ALLOW # candidate_actions config baseline current_event anoms budget_state)"
  proof (cases "state baseline = WARM")
    case True
    then show ?thesis using m3[OF True] f1 f2 unfolding a candidate_actions_def
      by (auto split: if_splits)
  next
    case False
    then show ?thesis using n3[OF False] f1 f2 unfolding a candidate_actions_def
      by (auto split: if_splits)
  qed
  show "\<forall>c \<in> set (candidate_actions config baseline current_event anoms budget_state).
           action_value c \<le> action_value a"
  proof (cases "state baseline = WARM")
    case True
    then show ?thesis using g3[OF True] f1 f2 action_value_le_BLOCK unfolding a candidate_actions_def
      by (auto split: if_splits)
  next
    case False
    then show ?thesis using n3[OF False] f1 f2 action_value_le_BLOCK unfolding a candidate_actions_def
      by (auto split: if_splits)
  qed
qed

lemma resolve_action_ceiling:
  assumes "max_cost_per_request config = Some limit" "estimated_cost current_event = Some cost"
    and "cost > limit"
  shows "resolve_action feat mdl config baseline current_event anoms budget_state
         = Inr (BLOCK, RequestCostMsg cost limit feat mdl)"
  using assms
  by (simp add: resolve_action_def bind_result_def check_max_cost_def update_action_def Let_def
      check_budget_BLOCK_fixed check_anomalies_BLOCK_fixed)


lemma enforce_guardrails_of_resolved:
  assumes "resolve_action feat mdl config baseline current_event anoms budget_state = Inr (a, msg)"
  shows "enforce_guardrails feat mdl config baseline current_event anoms budget_state
         = (if a = BLOCK \<or> a = THROTTLE then Inl (GuardrailViolation msg a) else Inr a)"
  using assms by (simp add: enforce_guardrails_def bind_result_def)

lemma enforce_guardrails_of_error:
  assumes "resolve_action feat mdl config baseline current_event anoms budget_state = Inl e"
  shows "enforce_guardrails feat mdl config baseline current_event anoms budget_state = Inl TypeError"
  using assms resolve_action_error[OF assms] by (simp add: enforce_guardrails_def bind_result_def)

lemma enforce_guardrails_outcome:
  assumes "enforce_guardrails feat mdl config baseline current_event anoms budget_state = Inr a
           \<or> (\<exists>msg. enforce_guardrails feat mdl config baseline current_event anoms budget_state
                 = Inl (GuardrailViolation msg a))"
  shows "\<exists>msg. resolve_action feat mdl config baseline current_event anoms budget_state = Inr (a, msg)"
proof (cases "resolve_action feat mdl config baseline current_event anoms budget_state")
  case (Inl e)
  then show ?thesis using assms enforce_guardrails_of_error[OF Inl] by auto
next
  case (Inr st)
  obtain a' msg' where st: "st = (a', msg')" by (cases st) auto
  have "resolve_action feat mdl config baseline current_event anoms budget_state = Inr (a', msg')"
    using Inr st by simp
  from enforce_guardrails_of_resolved[OF this] assms have "a' = a"
    by (auto split: if_splits)
  then show ?thesis using Inr st by auto
qed

text \<open>
  Claim C1. The action \<open>enforce_guardrails\<close> resolves, whether it returns it or raises it
  in a violation, is one of \<open>ALLOW\<close> and the candidate actions of the three checks, and no
  candidate is more severe: it is the maximum of the candidates, and \<open>ALLOW\<close> when there
  is none. An action is resolved whenever the ceiling comparison can be evaluated (no
  limit, or a cost to compare). A cost strictly above the configured limit makes
  \<open>BLOCK\<close> a candidate and the call fail with a \<open>BLOCK\<close> violation whose message is that
  of the ceiling check, whatever the budget, the anomalies and the configured actions.
\<close>

theorem enforce_guardrails_maximum:
  "(max_cost_per_request config = None \<or> estimated_cost current_event \<noteq> None \<longrightarrow>
      (\<exists>a. enforce_guardrails feat mdl config baseline current_event anoms budget_state = Inr a
          \<or> (\<exists>msg. enforce_guardrails feat mdl config baseline current_event anoms budget_state
                = Inl (GuardrailViolation msg a))))
   \<and> (\<forall>a. (enforce_guardrails feat mdl config baseline current_event anoms budget_state = Inr a
          \<or> (\<exists>msg. enforce_guardrails feat mdl config baseline current_event anoms budget_state
                = Inl (GuardrailViolation msg a))) \<longrightarrow>
         a \<in> set (ALLOW # candidate_actions config baseline current_event anoms budget_state)
       \<and> (\<forall>c \<in> set (candidate_actions config baseline current_event anoms budget_state).
             action_value c \<le> action_value a))
   \<and> (\<forall>limit cost.
         max_cost_per_request config = Some limit \<and> estimated_cost current_event = Some cost
         \<and> cost > limit \<longrightarrow>
           BLOCK \<in> set (candidate_actions config baseline current_event anoms budget_state)
         \<and> enforce_guardrails feat mdl config baseline current_event anoms budget_state
             = Inl (GuardrailViolation (RequestCostMsg cost limit feat mdl) BLOCK))"
proof (intro conjI allI impI)
  assume "max_cost_per_request config = None \<or> estimated_cost current_event \<noteq> None"
  from resolve_action_total[OF this] obtain a msg where
    r: "resolve_action feat mdl config baseline current_event anoms budget_state = Inr (a, msg)"
    by blast
  show "\<exists>a. enforce_guardrails feat mdl config baseline current_event anoms budget_state = Inr a
          \<or> (\<exists>msg. enforce_guardrails feat mdl config baseline current_event anoms budget_state
                = Inl (GuardrailViolation msg a))"
    using enforce_guardrails_of_resolved[OF r] by (intro exI[of _ a]) auto
next
  fix a
  assume o: "enforce_guardrails feat mdl config baseline current_event anoms budget_state = Inr a
          \<or> (\<exists>msg. enforce_guardrails feat mdl config baseline current_event anoms budget_state
                = Inl (GuardrailViolation msg a))"
  from enforce_guardrails_outcome[OF o] obtain msg where
    r: "resolve_action feat mdl config baseline current_event anoms budget_state = Inr (a, msg)"
    by blast
  show "a \<in> set (ALLOW # candidate_actions config baseline current_event anoms budget_state)"
    using resolve_action_maximum(1)[OF r] .
  show "\<forall>c \<in> set (candidate_actions config baseline current_event anoms budget_state).
          action_value c \<le> action_value a"
    using resolve_action_maximum(2)[OF r] .
next
  fix limit cost
  assume h: "max_cost_per_request config = Some limit \<and> estimated_cost current_event = Some cost
         \<and> cost > limit"
  then show "BLOCK \<in> set (candidate_actions config baseline current_event anoms budget_state)"
    by (simp add: candidate_actions_def ceiling_exceeded_def)
  from h have r: "resolve_action feat mdl config baseline current_event anoms budget_state
         = Inr (BLOCK, RequestCostMsg cost limit feat mdl)"
    by (simp add: resolve_action_ceiling)
  show "enforce_guardrails feat mdl config baseline current_event anoms budget_state
             = Inl (GuardrailViolation (RequestCostMsg cost limit feat mdl) BLOCK)"
    using enforce_guardrails_of_resolved[OF r] by simp
qed

text \<open>
  A cost of 2 against a limit of 1, together with a warning anomaly configured to
  \<open>WARN\<close>: the candidates are \<open>BLOCK\<close> and \<open>WARN\<close> and the call raises \<open>BLOCK\<close>. With
  no candidate the call returns \<open>ALLOW\<close>.
\<close>

theorem enforce_guardrails_maximum_witness:
  "max_cost_per_request ceiling_config = Some 1
   \<and> estimated_cost (usage_event 2 100 0) = Some 2
   \<and> on_warning_anomaly ceiling_config = WARN
   \<and> candidate_actions ceiling_config warm_baseline (usage_event 2 100 0) [warning_anomaly] open_budget
       = [BLOCK, WARN]
   \<and> enforce_guardrails ''chat'' ''gpt-4'' ceiling_config warm_baseline (usage_event 2 100 0)
        [warning_anomaly] open_budget
       = Inl (GuardrailViolation (RequestCostMsg 2 1 ''chat'' ''gpt-4'') BLOCK)
   \<and> candidate_actions default_GuardrailConfig warm_baseline (usage_event 2 100 0) [] open_budget = []
   \<and> enforce_guardrails ''chat'' ''gpt-4'' default_GuardrailConfig warm_baseline (usage_event 2 100 0)
        [] open_budget = Inr ALLOW"
proof -
  have h1: "max_cost_per_request ceiling_config = Some 1"
    by (simp add: ceiling_config_def default_GuardrailConfig_def)
  have h2: "estimated_cost (usage_event 2 100 0) = Some 2" by (simp add: usage_event_def)
  have h3: "on_warning_anomaly ceiling_config = WARN"
    by (simp add: ceiling_config_def default_GuardrailConfig_def)
  have c1: "candidate_actions ceiling_config warm_baseline (usage_event 2 100 0) [warning_anomaly] open_budget
       = [BLOCK, WARN]"
    by (simp add: candidate_actions_def ceiling_exceeded_def anomaly_action_def ceiling_config_def
        default_GuardrailConfig_def warm_baseline_def usage_event_def warning_anomaly_def
        open_budget_def)
  have c2: "candidate_actions default_GuardrailConfig warm_baseline (usage_event 2 100 0) [] open_budget = []"
    by (simp add: candidate_actions_def ceiling_exceeded_def default_GuardrailConfig_def)
  note t1 = enforce_guardrails_maximum[of ceiling_config "usage_event 2 100 0" "''chat''" "''gpt-4''"
      warm_baseline "[warning_anomaly]" open_budget]
  have e1: "enforce_guardrails ''chat'' ''gpt-4'' ceiling_config warm_baseline (usage_event 2 100 0)
        [warning_anomaly] open_budget
       = Inl (GuardrailViolation (RequestCostMsg 2 1 ''chat'' ''gpt-4'') BLOCK)"
    using t1 h1 h2 by simp
  have e2: "enforce_guardrails ''chat'' ''gpt-4'' default_GuardrailConfig warm_baseline (usage_event 2 100 0)
        [] open_budget = Inr ALLOW"
    by (simp add: enforce_guardrails_def resolve_action_def bind_result_def check_max_cost_def
        check_budget_def default_GuardrailConfig_def warm_baseline_def Let_def)
  show ?thesis using h1 h2 h3 c1 c2 e1 e2 by simp
qed

text \<open>
  Claim C7. With \<open>(a, msg)\<close> the action and message that the three checks resolve,
  \<open>enforce_guardrails\<close> raises a violation carrying exactly \<open>a\<close> and \<open>msg\<close> iff \<open>a\<close>
  is \<open>BLOCK\<close> or \<open>THROTTLE\<close>, and returns \<open>a\<close> as a value when it is \<open>ALLOW\<close>,
  \<open>WARN\<close> or \<open>DOWNGRADE\<close>; it fails iff some candidate action is \<open>BLOCK\<close> or
  \<open>THROTTLE\<close>.
\<close>

theorem enforce_guardrails_violation_iff:
  assumes "resolve_action feat mdl config baseline current_event anoms budget_state = Inr (a, msg)"
  shows "(enforce_guardrails feat mdl config baseline current_event anoms budget_state
            = Inl (GuardrailViolation msg a) \<longleftrightarrow> a = BLOCK \<or> a = THROTTLE)
     \<and> (a = ALLOW \<or> a = WARN \<or> a = DOWNGRADE \<longrightarrow>
          enforce_guardrails feat mdl config baseline current_event anoms budget_state = Inr a)
     \<and> (\<forall>e. enforce_guardrails feat mdl config baseline current_event anoms budget_state = Inl e
            \<longrightarrow> e = GuardrailViolation msg a)
     \<and> (\<forall>a'. enforce_guardrails feat mdl config baseline current_event anoms budget_state = Inr a'
            \<longrightarrow> a' = a \<and> (a = ALLOW \<or> a = WARN \<or> a = DOWNGRADE))
     \<and> ((\<exists>e. enforce_guardrails feat mdl config baseline current_event anoms budget_state = Inl e)
          \<longleftrightarrow> (\<exists>c \<in> set (candidate_actions config baseline current_event anoms budget_state).
                 c = BLOCK \<or> c = THROTTLE))"
proof -
  note e = enforce_guardrails_of_resolved[OF assms]
  have p1: "enforce_guardrails feat mdl config baseline current_event anoms budget_state
            = Inl (GuardrailViolation msg a) \<longleftrightarrow> a = BLOCK \<or> a = THROTTLE"
    unfolding e by simp
  have p2: "a = ALLOW \<or> a = WARN \<or> a = DOWNGRADE \<longrightarrow>
          enforce_guardrails feat mdl config baseline current_event anoms budget_state = Inr a"
    unfolding e by auto
  have p3: "\<forall>e. enforce_guardrails feat mdl config baseline current_event anoms budget_state = Inl e
            \<longrightarrow> e = GuardrailViolation msg a"
    unfolding e by auto
  have p4: "\<forall>a'. enforce_guardrails feat mdl config baseline current_event anoms budget_state = Inr a'
            \<longrightarrow> a' = a \<and> (a = ALLOW \<or> a = WARN \<or> a = DOWNGRADE)"
    unfolding e by (cases a) auto
  have mem: "a \<in> set (ALLOW # candidate_actions config baseline current_event anoms budget_state)"
    using resolve_action_maximum(1)[OF assms] .
  have ge: "\<forall>c \<in> set (candidate_actions config baseline current_event anoms budget_state).
           action_value c \<le> action_value a"
    using resolve_action_maximum(2)[OF assms] .
  have p5: "(\<exists>e. enforce_guardrails feat mdl config baseline current_event anoms budget_state = Inl e)
          \<longleftrightarrow> (\<exists>c \<in> set (candidate_actions config baseline current_event anoms budget_state).
                 c = BLOCK \<or> c = THROTTLE)"
  proof
    assume "\<exists>e. enforce_guardrails feat mdl config baseline current_event anoms budget_state = Inl e"
    then have "a = BLOCK \<or> a = THROTTLE" unfolding e by (auto split: if_splits)
    then show "\<exists>c \<in> set (candidate_actions config baseline current_event anoms budget_state).
                 c = BLOCK \<or> c = THROTTLE"
      using mem by auto
  next
    assume "\<exists>c \<in> set (candidate_actions config baseline current_event anoms budget_state).
                 c = BLOCK \<or> c = THROTTLE"
    then obtain c where c: "c \<in> set (candidate_actions config baseline current_event anoms budget_state)"
      and cv: "c = BLOCK \<or> c = THROTTLE" by blast
    have "action_value c \<le> action_value a" using ge c by blast
    then have "a = BLOCK \<or> a = THROTTLE" using cv by (cases a) auto
    then show "\<exists>e. enforce_guardrails feat mdl config baseline current_event anoms budget_state = Inl e"
      unfolding e by auto
  qed
  show ?thesis using p1 p2 p3 p4 p5 by blast
qed

text \<open>
  A critical anomaly configured to \<open>THROTTLE\<close> raises the violation with the anomaly's
  message; configured to \<open>DOWNGRADE\<close> it is returned as a value.
\<close>

theorem enforce_guardrails_violation_iff_witness:
  "resolve_action ''chat'' ''gpt-4'' throttle_config warm_baseline (usage_event 2 100 0)
      [critical_anomaly] open_budget
     = Inr (THROTTLE, CriticalAnomalyMsg ''chat'' ''gpt-4'' (CostSpikeMsg 16 10 (Fl 15)))
   \<and> enforce_guardrails ''chat'' ''gpt-4'' throttle_config warm_baseline (usage_event 2 100 0)
      [critical_anomaly] open_budget
     = Inl (GuardrailViolation (CriticalAnomalyMsg ''chat'' ''gpt-4'' (CostSpikeMsg 16 10 (Fl 15))) THROTTLE)
   \<and> resolve_action ''chat'' ''gpt-4'' downgrade_config warm_baseline (usage_event 2 100 0)
      [critical_anomaly] open_budget
     = Inr (DOWNGRADE, CriticalAnomalyMsg ''chat'' ''gpt-4'' (CostSpikeMsg 16 10 (Fl 15)))
   \<and> enforce_guardrails ''chat'' ''gpt-4'' downgrade_config warm_baseline (usage_event 2 100 0)
      [critical_anomaly] open_budget = Inr DOWNGRADE"
proof -
  have r1: "resolve_action ''chat'' ''gpt-4'' throttle_config warm_baseline (usage_event 2 100 0)
      [critical_anomaly] open_budget
     = Inr (THROTTLE, CriticalAnomalyMsg ''chat'' ''gpt-4'' (CostSpikeMsg 16 10 (Fl 15)))"
    by (simp add: resolve_action_def bind_result_def check_max_cost_def check_budget_def
        update_action_def throttle_config_def default_GuardrailConfig_def warm_baseline_def
        critical_anomaly_def Let_def)
  have r2: "resolve_action ''chat'' ''gpt-4'' downgrade_config warm_baseline (usage_event 2 100 0)
      [critical_anomaly] open_budget
     = Inr (DOWNGRADE, CriticalAnomalyMsg ''chat'' ''gpt-4'' (CostSpikeMsg 16 10 (Fl 15)))"
    by (simp add: resolve_action_def bind_result_def check_max_cost_def check_budget_def
        update_action_def downgrade_config_def default_GuardrailConfig_def warm_baseline_def
        critical_anomaly_def Let_def)
  have e1: "enforce_guardrails ''chat'' ''gpt-4'' throttle_config warm_baseline (usage_event 2 100 0)
      [critical_anomaly] open_budget
     = Inl (GuardrailViolation (CriticalAnomalyMsg ''chat'' ''gpt-4'' (CostSpikeMsg 16 10 (Fl 15))) THROTTLE)"
    using enforce_guardrails_violation_iff[OF r1, THEN conjunct1] by (rule iffD2) (rule disjI2, rule refl)
  have d: "DOWNGRADE = ALLOW \<or> DOWNGRADE = WARN \<or> DOWNGRADE = DOWNGRADE" by simp
  have e2: "enforce_guardrails ''chat'' ''gpt-4'' downgrade_config warm_baseline (usage_event 2 100 0)
      [critical_anomaly] open_budget = Inr DOWNGRADE"
    using enforce_guardrails_violation_iff[OF r2, THEN conjunct2, THEN conjunct1] d by (rule mp)
  show ?thesis by (intro conjI r1 e1 r2 e2)
qed



section \<open>Baseline engine\<close>


lemma filter_window_acc:
  "length acc < 200 \<Longrightarrow>
   filter_window cutoff es acc
   = acc @ take (200 - length acc) (takeWhile (\<lambda>e. \<not> timestamp e < cutoff) es)"
proof (induction es arbitrary: acc)
  case Nil
  show ?case by simp
next
  case (Cons e es)
  show ?case
  proof (cases "timestamp e < cutoff")
    case True
    then show ?thesis by simp
  next
    case False
    show ?thesis
    proof (cases "length (acc @ [e]) \<ge> 200")
      case True
      with Cons.prems have "length acc = 199" by simp
      then show ?thesis using False by (simp add: Let_def)
    next
      case False2: False
      then have l: "length (acc @ [e]) < 200" by simp
      have "200 - length acc = Suc (200 - length (acc @ [e]))" using l by simp
      then show ?thesis using False False2 Cons.IH[OF l] by (simp add: Let_def)
    qed
  qed
qed

lemma filter_window_sample:
  "filter_window (now - timedelta_days 7) (sort_newest_first events) [] = window_sample now events"
  by (simp add: filter_window_acc window_sample_def)

lemma validate_costs_ok:
  "\<forall>e \<in> set events. estimated_cost e \<noteq> None \<Longrightarrow> validate_costs events k = Inr ()"
  by (induction events arbitrary: k) simp_all

lemma validate_costs_missing:
  "\<exists>e \<in> set events. estimated_cost e = None \<Longrightarrow>
   \<exists>i < length events. estimated_cost (events ! i) = None
     \<and> validate_costs events k
        = Inl (ValueError (''Event at index '' @ str_of_nat (k + i) @ '' missing estimated_cost''))"
proof (induction events arbitrary: k)
  case Nil
  then show ?case by simp
next
  case (Cons e es)
  show ?case
  proof (cases "estimated_cost e = None")
    case True
    have g: "0 < length (e # es) \<and> estimated_cost ((e # es) ! 0) = None
      \<and> validate_costs (e # es) k
        = Inl (ValueError (''Event at index '' @ str_of_nat (k + 0) @ '' missing estimated_cost''))"
      using True by simp
    show ?thesis by (rule exI[of _ 0]) (rule g)
  next
    case False
    with Cons.prems have "\<exists>e \<in> set es. estimated_cost e = None" by auto
    from Cons.IH[OF this, of "k + 1"] obtain i where
      i: "i < length es \<and> estimated_cost (es ! i) = None
      \<and> validate_costs es (k + 1)
        = Inl (ValueError (''Event at index '' @ str_of_nat (k + 1 + i) @ '' missing estimated_cost''))"
      by (elim exE)
    have v: "validate_costs (e # es) k = validate_costs es (k + 1)" using False by auto
    have a: "k + 1 + i = k + Suc i" by simp
    have b: "Suc i < length (e # es)" using i by simp
    have c: "estimated_cost ((e # es) ! Suc i) = None" using i by simp
    have d: "validate_costs es (k + 1)
        = Inl (ValueError (''Event at index '' @ str_of_nat (k + 1 + i) @ '' missing estimated_cost''))"
      using i by (elim conjE)
    have g: "Suc i < length (e # es) \<and> estimated_cost ((e # es) ! Suc i) = None
      \<and> validate_costs (e # es) k
        = Inl (ValueError (''Event at index '' @ str_of_nat (k + Suc i) @ '' missing estimated_cost''))"
      unfolding v using b c d unfolding a by (intro conjI)
    show ?thesis by (rule exI[of _ "Suc i"]) (rule g)
  qed
qed

lemma numeric_values_present:
  "\<forall>x \<in> set xs. \<exists>v. f x = Some v \<Longrightarrow> numeric_values (map f xs) = Inr (map (\<lambda>x. the (f x)) xs)"
  by (induction xs) auto

lemma sort_newest_first_descending:
  "sorted (rev (map timestamp (sort_newest_first events)))"
  by (simp add: sort_newest_first_def rev_map)

lemma descending_prefix_hd_last:
  assumes "sorted (rev (map timestamp (p @ q)))" "p \<noteq> []"
  shows "timestamp (last p) \<le> timestamp (hd p)"
proof -
  have "sorted (rev (map timestamp p))" using assms(1) by (simp add: sorted_append)
  from sorted_rev_nth_mono[OF this, of 0 "length p - 1"] assms(2)
  have "map timestamp p ! (length p - 1) \<le> map timestamp p ! 0" by simp
  then show ?thesis using assms(2) by (simp add: last_conv_nth hd_conv_nth)
qed

lemma window_sample_prefix:
  "\<exists>q. sort_newest_first events = window_sample now events @ q"
proof -
  let ?P = "\<lambda>e. \<not> timestamp e < now - timedelta_days 7"
  let ?L = "sort_newest_first events"
  have "window_sample now events @ (drop 200 (takeWhile ?P ?L) @ dropWhile ?P ?L) = ?L"
    unfolding window_sample_def
    by (simp only: append_assoc[symmetric] append_take_drop_id takeWhile_dropWhile_id)
  then show ?thesis by metis
qed

lemma window_sample_bounds:
  assumes "window_sample now events \<noteq> []"
  shows "timestamp (last (window_sample now events)) \<le> timestamp (hd (window_sample now events))"
proof -
  obtain q where q: "sort_newest_first events = window_sample now events @ q"
    using window_sample_prefix by blast
  have "sorted (rev (map timestamp (window_sample now events @ q)))"
    using sort_newest_first_descending[of events] unfolding q .
  then show ?thesis using assms by (rule descending_prefix_hd_last)
qed

lemma window_sample_subset: "set (window_sample now events) \<subseteq> set events"
proof -
  obtain q where q: "sort_newest_first events = window_sample now events @ q"
    using window_sample_prefix by blast
  have "set (sort_newest_first events) = set events" by (simp add: sort_newest_first_def)
  then show ?thesis unfolding q by auto
qed

lemma percentile_over_reals_nonneg:
  assumes "values \<noteq> []" "0 \<le> p" "p \<le> 100" "\<forall>x \<in> set values. 0 \<le> x"
  shows "\<exists>v. percentile_over_reals values p = Inr v \<and> 0 \<le> v"
proof -
  define pos where "pos = percentile_position (length values) p"
  define k where "k = nat \<lfloor>pos\<rfloor>"
  define k' where "k' = min (k + 1) (length values - 1)"
  have n: "0 < length values" using assms(1) by simp
  have f0: "0 \<le> \<lfloor>pos\<rfloor>" and f1: "\<lfloor>pos\<rfloor> < int (length values)"
    using floor_position_bounds[OF n assms(2,3)] by (auto simp: pos_def)
  have kn: "k < length values" using f0 f1 unfolding k_def by linarith
  have k'n: "k' < length values" using n unfolding k'_def by linarith
  have kk': "k \<le> k'" using kn by (simp add: k'_def)
  have rk: "real k = real_of_int \<lfloor>pos\<rfloor>" using f0 by (simp add: k_def)
  have fr0: "0 \<le> pos - real k" unfolding rk by linarith
  have fr1: "pos - real k \<le> 1" unfolding rk by linarith
  have mono: "sort values ! k \<le> sort values ! k'" using kk' k'n by (rule sort_nth_le)
  have "sort values ! k \<in> set (sort values)" using kn by (intro nth_mem) simp
  then have lo0: "0 \<le> sort values ! k" using assms(4) by simp
  have "sort values ! k \<le> sort values ! k + (pos - real k) * (sort values ! k' - sort values ! k)"
    using mono fr0 fr1 by (rule interpolate_between(1))
  then have "0 \<le> interpolate_at (sort values) pos"
    using lo0 by (simp add: interpolate_at_def Let_def k_def k'_def)
  then show ?thesis
    using percentile_over_reals_eq[OF assms(1,2,3)] by (simp add: pos_def)
qed

lemma py_int_nonneg: "0 \<le> x \<Longrightarrow> 0 \<le> py_int x"
  by (simp add: py_int_def)

lemma compute_baseline_missing:
  "events \<noteq> [] \<Longrightarrow> validate_costs events 0 = Inl e \<Longrightarrow> compute_baseline now events = Inl e"
  by (simp add: compute_baseline_def bind_result_def)

lemma compute_baseline_unfold:
  assumes "events \<noteq> []" "\<forall>e \<in> set events. estimated_cost e \<noteq> None"
  shows "compute_baseline now events =
    (let filtered_events = window_sample now events
     in if filtered_events = [] then Inl (ValueError ''No events found within 7-day window'')
        else
          (let st = (if length filtered_events \<ge> 20 then WARM else COLD)
           in bind_result (numeric_values (map estimated_cost filtered_events)) (\<lambda>costs.
              bind_result (percentile_over_reals costs 50) (\<lambda>median_cost.
              bind_result (percentile_over_reals costs 90) (\<lambda>p90_cost.
              bind_result (numeric_values (map total_tokens filtered_events)) (\<lambda>tokens.
              bind_result (percentile_over_reals (map real_of_int tokens) 50) (\<lambda>median_tokens.
                bind_result
                  (make_BaselineMetrics median_cost p90_cost (py_int median_tokens)
                     (int (length filtered_events)))
                  (\<lambda>metrics.
                     make_BaselineResult (Some metrics) st
                       (timestamp (last filtered_events)) (timestamp (hd filtered_events))))))))))"
  using assms
  by (simp add: compute_baseline_def validate_costs_ok bind_result_def filter_window_sample Let_def)

lemma compute_baseline_result:
  assumes "events \<noteq> []" "\<forall>e \<in> set events. estimated_cost e \<noteq> None"
    and "compute_baseline now events = Inr r"
  shows "window_sample now events \<noteq> []"
    and "state r = (if length (window_sample now events) \<ge> 20 then WARM else COLD)"
    and "\<exists>m. metrics r = Some m \<and> sample_count m = int (length (window_sample now events))"
    and "window_start r = timestamp (last (window_sample now events))"
    and "window_end r = timestamp (hd (window_sample now events))"
proof -
  note u = compute_baseline_unfold[OF assms(1,2), of now]
  show ne: "window_sample now events \<noteq> []"
    using assms(3) unfolding u by (auto simp add: Let_def split: if_splits)
  from assms(3) ne obtain mc p90 mt where
    mk: "bind_result (make_BaselineMetrics mc p90 mt (int (length (window_sample now events))))
          (\<lambda>metrics. make_BaselineResult (Some metrics)
              (if length (window_sample now events) \<ge> 20 then WARM else COLD)
              (timestamp (last (window_sample now events)))
              (timestamp (hd (window_sample now events)))) = Inr r"
    unfolding u by (auto simp add: Let_def bind_result_def split: sum.splits)
  then obtain m where m: "make_BaselineMetrics mc p90 mt (int (length (window_sample now events))) = Inr m"
    and res: "make_BaselineResult (Some m)
              (if length (window_sample now events) \<ge> 20 then WARM else COLD)
              (timestamp (last (window_sample now events)))
              (timestamp (hd (window_sample now events))) = Inr r"
    by (auto simp add: bind_result_def split: sum.splits)
  have sc: "sample_count m = int (length (window_sample now events))"
    using m by (auto simp add: make_BaselineMetrics_def split: if_splits)
  have r: "r = \<lparr>metrics = Some m,
      state = (if length (window_sample now events) \<ge> 20 then WARM else COLD),
      window_start = timestamp (last (window_sample now events)),
      window_end = timestamp (hd (window_sample now events))\<rparr>"
    using res by (auto simp add: make_BaselineResult_def split: if_splits)
  show "state r = (if length (window_sample now events) \<ge> 20 then WARM else COLD)"
    unfolding r by simp
  show "\<exists>m. metrics r = Some m \<and> sample_count m = int (length (window_sample now events))"
    unfolding r using sc by simp
  show "window_start r = timestamp (last (window_sample now events))" unfolding r by simp
  show "window_end r = timestamp (hd (window_sample now events))" unfolding r by simp
qed


lemma compute_baseline_total:
  assumes "events \<noteq> []" "\<forall>e \<in> set events. estimated_cost e \<noteq> None"
    and ne: "window_sample now events \<noteq> []"
    and ok: "\<forall>e \<in> set (window_sample now events).
           (\<exists>c. estimated_cost e = Some c \<and> 0 \<le> c) \<and> (\<exists>t. total_tokens e = Some t \<and> 0 \<le> t)"
  shows "\<exists>r. compute_baseline now events = Inr r"
proof -
  let ?S = "window_sample now events"
  define costs where "costs = map (\<lambda>e. the (estimated_cost e)) ?S"
  define tokens where "tokens = map (\<lambda>e. the (total_tokens e)) ?S"
  have nc: "numeric_values (map estimated_cost ?S) = Inr costs"
    unfolding costs_def using ok by (intro numeric_values_present) blast
  have nt: "numeric_values (map total_tokens ?S) = Inr tokens"
    unfolding tokens_def using ok by (intro numeric_values_present) blast
  have c0: "costs \<noteq> []" and c1: "\<forall>x \<in> set costs. 0 \<le> x"
    using ne ok by (auto simp add: costs_def)
  have t0: "map real_of_int tokens \<noteq> []" and t1: "\<forall>x \<in> set (map real_of_int tokens). 0 \<le> x"
    using ne ok by (auto simp add: tokens_def)
  obtain mc where mc: "percentile_over_reals costs 50 = Inr mc" "0 \<le> mc"
    using percentile_over_reals_nonneg[OF c0 _ _ c1, of 50] by auto
  obtain p90 where p90: "percentile_over_reals costs 90 = Inr p90" "0 \<le> p90"
    using percentile_over_reals_nonneg[OF c0 _ _ c1, of 90] by auto
  obtain mt where mt: "percentile_over_reals (map real_of_int tokens) 50 = Inr mt" "0 \<le> mt"
    using percentile_over_reals_nonneg[OF t0 _ _ t1, of 50] by auto
  have mk: "make_BaselineMetrics mc p90 (py_int mt) (int (length ?S))
            = Inr \<lparr>median_cost = mc, p90_cost = p90, median_tokens = py_int mt,
                   sample_count = int (length ?S)\<rparr>"
    using mc(2) p90(2) py_int_nonneg[OF mt(2)] by (simp add: make_BaselineMetrics_def)
  have w: "\<not> timestamp (last ?S) > timestamp (hd ?S)"
    using window_sample_bounds[OF ne] by simp
  show ?thesis
    unfolding compute_baseline_unfold[OF assms(1,2)]
    using ne w by (simp add: Let_def bind_result_def nc nt mc(1) p90(1) mt(1) mk make_BaselineResult_def)
qed

text \<open>
  Claim C4. \<open>compute_baseline\<close> raises \<^verbatim>\<open>ValueError\<close> on an empty list and on a list with
  an event without cost (naming the first such index). The sample its loop selects is the
  newest-first list cut at the first event older than seven days and at 200 events. With
  all costs present, an empty sample raises \<^verbatim>\<open>ValueError\<close>; every result returned has
  state \<open>WARM\<close> iff the sample has at least 20 events and \<open>COLD\<close> otherwise, and counts
  the sample; and a result is returned whenever the sample is not empty and its events
  have non-negative costs and token counts.
\<close>

theorem compute_baseline_spec:
  "compute_baseline now [] = Inl (ValueError ''Events list cannot be empty'')
   \<and> filter_window (now - timedelta_days 7) (sort_newest_first events) [] = window_sample now events
   \<and> ((\<exists>e \<in> set events. estimated_cost e = None) \<longrightarrow>
        (\<exists>i < length events. estimated_cost (events ! i) = None
           \<and> compute_baseline now events
              = Inl (ValueError (''Event at index '' @ str_of_nat i @ '' missing estimated_cost''))))
   \<and> (events \<noteq> [] \<and> (\<forall>e \<in> set events. estimated_cost e \<noteq> None) \<longrightarrow>
        (window_sample now events = [] \<longrightarrow>
           compute_baseline now events = Inl (ValueError ''No events found within 7-day window''))
      \<and> (\<forall>r. compute_baseline now events = Inr r \<longrightarrow>
             window_sample now events \<noteq> []
           \<and> (state r = WARM \<longleftrightarrow> 20 \<le> length (window_sample now events))
           \<and> (state r = COLD \<longleftrightarrow> length (window_sample now events) < 20)
           \<and> (\<exists>m. metrics r = Some m \<and> sample_count m = int (length (window_sample now events))))
      \<and> (window_sample now events \<noteq> []
           \<and> (\<forall>e \<in> set (window_sample now events).
                 (\<exists>c. estimated_cost e = Some c \<and> 0 \<le> c)
               \<and> (\<exists>t. total_tokens e = Some t \<and> 0 \<le> t)) \<longrightarrow>
           (\<exists>r. compute_baseline now events = Inr r)))"
proof (intro conjI impI allI)
  show "compute_baseline now [] = Inl (ValueError ''Events list cannot be empty'')"
    by (simp add: compute_baseline_def)
next
  show "filter_window (now - timedelta_days 7) (sort_newest_first events) [] = window_sample now events"
    by (rule filter_window_sample)
next
  assume m: "\<exists>e \<in> set events. estimated_cost e = None"
  then have ne: "events \<noteq> []" by auto
  from validate_costs_missing[OF m, of 0] obtain i where
    i: "i < length events \<and> estimated_cost (events ! i) = None
      \<and> validate_costs events 0
         = Inl (ValueError (''Event at index '' @ str_of_nat (0 + i) @ '' missing estimated_cost''))"
    by (elim exE)
  have z: "0 + i = i" by simp
  note i1 = i[THEN conjunct1]
  note i2 = i[THEN conjunct2, THEN conjunct1]
  note i3 = i[THEN conjunct2, THEN conjunct2, unfolded z]
  have c: "compute_baseline now events
              = Inl (ValueError (''Event at index '' @ str_of_nat i @ '' missing estimated_cost''))"
    using ne i3 by (rule compute_baseline_missing)
  show "\<exists>i < length events. estimated_cost (events ! i) = None
           \<and> compute_baseline now events
              = Inl (ValueError (''Event at index '' @ str_of_nat i @ '' missing estimated_cost''))"
    by (intro exI[of _ i] conjI i1 i2 c)
next
  assume a: "events \<noteq> [] \<and> (\<forall>e \<in> set events. estimated_cost e \<noteq> None)"
    and "window_sample now events = []"
  then show "compute_baseline now events = Inl (ValueError ''No events found within 7-day window'')"
    using compute_baseline_unfold[of events now] by (simp add: Let_def)
next
  fix r
  assume a: "events \<noteq> [] \<and> (\<forall>e \<in> set events. estimated_cost e \<noteq> None)"
    and r: "compute_baseline now events = Inr r"
  have a1: "events \<noteq> []" and a2: "\<forall>e \<in> set events. estimated_cost e \<noteq> None" using a by auto
  note res = compute_baseline_result[OF a1 a2 r]
  show "window_sample now events \<noteq> []" using res(1) .
  show "state r = WARM \<longleftrightarrow> 20 \<le> length (window_sample now events)" using res(2) by simp
  show "state r = COLD \<longleftrightarrow> length (window_sample now events) < 20" using res(2) by auto
  show "\<exists>m. metrics r = Some m \<and> sample_count m = int (length (window_sample now events))"
    using res(3) .
next
  assume a: "events \<noteq> [] \<and> (\<forall>e \<in> set events. estimated_cost e \<noteq> None)"
    and b: "window_sample now events \<noteq> []
           \<and> (\<forall>e \<in> set (window_sample now events).
                 (\<exists>c. estimated_cost e = Some c \<and> 0 \<le> c)
               \<and> (\<exists>t. total_tokens e = Some t \<and> 0 \<le> t))"
  show "\<exists>r. compute_baseline now events = Inr r"
    using compute_baseline_total[of events now] a b by blast
qed


lemma twenty_events_sample: "window_sample 1000 twenty_events = twenty_events"
proof -
  have "sort_key timestamp (replicate 20 (usage_event 1 100 0)) = replicate 20 (usage_event 1 100 0)"
    by (rule sort_key_id_if_sorted) simp
  then have "sort_newest_first twenty_events = twenty_events"
    by (simp add: sort_newest_first_def twenty_events_def)
  then show ?thesis
    by (simp add: window_sample_def twenty_events_def usage_event_def timedelta_days_def)
qed

text \<open>
  Twenty current events give a \<open>WARM\<close> result; an event without cost and an event eight
  days old give the two errors.
\<close>

theorem compute_baseline_spec_witness:
  "twenty_events \<noteq> []
   \<and> window_sample 1000 twenty_events = twenty_events
   \<and> (\<exists>r. compute_baseline 1000 twenty_events = Inr r \<and> state r = WARM)
   \<and> compute_baseline 1000 [blank_event]
       = Inl (ValueError ''Event at index 0 missing estimated_cost'')
   \<and> window_sample (1000 + timedelta_days 8) [usage_event 1 100 0] = []
   \<and> compute_baseline (1000 + timedelta_days 8) [usage_event 1 100 0]
       = Inl (ValueError ''No events found within 7-day window'')"
proof -
  have h1: "twenty_events \<noteq> []" by (simp add: twenty_events_def)
  have h2: "\<forall>e \<in> set twenty_events. estimated_cost e \<noteq> None"
    by (simp add: twenty_events_def usage_event_def)
  have h3: "window_sample 1000 twenty_events = twenty_events" by (rule twenty_events_sample)
  have h4: "\<forall>e \<in> set (window_sample 1000 twenty_events).
          (\<exists>c. estimated_cost e = Some c \<and> 0 \<le> c) \<and> (\<exists>t. total_tokens e = Some t \<and> 0 \<le> t)"
    unfolding h3 by (simp add: twenty_events_def usage_event_def)
  have l: "length (window_sample 1000 twenty_events) = 20"
    unfolding h3 by (simp add: twenty_events_def)
  note t = compute_baseline_spec[of 1000 twenty_events]
  from t h1 h2 h3 h4 obtain r where r: "compute_baseline 1000 twenty_events = Inr r" by metis
  from t h1 h2 r have "state r = WARM \<longleftrightarrow> 20 \<le> length (window_sample 1000 twenty_events)"
    by blast
  then have w: "state r = WARM" using l by simp
  have c1: "\<exists>r. compute_baseline 1000 twenty_events = Inr r \<and> state r = WARM"
    using r w by blast
  have h5: "\<exists>e \<in> set [blank_event]. estimated_cost e = None" by (simp add: blank_event_def)
  from compute_baseline_spec[of 1000 "[blank_event]", THEN conjunct2, THEN conjunct2,
      THEN conjunct1, THEN mp, OF h5]
  obtain i where
    i: "i < length [blank_event] \<and> estimated_cost ([blank_event] ! i) = None
      \<and> compute_baseline 1000 [blank_event]
         = Inl (ValueError (''Event at index '' @ str_of_nat i @ '' missing estimated_cost''))"
    by (elim exE)
  have i0: "i = 0" using i[THEN conjunct1] by simp
  have s0: "str_of_nat 0 = ''0''" by (simp add: str_of_nat.simps digit_char_def)
  have s1: "''Event at index '' @ ''0'' @ '' missing estimated_cost''
            = ''Event at index 0 missing estimated_cost''" by simp
  have c2: "compute_baseline 1000 [blank_event]
       = Inl (ValueError ''Event at index 0 missing estimated_cost'')"
    using i[THEN conjunct2, THEN conjunct2] unfolding i0 s0 s1 .
  have h6: "window_sample (1000 + timedelta_days 8) [usage_event 1 100 0] = []"
    by (simp add: window_sample_def sort_newest_first_def usage_event_def timedelta_days_def)
  have h7: "[usage_event 1 100 0] \<noteq> [] \<and> (\<forall>e \<in> set [usage_event 1 100 0]. estimated_cost e \<noteq> None)"
    by (simp add: usage_event_def)
  have c3: "compute_baseline (1000 + timedelta_days 8) [usage_event 1 100 0]
       = Inl (ValueError ''No events found within 7-day window'')"
    using compute_baseline_spec[of "1000 + timedelta_days 8" "[usage_event 1 100 0]"] h6 h7 by blast
  show ?thesis by (intro conjI h1 h3 c1 c2 h6 c3)
qed


subsection \<open>Dependence on the input order\<close>

lemma sorted_same_time:
  "\<forall>e \<in> set ys. timestamp e = c \<Longrightarrow> sorted (map timestamp ys)"
  by (induction ys) auto

lemma sort_newest_first_same_time:
  assumes "\<forall>e \<in> set xs. timestamp e = c"
  shows "sort_newest_first xs = xs"
proof -
  have "\<forall>e \<in> set (rev xs). timestamp e = c" using assms by simp
  then have "sorted (map timestamp (rev xs))" by (rule sorted_same_time)
  then have "sort_key timestamp (rev xs) = rev xs" by (rule sort_key_id_if_sorted)
  then show ?thesis by (simp add: sort_newest_first_def)
qed

lemma window_sample_same_time:
  assumes "\<forall>e \<in> set xs. timestamp e = c" "\<not> c < now - timedelta_days 7"
  shows "window_sample now xs = take 200 xs"
proof -
  have "takeWhile (\<lambda>e. \<not> timestamp e < now - timedelta_days 7) xs = xs"
    using assms by simp
  then show ?thesis
    unfolding window_sample_def sort_newest_first_same_time[OF assms(1)] by (simp only:)
qed

lemma cheap_first_sample:
  "window_sample 1000 cheap_first = replicate 100 cheap_event @ replicate 100 dear_event"
proof -
  have "window_sample 1000 cheap_first = take 200 cheap_first"
    by (rule window_sample_same_time[where c = 1000])
      (auto simp add: cheap_first_def cheap_event_def dear_event_def usage_event_def
        timedelta_days_def)
  then show ?thesis by (simp add: cheap_first_def)
qed

lemma dear_first_sample:
  "window_sample 1000 dear_first = replicate 101 dear_event @ replicate 99 cheap_event"
proof -
  have "window_sample 1000 dear_first = take 200 dear_first"
    by (rule window_sample_same_time[where c = 1000])
      (auto simp add: dear_first_def cheap_event_def dear_event_def usage_event_def
        timedelta_days_def)
  then show ?thesis by (simp add: dear_first_def)
qed

lemma percentile_of_sorted:
  assumes "sorted values" "values \<noteq> []" "0 \<le> p" "p \<le> 100"
  shows "percentile_over_reals values p
         = Inr (interpolate_at values (percentile_position (length values) p))"
  using percentile_over_reals_eq[OF assms(2,3,4)] sorted_sort_id[OF assms(1)] by simp

lemma percentile_two_blocks:
  assumes "a \<le> b" "0 < m + n" "0 \<le> p" "p \<le> 100"
  shows "percentile_over_reals (replicate m a @ replicate n b) p
         = Inr (interpolate_at (replicate m a @ replicate n b) (percentile_position (m + n) p))"
proof -
  have s: "sorted (replicate m a @ replicate n b)" using assms(1) by (simp add: sorted_append)
  have ne: "replicate m a @ replicate n b \<noteq> []" using assms(2) by auto
  show ?thesis using percentile_of_sorted[OF s ne assms(3,4)] by simp
qed

lemma percentile_constant:
  assumes "0 < n" "0 \<le> p" "p \<le> 100"
  shows "\<exists>v. percentile_over_reals (replicate n a) p = Inr v \<and> v = a"
proof -
  have ne: "replicate n a \<noteq> []" using assms(1) by auto
  define pos where "pos = percentile_position (length (replicate n a)) p"
  have f0: "0 \<le> \<lfloor>pos\<rfloor>" and f1: "\<lfloor>pos\<rfloor> < int (length (replicate n a))"
    using floor_position_bounds[of "length (replicate n a)" p] assms by (auto simp: pos_def)
  have k: "nat \<lfloor>pos\<rfloor> < n" using f0 f1 by simp linarith
  have k': "min (nat \<lfloor>pos\<rfloor> + 1) (n - 1) < n" using assms(1) by linarith
  have "interpolate_at (replicate n a) pos = a"
    using k k' by (simp add: interpolate_at_def Let_def)
  then show ?thesis
    using percentile_of_sorted[of "replicate n a" p] ne assms by (simp add: pos_def)
qed


lemma two_blocks_values:
  "percentile_over_reals (replicate 100 1 @ replicate 100 5) 50 = Inr 3"
  "percentile_over_reals (replicate 100 1 @ replicate 100 5) 90 = Inr 5"
  "percentile_over_reals (replicate 99 1 @ replicate 101 5) 50 = Inr 5"
  "percentile_over_reals (replicate 99 1 @ replicate 101 5) 90 = Inr 5"
  "percentile_over_reals (replicate 100 100 @ replicate 100 100) 50 = Inr 100"
  "percentile_over_reals (replicate 101 100 @ replicate 99 100) 50 = Inr 100"
  using percentile_two_blocks[of 1 5 100 100 50] percentile_two_blocks[of 1 5 100 100 90]
    percentile_two_blocks[of 1 5 99 101 50] percentile_two_blocks[of 1 5 99 101 90]
    percentile_two_blocks[of 100 100 100 100 50] percentile_two_blocks[of 100 100 101 99 50]
  by (simp_all add: percentile_position_def interpolate_at_def nth_append)

lemma cheap_first_values:
  "numeric_values (map estimated_cost (replicate 100 cheap_event @ replicate 100 dear_event))
   = Inr (replicate 100 1 @ replicate 100 5)"
  "numeric_values (map total_tokens (replicate 100 cheap_event @ replicate 100 dear_event))
   = Inr (replicate 100 100 @ replicate 100 100)"
proof -
  have "numeric_values (map estimated_cost (replicate 100 cheap_event @ replicate 100 dear_event))
        = Inr (map (\<lambda>x. the (estimated_cost x))
                (replicate 100 cheap_event @ replicate 100 dear_event))"
    by (rule numeric_values_present)
      (auto simp add: cheap_event_def dear_event_def usage_event_def)
  then show "numeric_values (map estimated_cost (replicate 100 cheap_event @ replicate 100 dear_event))
   = Inr (replicate 100 1 @ replicate 100 5)"
    by (simp add: cheap_event_def dear_event_def usage_event_def)
  have "numeric_values (map total_tokens (replicate 100 cheap_event @ replicate 100 dear_event))
        = Inr (map (\<lambda>x. the (total_tokens x))
                (replicate 100 cheap_event @ replicate 100 dear_event))"
    by (rule numeric_values_present)
      (auto simp add: cheap_event_def dear_event_def usage_event_def)
  then show "numeric_values (map total_tokens (replicate 100 cheap_event @ replicate 100 dear_event))
   = Inr (replicate 100 100 @ replicate 100 100)"
    by (simp add: cheap_event_def dear_event_def usage_event_def)
qed

lemma dear_first_values:
  "numeric_values (map estimated_cost (replicate 101 dear_event @ replicate 99 cheap_event))
   = Inr (replicate 101 5 @ replicate 99 1)"
  "numeric_values (map total_tokens (replicate 101 dear_event @ replicate 99 cheap_event))
   = Inr (replicate 101 100 @ replicate 99 100)"
proof -
  have "numeric_values (map estimated_cost (replicate 101 dear_event @ replicate 99 cheap_event))
        = Inr (map (\<lambda>x. the (estimated_cost x))
                (replicate 101 dear_event @ replicate 99 cheap_event))"
    by (rule numeric_values_present)
      (auto simp add: cheap_event_def dear_event_def usage_event_def)
  then show "numeric_values (map estimated_cost (replicate 101 dear_event @ replicate 99 cheap_event))
   = Inr (replicate 101 5 @ replicate 99 1)"
    by (simp add: cheap_event_def dear_event_def usage_event_def)
  have "numeric_values (map total_tokens (replicate 101 dear_event @ replicate 99 cheap_event))
        = Inr (map (\<lambda>x. the (total_tokens x))
                (replicate 101 dear_event @ replicate 99 cheap_event))"
    by (rule numeric_values_present)
      (auto simp add: cheap_event_def dear_event_def usage_event_def)
  then show "numeric_values (map total_tokens (replicate 101 dear_event @ replicate 99 cheap_event))
   = Inr (replicate 101 100 @ replicate 99 100)"
    by (simp add: cheap_event_def dear_event_def usage_event_def)
qed

lemma percentile_sort_invariant:
  "mset xs = mset ys \<Longrightarrow> percentile_over_reals xs p = percentile_over_reals ys p"
proof -
  assume m: "mset xs = mset ys"
  then have s: "sort xs = sort ys" by (metis sorted_sort mset_sort properties_for_sort)
  have e: "(xs = []) = (ys = [])" using m by (metis mset_zero_iff)
  show ?thesis unfolding percentile_over_reals_def Let_def s e by simp
qed


lemma dear_first_percentiles:
  "percentile_over_reals (replicate 101 5 @ replicate 99 1) 50 = Inr 5"
  "percentile_over_reals (replicate 101 5 @ replicate 99 1) 90 = Inr 5"
proof -
  have m: "mset (replicate 101 (5::real) @ replicate 99 1) = mset (replicate 99 1 @ replicate 101 5)"
    by simp
  show "percentile_over_reals (replicate 101 5 @ replicate 99 1) 50 = Inr 5"
    using percentile_sort_invariant[OF m, of 50] two_blocks_values(3) by simp
  show "percentile_over_reals (replicate 101 5 @ replicate 99 1) 90 = Inr 5"
    using percentile_sort_invariant[OF m, of 90] two_blocks_values(4) by simp
qed

text \<open>
  Claim C9 at two orderings of the same 201 events, all of one timestamp inside the
  window. The stable sort keeps the input order among equal timestamps, so the cap of 200
  drops a different event in each ordering: the median cost is 3 when the cheap events
  come first and 5 when the dear ones do.
\<close>

theorem compute_baseline_order_dependent:
  "mset cheap_first = mset dear_first
   \<and> compute_baseline 1000 cheap_first
       = Inr \<lparr>metrics = Some \<lparr>median_cost = 3, p90_cost = 5, median_tokens = 100,
                               sample_count = 200\<rparr>,
              state = WARM, window_start = 1000, window_end = 1000\<rparr>
   \<and> compute_baseline 1000 dear_first
       = Inr \<lparr>metrics = Some \<lparr>median_cost = 5, p90_cost = 5, median_tokens = 100,
                               sample_count = 200\<rparr>,
              state = WARM, window_start = 1000, window_end = 1000\<rparr>"
proof (intro conjI)
  show "mset cheap_first = mset dear_first"
    by (simp add: cheap_first_def dear_first_def)
next
  have ne: "cheap_first \<noteq> []" by (simp add: cheap_first_def)
  have pc: "\<forall>e \<in> set cheap_first. estimated_cost e \<noteq> None"
    by (auto simp add: cheap_first_def cheap_event_def dear_event_def usage_event_def)
  have t: "timestamp cheap_event = 1000" "timestamp dear_event = 1000"
    by (simp_all add: cheap_event_def dear_event_def usage_event_def)
  show "compute_baseline 1000 cheap_first
       = Inr \<lparr>metrics = Some \<lparr>median_cost = 3, p90_cost = 5, median_tokens = 100,
                               sample_count = 200\<rparr>,
              state = WARM, window_start = 1000, window_end = 1000\<rparr>"
    unfolding compute_baseline_unfold[OF ne pc] cheap_first_sample
    by (simp add: Let_def bind_result_def cheap_first_values[simplified] two_blocks_values
        make_BaselineMetrics_def make_BaselineResult_def py_int_def t)
next
  have ne: "dear_first \<noteq> []" by (simp add: dear_first_def)
  have pc: "\<forall>e \<in> set dear_first. estimated_cost e \<noteq> None"
    by (auto simp add: dear_first_def cheap_event_def dear_event_def usage_event_def)
  have t: "timestamp cheap_event = 1000" "timestamp dear_event = 1000"
    by (simp_all add: cheap_event_def dear_event_def usage_event_def)
  show "compute_baseline 1000 dear_first
       = Inr \<lparr>metrics = Some \<lparr>median_cost = 5, p90_cost = 5, median_tokens = 100,
                               sample_count = 200\<rparr>,
              state = WARM, window_start = 1000, window_end = 1000\<rparr>"
    unfolding compute_baseline_unfold[OF ne pc] dear_first_sample
    by (simp add: Let_def bind_result_def dear_first_values[simplified] dear_first_percentiles two_blocks_values
        make_BaselineMetrics_def make_BaselineResult_def py_int_def t)
qed


section \<open>Simulation harness\<close>

lemma ledger_fetch:
  "get_recent_events 3000 (Table ledger) None None (Some 30) 1000
   = Inr [event_at 3000 (1 / 2), event_at 2000 (1 / 2), event_at 1000 2]"
  by (simp add: get_recent_events_def order_by_timestamp_desc_def ledger_def event_at_def
      usage_event_def timedelta_days_def)

lemma ledger_groups:
  "group_events [event_at 3000 (1 / 2), event_at 2000 (1 / 2), event_at 1000 2] []
   = [((''chat'', ''gpt-4''), [event_at 3000 (1 / 2), event_at 2000 (1 / 2), event_at 1000 2])]"
  by (simp add: event_at_def usage_event_def)

lemma ledger_latest:
  "latest_event [event_at 3000 (1 / 2), event_at 2000 (1 / 2), event_at 1000 2]
   = Inr (event_at 1000 2)"
  by (simp add: latest_event_def py_index_def)

lemma ledger_baseline:
  "create_baseline_from_events [event_at 3000 (1 / 2), event_at 2000 (1 / 2), event_at 1000 2]
   = Inr \<lparr>metrics = Some \<lparr>median_cost = 1 / 2, p90_cost = 2, median_tokens = 100,
                           sample_count = 3\<rparr>,
          state = WARM, window_start = 1000, window_end = 3000\<rparr>"
  by (simp add: create_baseline_from_events_def bind_result_def py_index_def
      make_BaselineMetrics_def make_BaselineResult_def event_at_def usage_event_def Let_def)


lemma ledger_thresholds:
  "fl_round 3 = Fl 3"
  "fl_round (100 * literal_1_7) = Fl 170"
proof -
  have r: "round_double 3 = 3" "round_double (100 * literal_1_7) = 170"
    unfolding literal_values
    by (simp_all add: round_double_def round_sig_def floor_exponent_def exponent_down.simps
        exponent_up.simps round_half_even_def Let_def)
  show "fl_round 3 = Fl 3" by (rule fl_round_value[OF r(1)]) simp
  show "fl_round (100 * literal_1_7) = Fl 170" by (rule fl_round_value[OF r(2)]) simp
qed

lemma ledger_anomalies:
  "detect_anomalies ''chat'' ''gpt-4'' ledger_baseline_result (event_at 1000 2) = Inr []"
proof -
  have s: "state ledger_baseline_result = WARM"
    and m: "metrics ledger_baseline_result
            = Some \<lparr>median_cost = 1 / 2, p90_cost = 2, median_tokens = 100, sample_count = 3\<rparr>"
    by (simp_all add: ledger_baseline_result_def)
  have e: "estimated_cost (event_at 1000 2) = Some 2" "total_tokens (event_at 1000 2) = Some 100"
    "retry_count (event_at 1000 2) = Some 0"
    by (simp_all add: event_at_def usage_event_def)
  have b: "\<bar>median_tokens \<lparr>median_cost = 1 / 2, p90_cost = 2, median_tokens = 100,
             sample_count = 3\<rparr>\<bar> < 2 ^ 53" by simp
  have r: "\<bar>0::int\<bar> < 2 ^ 53" by simp
  show ?thesis
    unfolding detect_anomalies_warm[OF s m e b r] by (simp add: ledger_thresholds)
qed

lemma ledger_enforcement:
  "simulate_enforcement ''chat'' ''gpt-4'' ceiling_config ledger_baseline_result (event_at 1000 2) []
   = Inr [(BLOCK, RequestCostMsg 2 1 ''chat'' ''gpt-4'')]"
  "simulate_enforcement ''chat'' ''gpt-4'' ceiling_config ledger_baseline_result (event_at 3000 (1 / 2)) []
   = Inr []"
  by (simp_all add: simulate_enforcement_def enforce_guardrails_def resolve_action_def
      bind_result_def check_max_cost_def check_budget_def update_action_def ceiling_config_def
      default_GuardrailConfig_def ledger_baseline_result_def event_at_def usage_event_def Let_def
      dry_run_budget_def)

lemma ledger_group:
  "simulate_group ceiling_config
     ((''chat'', ''gpt-4''), [event_at 3000 (1 / 2), event_at 2000 (1 / 2), event_at 1000 2])
   = Inr \<lparr>r_feature = ''chat'', r_model = ''gpt-4'', estimated_monthly_cost = 3,
          anomalies = [], violations = [(BLOCK, RequestCostMsg 2 1 ''chat'' ''gpt-4'')]\<rparr>"
proof -
  show ?thesis
    unfolding simulate_group_def
    by (simp add: bind_result_def ledger_latest ledger_baseline
        ledger_baseline_result_def[symmetric] ledger_anomalies ledger_enforcement Let_def)
      (simp add: event_at_def usage_event_def)
qed

text \<open>
  Claim C2 on the three-event ledger, with a cost ceiling of 1. The store returns the
  events newest first, the group keeps that order, and \<^verbatim>\<open>feature_events[-1]\<close> is the
  oldest event, the first inserted, not the most recently inserted one. The simulation
  therefore reports a \<open>BLOCK\<close> for the old cost of 2, where the most recent event
  (cost 0.5) gives no violation.
\<close>

theorem simulation_uses_oldest_event:
  "get_recent_events 3000 (Table ledger) None None (Some 30) 1000
     = Inr [event_at 3000 (1 / 2), event_at 2000 (1 / 2), event_at 1000 2]
   \<and> group_events [event_at 3000 (1 / 2), event_at 2000 (1 / 2), event_at 1000 2] []
     = [((''chat'', ''gpt-4''), [event_at 3000 (1 / 2), event_at 2000 (1 / 2), event_at 1000 2])]
   \<and> last (rows_of_group ledger (''chat'', ''gpt-4'')) = event_at 3000 (1 / 2)
   \<and> latest_event [event_at 3000 (1 / 2), event_at 2000 (1 / 2), event_at 1000 2]
     = Inr (event_at 1000 2)
   \<and> event_at 1000 2 \<noteq> event_at 3000 (1 / 2)
   \<and> simulate_cost_impact 3000 None ceiling_config (Table ledger)
     = Inr \<lparr>per_feature_results =
              [\<lparr>r_feature = ''chat'', r_model = ''gpt-4'', estimated_monthly_cost = 3,
                anomalies = [], violations = [(BLOCK, RequestCostMsg 2 1 ''chat'' ''gpt-4'')]\<rparr>],
            overall_verdict = VerdictFAIL, estimated_monthly_impact = 3\<rparr>
   \<and> simulate_enforcement ''chat'' ''gpt-4'' ceiling_config ledger_baseline_result
       (event_at 3000 (1 / 2)) [] = Inr []"
proof (intro conjI)
  show "get_recent_events 3000 (Table ledger) None None (Some 30) 1000
     = Inr [event_at 3000 (1 / 2), event_at 2000 (1 / 2), event_at 1000 2]"
    by (rule ledger_fetch)
  show "group_events [event_at 3000 (1 / 2), event_at 2000 (1 / 2), event_at 1000 2] []
     = [((''chat'', ''gpt-4''), [event_at 3000 (1 / 2), event_at 2000 (1 / 2), event_at 1000 2])]"
    by (rule ledger_groups)
  show "last (rows_of_group ledger (''chat'', ''gpt-4'')) = event_at 3000 (1 / 2)"
    by (simp add: rows_of_group_def ledger_def event_at_def usage_event_def)
  show "latest_event [event_at 3000 (1 / 2), event_at 2000 (1 / 2), event_at 1000 2]
     = Inr (event_at 1000 2)"
    by (rule ledger_latest)
  show "event_at 1000 2 \<noteq> event_at 3000 (1 / 2)"
    by (simp add: event_at_def usage_event_def)
  show "simulate_cost_impact 3000 None ceiling_config (Table ledger)
     = Inr \<lparr>per_feature_results =
              [\<lparr>r_feature = ''chat'', r_model = ''gpt-4'', estimated_monthly_cost = 3,
                anomalies = [], violations = [(BLOCK, RequestCostMsg 2 1 ''chat'' ''gpt-4'')]\<rparr>],
            overall_verdict = VerdictFAIL, estimated_monthly_impact = 3\<rparr>"
    unfolding simulate_cost_impact_def ledger_fetch
    by (simp add: ledger_groups ledger_group bind_result_def determine_overall_verdict_def Let_def
        del: group_events.simps)
  show "simulate_enforcement ''chat'' ''gpt-4'' ceiling_config ledger_baseline_result
       (event_at 3000 (1 / 2)) [] = Inr []"
    by (rule ledger_enforcement(2))
qed


end
